theory Spec2Isabelle
  imports Main
begin

section \<open>JavaScript values\<close>

text \<open>
  The status payloads are parsed JSON. \<open>JNum n\<close> stands for a number that is an integer
  which a double holds exactly (\<open>\<bar>n\<bar> \<le> 2^53\<close>): such a number is printed with all its
  digits. Fractions and larger magnitudes are outside of the model, and the theorems that
  print a number say so in their hypotheses. An object is an association list read by its
  first matching key. \<open>Undefined\<close> is the value of a missing property.
\<close>

datatype jsval =
    Undefined
  | Null
  | JBool bool
  | JNum int
  | JStr string
  | JArr "jsval list"
  | JObj "(string \<times> jsval) list"

text \<open>Truthiness, as \<open>if (v)\<close>, \<open>!v\<close> and \<open>v || d\<close> use it.\<close>

fun truthy :: "jsval \<Rightarrow> bool" where
  "truthy Undefined = False"
| "truthy Null = False"
| "truthy (JBool b) = b"
| "truthy (JNum n) = (n \<noteq> 0)"
| "truthy (JStr s) = (s \<noteq> [])"
| "truthy (JArr _) = True"
| "truthy (JObj _) = True"

definition js_or :: "jsval \<Rightarrow> jsval \<Rightarrow> jsval" where
  "js_or v d = (if truthy v then v else d)"

definition nullish :: "jsval \<Rightarrow> bool" where
  "nullish v = (v = Undefined \<or> v = Null)"

text \<open>
  Property read \<open>v.k\<close> on a value that is neither \<open>null\<close> nor \<open>undefined\<close>
  (on those the read throws a TypeError, which the callers model). The keys read by the
  program are payload field names, none of them a built-in property of a primitive.
\<close>

fun field :: "jsval \<Rightarrow> string \<Rightarrow> jsval" where
  "field (JObj kvs) k = (case map_of kvs k of None \<Rightarrow> Undefined | Some v \<Rightarrow> v)"
| "field _ k = Undefined"

text \<open>Decimal digits of a natural number, and string conversion as a template literal does it.\<close>

definition digit :: "nat \<Rightarrow> char" where
  "digit n = ''0123456789'' ! n"

fun digits :: "nat \<Rightarrow> string" where
  "digits n = (if n < 10 then [digit n] else digits (n div 10) @ [digit (n mod 10)])"

declare digits.simps [simp del]

definition show_int :: "int \<Rightarrow> string" where
  "show_int i = (if i < 0 then CHR ''-'' # digits (nat (- i)) else digits (nat i))"

fun join_with :: "string \<Rightarrow> string list \<Rightarrow> string" where
  "join_with sep [] = []"
| "join_with sep [x] = x"
| "join_with sep (x # y # ys) = x @ sep @ join_with sep (y # ys)"

fun js_string :: "jsval \<Rightarrow> string" where
  "js_string Undefined = ''undefined''"
| "js_string Null = ''null''"
| "js_string (JBool b) = (if b then ''true'' else ''false'')"
| "js_string (JNum n) = show_int n"
| "js_string (JStr s) = s"
| "js_string (JArr vs) =
     join_with '','' (map (\<lambda>v. if v = Undefined \<or> v = Null then [] else js_string v) vs)"
| "js_string (JObj _) = ''[object Object]''"

text \<open>ASCII case conversion (\<open>toUpperCase\<close>, \<open>toLowerCase\<close> on the status names).\<close>

definition toUpperChar :: "char \<Rightarrow> char" where
  "toUpperChar c =
     (case map_of (zip ''abcdefghijklmnopqrstuvwxyz'' ''ABCDEFGHIJKLMNOPQRSTUVWXYZ'') c of
        None \<Rightarrow> c | Some u \<Rightarrow> u)"

definition toLowerChar :: "char \<Rightarrow> char" where
  "toLowerChar c =
     (case map_of (zip ''ABCDEFGHIJKLMNOPQRSTUVWXYZ'' ''abcdefghijklmnopqrstuvwxyz'') c of
        None \<Rightarrow> c | Some l \<Rightarrow> l)"

definition toLowerCase :: "string \<Rightarrow> string" where
  "toLowerCase s = map toLowerChar s"

text \<open>
  The two conversions are those of JavaScript on ASCII strings, which is what the status
  names of the server are; a property that depends on the case of other characters is
  stated for ASCII strings only.
\<close>

definition is_ascii :: "string \<Rightarrow> bool" where
  "is_ascii s = list_all (\<lambda>c. \<not> digit7 c) s"

text \<open>\<open>s.charAt(0).toUpperCase() + s.slice(1)\<close>\<close>

fun capitalize :: "string \<Rightarrow> string" where
  "capitalize [] = []"
| "capitalize (c # cs) = toUpperChar c # cs"

text \<open>Exceptions and promise rejections, with their \<open>message\<close>.\<close>

datatype js_error = Error string | TypeError string | SyntaxError string

fun message :: "js_error \<Rightarrow> string" where
  "message (Error m) = m"
| "message (TypeError m) = m"
| "message (SyntaxError m) = m"

text \<open>
  What a \<open>fetch\<close> settles with: a rejection (network failure), or a response with its
  HTTP status whose body either parses as JSON or does not.
\<close>

datatype body = BadJson string | Json jsval

datatype response = Rejected js_error | Http nat body

definition ok :: "nat \<Rightarrow> bool" where
  "ok st = (200 \<le> st \<and> st \<le> 299)"

text \<open>
  Assigning to \<open>style.width\<close>. The renderers assign a percentage, \<open>`${percent}%`\<close>. The
  browser keeps the assigned text when it is a width it accepts and ignores the assignment
  otherwise, so that the element keeps the width it had. Of the texts that end in a percent
  sign the browser accepts a number that is not negative: an optional sign, digits with an
  optional fraction (or a fraction alone), an optional exponent, white space around it.
  Comments, escapes and functions such as \<open>var()\<close> inside the text are outside of the model,
  and so is the way a browser prints an accepted number that is not in its shortest form.
\<close>

definition is_digit :: "char \<Rightarrow> bool" where
  "is_digit c = (c \<in> set ''0123456789'')"

definition css_whitespace :: "char \<Rightarrow> bool" where
  "css_whitespace c = (c \<in> set [CHR '' '', CHR 0x09, CHR 0x0A, CHR 0x0C, CHR 0x0D])"

definition css_trim :: "string \<Rightarrow> string" where
  "css_trim v = rev (dropWhile css_whitespace (rev (dropWhile css_whitespace v)))"

definition css_exponent :: "string \<Rightarrow> bool" where
  "css_exponent e =
     (case e of
        [] \<Rightarrow> True
      | c # e' \<Rightarrow>
          (c = CHR ''e'' \<or> c = CHR ''E'')
          \<and> (let ds = (case e' of
                         [] \<Rightarrow> []
                       | sg # x \<Rightarrow> if sg = CHR ''+'' \<or> sg = CHR ''-'' then x else e')
             in ds \<noteq> [] \<and> list_all is_digit ds))"

definition css_unsigned :: "string \<Rightarrow> bool" where
  "css_unsigned u =
     (let ip = takeWhile is_digit u; r = dropWhile is_digit u in
      case r of
        CHR ''.'' # r' \<Rightarrow> takeWhile is_digit r' \<noteq> [] \<and> css_exponent (dropWhile is_digit r')
      | _ \<Rightarrow> ip \<noteq> [] \<and> css_exponent r)"

definition css_zero :: "string \<Rightarrow> bool" where
  "css_zero u =
     list_all (\<lambda>c. c = CHR ''0'' \<or> c = CHR ''.'') (takeWhile (\<lambda>c. c \<noteq> CHR ''e'' \<and> c \<noteq> CHR ''E'') u)"

definition accepts_width :: "string \<Rightarrow> bool" where
  "accepts_width v =
     (case rev (css_trim v) of
        [] \<Rightarrow> False
      | c # b \<Rightarrow>
          c = CHR ''%''
          \<and> (case rev b of
                [] \<Rightarrow> False
              | sg # u \<Rightarrow>
                  if sg = CHR ''-'' then css_unsigned u \<and> css_zero u
                  else if sg = CHR ''+'' then css_unsigned u
                  else css_unsigned (sg # u)))"

definition set_width :: "string \<Rightarrow> string \<Rightarrow> string" where
  "set_width v old = (if accepts_width v then v else old)"

text \<open>\<open>classList.add\<close> and \<open>classList.remove\<close> on an ordered class list.\<close>

definition classList_add :: "string \<Rightarrow> string list \<Rightarrow> string list" where
  "classList_add c cs = (if c \<in> set cs then cs else cs @ [c])"

definition classList_remove :: "string list \<Rightarrow> string list \<Rightarrow> string list" where
  "classList_remove rs cs = filter (\<lambda>c. c \<notin> set rs) cs"


section \<open>The browser: timers and requests\<close>

text \<open>
  The event loop is made explicit. The browser holds the repeating timers
  (\<open>setInterval\<close>) and the one-shot timers (\<open>setTimeout\<close>) that are armed, each with its
  identifier and delay, and the requests that were issued by \<open>fetch\<close> and have not settled
  yet. Timer identifiers are positive, so a stored identifier is truthy. A poller's state
  extends this record with the fields of its class.
\<close>

record 'r browser =
  intervals :: "(nat \<times> nat) list"
  timeouts :: "(nat \<times> nat) list"
  next_timer :: nat
  in_flight :: "'r list"
  fetches :: nat

definition setInterval :: "nat \<Rightarrow> ('r, 'a) browser_scheme \<Rightarrow> nat \<times> ('r, 'a) browser_scheme" where
  "setInterval ms b =
     (next_timer b, b\<lparr>intervals := intervals b @ [(next_timer b, ms)], next_timer := Suc (next_timer b)\<rparr>)"

definition setTimeout :: "nat \<Rightarrow> ('r, 'a) browser_scheme \<Rightarrow> nat \<times> ('r, 'a) browser_scheme" where
  "setTimeout ms b =
     (next_timer b, b\<lparr>timeouts := timeouts b @ [(next_timer b, ms)], next_timer := Suc (next_timer b)\<rparr>)"

text \<open>\<open>clearInterval\<close> and \<open>clearTimeout\<close> share one pool of identifiers.\<close>

definition clearTimer :: "nat \<Rightarrow> ('r, 'a) browser_scheme \<Rightarrow> ('r, 'a) browser_scheme" where
  "clearTimer t b =
     b\<lparr>intervals := filter (\<lambda>p. fst p \<noteq> t) (intervals b),
       timeouts := filter (\<lambda>p. fst p \<noteq> t) (timeouts b)\<rparr>"

definition fetch :: "'r \<Rightarrow> ('r, 'a) browser_scheme \<Rightarrow> ('r, 'a) browser_scheme" where
  "fetch req b = b\<lparr>in_flight := in_flight b @ [req], fetches := Suc (fetches b)\<rparr>"

text \<open>The request at position \<open>i\<close> settles and leaves the list.\<close>

definition settled :: "nat \<Rightarrow> ('r, 'a) browser_scheme \<Rightarrow> ('r, 'a) browser_scheme" where
  "settled i b = b\<lparr>in_flight := take i (in_flight b) @ drop (Suc i) (in_flight b)\<rparr>"

text \<open>
  What can happen to a poller: a call of one of its methods from the page, a timer that
  fires, or a request that settles with a response.
\<close>

datatype 'c event = Call 'c | TimerFires nat | FetchSettles nat response

section \<open>JobProgress (job-progress.js)\<close>

record progress_bar =
  width :: string
  aria_valuenow :: string
  classes :: "string list"

text \<open>
  The fields of the class, the DOM elements it found (\<open>None\<close> when the selector matched
  nothing), and the calls it made to the callbacks of its options.
\<close>

record job_progress = "string browser" +
  jobId :: string
  jobStatusUrl :: string
  pollInterval :: nat
  timer :: "nat option"
  pollCount :: nat
  lastStatus :: jsval
  lastUpdated :: jsval
  isActive :: bool
  el_progressBar :: "progress_bar option"
  el_status :: "string option"
  el_phases_container :: bool
  el_phases :: "(string \<times> string list option) list"
  onUpdate_calls :: "jsval list"
  onComplete_calls :: "jsval list"
  onError_calls :: "js_error list"

text \<open>
  The constructor: both \<open>jobId\<close> and \<open>jobStatusUrl\<close> are required. The phase elements
  are kept in the order of the object literal in \<open>findElements\<close>.
\<close>

definition jp_phase_names :: "string list" where
  "jp_phase_names =
     [''initializing'', ''preparing'', ''extracting'', ''processing'', ''sending'', ''completed'']"

definition JobProgress ::
  "string \<Rightarrow> string \<Rightarrow> nat \<Rightarrow> progress_bar option \<Rightarrow> string option \<Rightarrow> bool \<Rightarrow>
   (string \<Rightarrow> string list option) \<Rightarrow> js_error + job_progress" where
  "JobProgress jid url ms bar st container phase =
     (if jid = [] then Inl (Error ''JobProgress requires a jobId'')
      else if url = [] then Inl (Error ''JobProgress requires a jobStatusUrl'')
      else Inr \<lparr>intervals = [], timeouts = [], next_timer = 1, in_flight = [], fetches = 0,
        jobId = jid, jobStatusUrl = url, pollInterval = ms, timer = None, pollCount = 0,
        lastStatus = Null, lastUpdated = Null, isActive = False,
        el_progressBar = bar, el_status = st, el_phases_container = container,
        el_phases = map (\<lambda>n. (n, phase n)) jp_phase_names,
        onUpdate_calls = [], onComplete_calls = [], onError_calls = []\<rparr>)"

text \<open>
  \<open>pollStatus\<close>, up to the call of \<open>fetch\<close>; the handlers run when the request settles.
  The cache-busting parameter carries the clock, which the model leaves out.
\<close>

definition jp_url :: "job_progress \<Rightarrow> string" where
  "jp_url s =
     jobStatusUrl s @ (if CHR ''?'' \<in> set (jobStatusUrl s) then ''&'' else ''?'')
       @ ''job_id='' @ jobId s @ ''&_=''"

definition jp_pollStatus :: "job_progress \<Rightarrow> job_progress" where
  "jp_pollStatus s = fetch (jp_url s) (s\<lparr>pollCount := Suc (pollCount s)\<rparr>)"

definition startTracking :: "job_progress \<Rightarrow> job_progress" where
  "startTracking s =
     (if isActive s then s
      else
        let s1 = jp_pollStatus (s\<lparr>isActive := True\<rparr>);
            (t, s2) = setInterval (pollInterval s1) s1
        in s2\<lparr>timer := Some t\<rparr>)"

definition stopTracking :: "job_progress \<Rightarrow> job_progress" where
  "stopTracking s =
     (if \<not> isActive s then s
      else
        let s1 = (case timer s of None \<Rightarrow> s | Some t \<Rightarrow> (clearTimer t s)\<lparr>timer := None\<rparr>)
        in s1\<lparr>isActive := False\<rparr>)"

text \<open>
  \<open>updatePhaseDisplay\<close>: the order table of the method, \<open>phaseOrder[name] || 0\<close>, and the
  class each phase element gets. The key of the lookup is the phase converted to a string.
  A key that the table inherits from \<open>Object.prototype\<close> yields a function or an object,
  which no order is less than: the same as the order 0.
\<close>

definition phaseOrder :: "(string \<times> nat) list" where
  "phaseOrder =
     [(''initializing'', 0), (''preparing'', 1), (''extracting'', 2), (''processing'', 3),
      (''sending'', 4), (''completed'', 5)]"

definition phaseOrder_or0 :: "jsval \<Rightarrow> nat" where
  "phaseOrder_or0 v = (case map_of phaseOrder (js_string v) of None \<Rightarrow> 0 | Some k \<Rightarrow> k)"

definition phase_class :: "jsval \<Rightarrow> string \<Rightarrow> string" where
  "phase_class phase phaseName =
     (if JStr phaseName = phase then ''phase-active''
      else if phaseOrder_or0 (JStr phaseName) < phaseOrder_or0 phase then ''phase-complete''
      else ''phase-pending'')"

definition updatePhaseDisplay :: "jsval \<Rightarrow> job_progress \<Rightarrow> job_progress" where
  "updatePhaseDisplay phase s =
     s\<lparr>el_phases :=
         map (\<lambda>(phaseName, element).
                (phaseName,
                 map_option
                   (\<lambda>cl. classList_add (phase_class phase phaseName)
                      (classList_remove [''phase-active'', ''phase-complete'', ''phase-pending''] cl))
                   element))
           (el_phases s)\<rparr>"

text \<open>
  \<open>updateDisplay\<close>. Its body is one \<open>try\<close> block: an exception leaves the elements
  written so far as they are and skips the rest. On \<open>null\<close> the first read of the payload
  throws, before anything is written. The only statement that can throw on another payload
  is \<open>data.status.charAt(0)\<close> on a status that is not a string. The text of the details
  element is left out of the model.
\<close>

definition jp_progress :: "jsval \<Rightarrow> progress_bar \<Rightarrow> progress_bar" where
  "jp_progress data bar =
     (let percent = js_or (field data ''progress_percent'') (JNum 0);
          cl = classList_remove [''bg-success'', ''bg-danger'', ''bg-warning''] (classes bar);
          status = field data ''status''
      in bar\<lparr>width := set_width (js_string percent @ ''%'') (width bar),
             aria_valuenow := js_string percent,
             classes :=
               (if status = JStr ''completed'' then classList_add ''bg-success'' cl
                else if status = JStr ''error'' \<or> status = JStr ''failed''
                  then classList_add ''bg-danger'' cl
                else if status = JStr ''cancelled'' then classList_add ''bg-warning'' cl
                else cl)\<rparr>)"

definition jp_statusText :: "jsval \<Rightarrow> js_error + string" where
  "jp_statusText data =
     (let status = field data ''status'' in
      if status = JStr ''in_progress'' \<or> status = JStr ''processing'' then
        Inr (''Processing ('' @ js_string (field data ''processed_count'') @ '' of ''
             @ js_string (field data ''total_count'') @ '' documents)'')
      else if status = JStr ''completed'' then
        Inr (''Completed ('' @ js_string (field data ''total_count'') @ '' documents, ''
             @ js_string (field data ''total_case_count'') @ '' cases)'')
      else if status = JStr ''error'' \<or> status = JStr ''failed'' then
        Inr (''Failed: '' @ js_string (js_or (field data ''error'') (JStr ''Unknown error'')))
      else if status = JStr ''cancelled'' then Inr ''Cancelled''
      else (case status of
              JStr st \<Rightarrow> Inr (capitalize st)
            | _ \<Rightarrow> Inl (TypeError ''data.status.charAt is not a function'')))"

definition updateDisplay :: "jsval \<Rightarrow> job_progress \<Rightarrow> job_progress" where
  "updateDisplay data s =
     (if nullish data then s else
      let s1 = s\<lparr>el_progressBar := map_option (jp_progress data) (el_progressBar s)\<rparr>;
          phases = (\<lambda>s'. if el_phases_container s' \<and> truthy (field data ''current_phase'')
                         then updatePhaseDisplay (field data ''current_phase'') s' else s')
      in case el_status s1 of
           None \<Rightarrow> phases s1
         | Some _ \<Rightarrow>
             (case jp_statusText data of
                Inl _ \<Rightarrow> s1
              | Inr statusText \<Rightarrow> phases (s1\<lparr>el_status := Some statusText\<rparr>)))"

text \<open>The \<open>catch\<close> handler and the \<open>then\<close> handlers of \<open>pollStatus\<close>.\<close>

definition jp_catch :: "js_error \<Rightarrow> job_progress \<Rightarrow> job_progress" where
  "jp_catch e s =
     (let s1 = s\<lparr>el_status :=
                   map_option (\<lambda>_. ''Error checking status: '' @ message e) (el_status s)\<rparr>;
          s2 = (if pollCount s1 > 10 then stopTracking s1 else s1)
      in s2\<lparr>onError_calls := onError_calls s2 @ [e]\<rparr>)"

definition terminal_statuses :: "string list" where
  "terminal_statuses = [''completed'', ''error'', ''failed'', ''cancelled'']"

definition jp_then :: "jsval \<Rightarrow> job_progress \<Rightarrow> job_progress" where
  "jp_then data s =
     (if nullish data then
        jp_catch (TypeError ''Cannot read properties of null (reading 'error')'') s
      else if truthy (field data ''error'') then
        jp_catch (Error (js_string (field data ''error''))) s
      else
        let s1 = updateDisplay data s;
            s2 = s1\<lparr>lastStatus := field data ''status'',
                    lastUpdated := field data ''last_updated'',
                    onUpdate_calls := onUpdate_calls s1 @ [data]\<rparr>
        in if field data ''status'' \<in> set (map JStr terminal_statuses) then
             (let s3 = stopTracking s2 in s3\<lparr>onComplete_calls := onComplete_calls s3 @ [data]\<rparr>)
           else s2)"

definition jp_settle :: "response \<Rightarrow> job_progress \<Rightarrow> job_progress" where
  "jp_settle r s =
     (case r of
        Rejected e \<Rightarrow> jp_catch e s
      | Http st b \<Rightarrow>
          if \<not> ok st then jp_catch (Error (''Server responded with status '' @ digits st)) s
          else (case b of
                  BadJson m \<Rightarrow> jp_catch (SyntaxError m) s
                | Json data \<Rightarrow> jp_then data s))"

text \<open>
  One step of the event loop for a JobProgress instance. A timer fires only while it is
  armed, and a request settles only while it is in flight.
\<close>

datatype jp_call = StartTracking | StopTracking

fun jp_step :: "job_progress \<Rightarrow> jp_call event \<Rightarrow> job_progress" where
  "jp_step s (Call StartTracking) = startTracking s"
| "jp_step s (Call StopTracking) = stopTracking s"
| "jp_step s (TimerFires t) = (if t \<in> fst ` set (intervals s) then jp_pollStatus s else s)"
| "jp_step s (FetchSettles i r) =
     (if i < length (in_flight s) then jp_settle r (settled i s) else s)"

definition jp_run :: "job_progress \<Rightarrow> jp_call event list \<Rightarrow> job_progress" where
  "jp_run s evs = foldl jp_step s evs"

text \<open>An instance as the constructor returns it on a page that has every element.\<close>

definition jp_example :: job_progress where
  "jp_example =
     \<lparr>intervals = [], timeouts = [], next_timer = 1, in_flight = [], fetches = 0,
      jobId = ''42'', jobStatusUrl = ''/check-job-status/'', pollInterval = 3000, timer = None,
      pollCount = 0, lastStatus = Null, lastUpdated = Null, isActive = False,
      el_progressBar = Some \<lparr>width = ''0%'', aria_valuenow = ''0'', classes = [''progress-bar'']\<rparr>,
      el_status = Some [], el_phases_container = True,
      el_phases = map (\<lambda>n. (n, Some [])) jp_phase_names,
      onUpdate_calls = [], onComplete_calls = [], onError_calls = []\<rparr>"

text \<open>
  In every state an instance can reach, tracking is active exactly when the instance holds
  a timer, and that timer is the only one armed.
\<close>

definition jp_inv :: "job_progress \<Rightarrow> bool" where
  "jp_inv s = (timeouts s = [] \<and> isActive s = (timer s \<noteq> None) \<and>
     intervals s = (case timer s of None \<Rightarrow> [] | Some t \<Rightarrow> [(t, pollInterval s)]))"

section \<open>StatusUpdater (status-updater.js)\<close>

text \<open>\<open>s.startsWith(p)\<close> and \<open>s.includes(p)\<close> on strings.\<close>

fun startsWith :: "string \<Rightarrow> string \<Rightarrow> bool" where
  "startsWith s [] = True"
| "startsWith [] (p # ps) = False"
| "startsWith (c # cs) (p # ps) = (c = p \<and> startsWith cs ps)"

fun str_includes :: "string \<Rightarrow> string \<Rightarrow> bool" where
  "str_includes [] p = (p = [])"
| "str_includes (c # cs) p = (startsWith (c # cs) p \<or> str_includes cs p)"

text \<open>
  The options, the fields of the class and the elements it found. The two counters are
  written only when both exist; the badge holds its text and its class name, the error
  box its text and its \<open>display\<close>; each step indicator holds its \<open>data-phase\<close> and its
  class list. The details box, the case counter, the truncation alert, the download
  buttons and the custom event are left out: none of them can throw.
\<close>

record status_updater = "string browser" +
  su_pollInterval :: nat
  su_statusEndpoint :: string
  su_maxRetries :: nat
  pollTimer :: "nat option"
  currentJobId :: "string option"
  retryCount :: nat
  su_lastStatus :: jsval
  su_progressBar :: "progress_bar option"
  su_counts :: "(string \<times> string) option"
  su_statusBadge :: "(string \<times> string) option"
  su_processingError :: "(string \<times> string) option"
  su_stepIndicators :: "(string \<times> string list) list"

text \<open>The phases as the page lists them (the \<open>phases\<close> field, and the step indicators).\<close>

definition su_phases :: "string list" where
  "su_phases =
     [''initializing'', ''preparing'', ''sending'', ''extracting'', ''processing'', ''completed'']"

definition StatusUpdater ::
  "nat \<Rightarrow> string \<Rightarrow> nat \<Rightarrow> progress_bar option \<Rightarrow> (string \<times> string) option \<Rightarrow>
   (string \<times> string) option \<Rightarrow> (string \<times> string) option \<Rightarrow> (string \<times> string list) list \<Rightarrow>
   status_updater" where
  "StatusUpdater ms endpoint maxr bar counts badge err steps =
     \<lparr>intervals = [], timeouts = [], next_timer = 1, in_flight = [], fetches = 0,
      su_pollInterval = ms, su_statusEndpoint = endpoint, su_maxRetries = maxr,
      pollTimer = None, currentJobId = None, retryCount = 0, su_lastStatus = Null,
      su_progressBar = bar, su_counts = counts, su_statusBadge = badge,
      su_processingError = err, su_stepIndicators = steps\<rparr>"

text \<open>The instance with the default options, on the page that process-status-fix.js builds.\<close>

definition su_example :: status_updater where
  "su_example =
     StatusUpdater 2000 ''/check-job-status/'' 5
       (Some \<lparr>width = ''0%'', aria_valuenow = ''0'', classes = [''progress-bar'']\<rparr>)
       (Some (''0'', ''0'')) (Some (''Initializing'', ''badge bg-info''))
       (Some ([], ''none''))
       (map (\<lambda>p. (p, if p = ''initializing'' then [''step-indicator'', ''active'']
                       else [''step-indicator''])) su_phases)"

definition stopPolling :: "status_updater \<Rightarrow> status_updater" where
  "stopPolling s =
     (case pollTimer s of None \<Rightarrow> s | Some t \<Rightarrow> (clearTimer t s)\<lparr>pollTimer := None\<rparr>)"

definition su_pollStatus :: "status_updater \<Rightarrow> status_updater" where
  "su_pollStatus s =
     (case currentJobId s of
        None \<Rightarrow> s
      | Some jid \<Rightarrow> if jid = [] then s else fetch (su_statusEndpoint s @ ''?job_id='' @ jid) s)"

definition schedulePoll :: "status_updater \<Rightarrow> status_updater" where
  "schedulePoll s = (let (t, s1) = setTimeout (su_pollInterval s) s in s1\<lparr>pollTimer := Some t\<rparr>)"

definition shouldContinuePolling :: "jsval \<Rightarrow> js_error + bool" where
  "shouldContinuePolling data =
     (let unfinished = (\<lambda>v. case v of
            JStr st \<Rightarrow> Inr (toLowerCase st \<noteq> ''completed'' \<and> toLowerCase st \<noteq> ''failed''
                          \<and> toLowerCase st \<noteq> ''error'')
          | _ \<Rightarrow> Inl (TypeError ''status.toLowerCase is not a function''))
      in if truthy (field data ''status'') then unfinished (field data ''status'')
         else if truthy (field data ''job'') \<and> truthy (field (field data ''job'') ''status'')
           then unfinished (field (field data ''job'') ''status'')
         else Inr True)"

definition updateProgressBar :: "jsval \<Rightarrow> status_updater \<Rightarrow> status_updater" where
  "updateProgressBar data s =
     s\<lparr>su_progressBar :=
         map_option
           (\<lambda>bar. let progressPercent = js_or (field data ''progress_percent'') (JNum 0)
                  in bar\<lparr>width := set_width (js_string progressPercent @ ''%'') (width bar),
                         aria_valuenow := js_string progressPercent\<rparr>)
           (su_progressBar s),
       su_counts :=
         map_option
           (\<lambda>_. (js_string (js_or (field data ''processed_count'') (JNum 0)),
                  js_string (js_or (field data ''total_count'') (JNum 0))))
           (su_counts s)\<rparr>"

text \<open>The \<open>switch\<close> of \<open>updateStatusBadge\<close>: status text and badge class.\<close>

definition su_badge :: "jsval \<Rightarrow> string \<times> string" where
  "su_badge status =
     (if status = JStr ''pending'' then (''Pending'', ''bg-warning'')
      else if status = JStr ''in_progress'' \<or> status = JStr ''processing''
        then (''Processing'', ''bg-primary'')
      else if status = JStr ''waiting'' then (''Waiting'', ''bg-info'')
      else if status = JStr ''extracting'' then (''Extracting'', ''bg-info'')
      else if status = JStr ''completed'' then (''Completed'', ''bg-success'')
      else if status = JStr ''error'' \<or> status = JStr ''failed'' then (''Error'', ''bg-danger'')
      else (''Unknown'', ''bg-secondary''))"

definition updateStatusBadge :: "jsval \<Rightarrow> status_updater \<Rightarrow> status_updater" where
  "updateStatusBadge data s =
     s\<lparr>su_statusBadge :=
         map_option
           (\<lambda>_. let (statusText, badgeClass) = su_badge (field data ''status'')
                 in (statusText, badgeClass @ '' badge''))
           (su_statusBadge s)\<rparr>"

text \<open>
  \<open>updateProcessingPhase\<close>. \<open>processingDetails.includes\<close> is the string method on a
  string, the array method on an array, and no function on any other truthy value.
\<close>

definition js_includes :: "jsval \<Rightarrow> string \<Rightarrow> js_error + bool" where
  "js_includes v p =
     (case v of
        JStr st \<Rightarrow> Inr (str_includes st p)
      | JArr vs \<Rightarrow> Inr (JStr p \<in> set vs)
      | _ \<Rightarrow> Inl (TypeError ''processingDetails.includes is not a function''))"

definition first_including :: "jsval \<Rightarrow> (string \<times> string) list \<Rightarrow> string \<Rightarrow> js_error + string" where
  "first_including v keys dflt =
     foldr (\<lambda>(key, phase) rest.
              case js_includes v key of
                Inl e \<Rightarrow> Inl e
              | Inr True \<Rightarrow> Inr phase
              | Inr False \<Rightarrow> rest)
       keys (Inr dflt)"

definition su_currentPhase :: "jsval \<Rightarrow> js_error + string" where
  "su_currentPhase data =
     (let processingDetails = js_or (field data ''processing_details'') (JStr [])
      in if field data ''status'' = JStr ''completed'' then Inr ''completed''
         else first_including processingDetails
                [(''extracting'', ''extracting''), (''extraction'', ''extracting''),
                 (''processing'', ''processing''), (''sending'', ''sending''),
                 (''preparing'', ''preparing'')]
                ''initializing'')"

text \<open>
  The loop over the step indicators, after \<open>active\<close> was removed from each: the flag
  \<open>activateRest\<close> is set once the current phase was met.
\<close>

fun activate :: "string \<Rightarrow> bool \<Rightarrow> (string \<times> string list) list \<Rightarrow> (string \<times> string list) list" where
  "activate currentPhase activateRest [] = []"
| "activate currentPhase activateRest ((phase, cl) # rest) =
     (if phase = currentPhase then (phase, classList_add ''active'' cl) # activate currentPhase True rest
      else if activateRest then (phase, cl) # activate currentPhase activateRest rest
      else (phase, classList_add ''active'' cl) # activate currentPhase activateRest rest)"

definition updateProcessingPhase :: "jsval \<Rightarrow> status_updater \<Rightarrow> js_error + status_updater" where
  "updateProcessingPhase data s =
     (case su_currentPhase data of
        Inl e \<Rightarrow> Inl e
      | Inr currentPhase \<Rightarrow>
          Inr (s\<lparr>su_stepIndicators :=
                   activate currentPhase False
                     (map (\<lambda>(phase, cl). (phase, classList_remove [''active''] cl))
                        (su_stepIndicators s))\<rparr>))"

definition checkForErrors :: "jsval \<Rightarrow> status_updater \<Rightarrow> status_updater" where
  "checkForErrors data s =
     s\<lparr>su_processingError :=
         map_option
           (\<lambda>(txt, disp).
              if truthy (field data ''error'') \<or> field data ''status'' = JStr ''error''
                 \<or> field data ''status'' = JStr ''failed''
              then (js_string (js_or (field data ''error'')
                                 (JStr ''An error occurred during processing'')), ''block'')
              else (txt, ''none''))
           (su_processingError s)\<rparr>"

definition displayError :: "string \<Rightarrow> status_updater \<Rightarrow> status_updater" where
  "displayError msg s = s\<lparr>su_processingError := map_option (\<lambda>_. (msg, ''block'')) (su_processingError s)\<rparr>"

text \<open>
  \<open>updateStatus\<close> returns the exception it ends with, if any, next to the state: what was
  written before the exception stays written.
\<close>

definition updateStatus :: "jsval \<Rightarrow> status_updater \<Rightarrow> js_error option \<times> status_updater" where
  "updateStatus data s =
     (let s0 = s\<lparr>su_lastStatus := data\<rparr> in
      if nullish data then
        (Some (TypeError ''Cannot read properties of null (reading 'job')''), s0)
      else
        let statusData = js_or (field data ''job'') data;
            s1 = updateStatusBadge statusData (updateProgressBar statusData s0)
        in case updateProcessingPhase statusData s1 of
             Inl e \<Rightarrow> (Some e, s1)
           | Inr s2 \<Rightarrow> (None, checkForErrors statusData s2))"

definition initialStatus :: jsval where
  "initialStatus =
     JObj [(''status'', JStr ''initializing''), (''progress_percent'', JNum 0),
           (''processed_count'', JNum 0), (''total_count'', JNum 0),
           (''processing_details'', JStr ''Initializing job...'')]"

definition startPolling :: "string \<Rightarrow> status_updater \<Rightarrow> status_updater" where
  "startPolling jid s =
     (if jid = [] then s
      else
        let s1 = (stopPolling s)\<lparr>currentJobId := Some jid, retryCount := 0\<rparr>
        in su_pollStatus (snd (updateStatus initialStatus s1)))"

text \<open>The handlers of \<open>pollStatus\<close>; the back-off delay of its \<open>catch\<close> handler.\<close>

definition backoffTime :: "nat \<Rightarrow> nat \<Rightarrow> nat" where
  "backoffTime interval retries = min 30000 (interval * 2 ^ retries)"

definition su_catch :: "js_error \<Rightarrow> status_updater \<Rightarrow> status_updater" where
  "su_catch e s =
     (let s1 = s\<lparr>retryCount := Suc (retryCount s)\<rparr> in
      if retryCount s1 \<ge> su_maxRetries s1 then
        displayError ''Failed to connect to server. Please refresh the page to try again.'' s1
      else
        let (t, s2) = setTimeout (backoffTime (su_pollInterval s1) (retryCount s1)) s1
        in s2\<lparr>pollTimer := Some t\<rparr>)"

definition su_then :: "jsval \<Rightarrow> status_updater \<Rightarrow> status_updater" where
  "su_then data s =
     (let (thrown, s1) = updateStatus data (s\<lparr>retryCount := 0\<rparr>) in
      case thrown of
        Some e \<Rightarrow> su_catch e s1
      | None \<Rightarrow>
          (case shouldContinuePolling data of
             Inl e \<Rightarrow> su_catch e s1
           | Inr continue \<Rightarrow> if continue then schedulePoll s1 else s1))"

definition su_settle :: "response \<Rightarrow> status_updater \<Rightarrow> status_updater" where
  "su_settle r s =
     (case r of
        Rejected e \<Rightarrow> su_catch e s
      | Http st b \<Rightarrow>
          if \<not> ok st then su_catch (Error (''HTTP error '' @ digits st)) s
          else (case b of
                  BadJson m \<Rightarrow> su_catch (SyntaxError m) s
                | Json data \<Rightarrow> su_then data s))"

text \<open>A fetch failure: the request is rejected, or the response is not 2xx.\<close>

fun fetch_failure :: "response \<Rightarrow> bool" where
  "fetch_failure (Rejected e) = True"
| "fetch_failure (Http st b) = (\<not> ok st)"

datatype su_call = StartPolling string | StopPolling

text \<open>One step of the event loop: a one-shot timer leaves the armed timers when it fires.\<close>

fun su_step :: "status_updater \<Rightarrow> su_call event \<Rightarrow> status_updater" where
  "su_step s (Call (StartPolling jid)) = startPolling jid s"
| "su_step s (Call StopPolling) = stopPolling s"
| "su_step s (TimerFires t) =
     (if t \<in> fst ` set (timeouts s)
      then su_pollStatus (s\<lparr>timeouts := filter (\<lambda>p. fst p \<noteq> t) (timeouts s)\<rparr>) else s)"
| "su_step s (FetchSettles i r) =
     (if i < length (in_flight s) then su_settle r (settled i s) else s)"

definition su_run :: "status_updater \<Rightarrow> su_call event list \<Rightarrow> status_updater" where
  "su_run s evs = foldl su_step s evs"

text \<open>
  The events of \<open>n\<close> consecutive fetch failures after \<open>startPolling(jid)\<close> on a new
  instance: each request settles with the failure \<open>r\<close>, and the timer armed by the failure
  before it (the \<open>n\<close>-th timer of the page) fires in between.
\<close>

fun su_failures :: "response \<Rightarrow> string \<Rightarrow> nat \<Rightarrow> su_call event list" where
  "su_failures r jid 0 = [Call (StartPolling jid)]"
| "su_failures r jid (Suc n) =
     su_failures r jid n @ (if n = 0 then [] else [TimerFires n]) @ [FetchSettles 0 r]"

text \<open>
  The same for JobProgress, whose repeating timer is the first timer of its page: the
  timer fires between two failures.
\<close>

fun jp_failures :: "response \<Rightarrow> nat \<Rightarrow> jp_call event list" where
  "jp_failures r 0 = [Call StartTracking]"
| "jp_failures r (Suc n) =
     jp_failures r n @ (if n = 0 then [] else [TimerFires 1]) @ [FetchSettles 0 r]"

definition jp_polling :: "nat \<Rightarrow> nat \<Rightarrow> job_progress \<Rightarrow> bool" where
  "jp_polling ms n s =
     (pollInterval s = ms \<and> isActive s \<and> timer s = Some 1 \<and> intervals s = [(1, ms)]
      \<and> timeouts s = [] \<and> pollCount s = n \<and> fetches s = n)"

text \<open>
  An event that is a call from the page, as opposed to a timer or a response; and the
  states of a StatusUpdater in which at most one request or one timer is pending.
\<close>

fun from_page :: "'c event \<Rightarrow> bool" where
  "from_page (Call c) = True"
| "from_page (TimerFires t) = False"
| "from_page (FetchSettles i r) = False"

definition su_serial :: "status_updater \<Rightarrow> bool" where
  "su_serial s = (intervals s = [] \<and> length (in_flight s) + length (timeouts s) \<le> 1)"

text \<open>
  The two kinds of state a run of consecutive failures passes through: a request is in
  flight after \<open>n\<close> failures, or the retry timer of the \<open>n\<close>-th failure is armed.
\<close>

definition su_awaiting :: "nat \<Rightarrow> nat \<Rightarrow> string \<Rightarrow> nat \<Rightarrow> status_updater \<Rightarrow> bool" where
  "su_awaiting ms maxr jid n s =
     (su_pollInterval s = ms \<and> su_maxRetries s = maxr \<and> currentJobId s = Some jid \<and> jid \<noteq> []
      \<and> retryCount s = n \<and> intervals s = [] \<and> timeouts s = [] \<and> length (in_flight s) = 1
      \<and> fetches s = Suc n \<and> next_timer s = Suc n)"

definition su_backing_off :: "nat \<Rightarrow> nat \<Rightarrow> string \<Rightarrow> nat \<Rightarrow> status_updater \<Rightarrow> bool" where
  "su_backing_off ms maxr jid n s =
     (su_pollInterval s = ms \<and> su_maxRetries s = maxr \<and> currentJobId s = Some jid \<and> jid \<noteq> []
      \<and> retryCount s = n \<and> intervals s = [] \<and> timeouts s = [(n, backoffTime ms n)]
      \<and> in_flight s = [] \<and> fetches s = n \<and> next_timer s = Suc n)"

text \<open>Payloads of a failed job, with and without its error text, and of a cancelled job.\<close>

definition failed_with_error :: jsval where
  "failed_with_error = JObj [(''status'', JStr ''failed''), (''error'', JStr ''boom'')]"

definition failed_without_error :: jsval where
  "failed_without_error = JObj [(''status'', JStr ''failed'')]"

definition cancelled_job :: jsval where
  "cancelled_job = JObj [(''status'', JStr ''cancelled'')]"

section \<open>JobStatusBanner (job-status-banner.js)\<close>

text \<open>\<open>s.split(sep)\<close> for a separator that is not empty.\<close>

function splitOn :: "string \<Rightarrow> string \<Rightarrow> string \<Rightarrow> string list" where
  "splitOn sep cur [] = [cur]"
| "splitOn sep cur (c # cs) =
     (if sep \<noteq> [] \<and> startsWith (c # cs) sep
      then cur # splitOn sep [] (drop (length sep) (c # cs))
      else splitOn sep (cur @ [c]) cs)"
  by pat_completeness auto
termination
  by (relation "measure (\<lambda>(sep, cur, s). length s)") auto

definition split :: "string \<Rightarrow> string \<Rightarrow> string list" where
  "split s sep = splitOn sep [] s"

text \<open>
  The banner's own record of the job it shows, what \<open>localStorage.getItem\<close> can return
  (nothing, a string that \<open>JSON.parse\<close> rejects, or a string that parses), and the
  requests of the class, named by the method that issues them.
\<close>

record active_banner =
  ab_jobId :: jsval
  ab_status :: jsval
  ab_progress :: jsval
  ab_completedTime :: "int option"

datatype storage_item = NoItem | Unparsable string | Item jsval

datatype jb_request =
    ActiveJobs string
  | JobStatus string
  | Cancel string "(string \<times> jsval) list"

text \<open>
  The options, the fields of the class, the parts of the banner element that the claims
  are about (its class list, the badge with its text and class name, the width of the
  progress bar and the progress text), and the environment: the stored item, the clock,
  \<open>new Date(v).getTime()\<close> as a function (\<open>None\<close> for an invalid date), the job whose banner
  each armed one-shot timer hides, what was passed to \<open>console.error\<close>, and the cookie and
  meta tag of the document (for the tag: whether it exists, and its \<open>content\<close> if it has one).
\<close>

record job_status_banner = "jb_request browser" +
  jb_pollInterval :: nat
  checkEndpoint :: string
  showCompletedDuration :: nat
  persistInStorage :: bool
  maxTrackedJobs :: nat
  jb_pollTimer :: "nat option"
  initialized :: bool
  activeBanner :: "active_banner option"
  trackedJobs :: "jsval list"
  banner_classes :: "string list"
  banner_badge :: "string \<times> string"
  banner_progress :: "string \<times> string"
  localStorage :: storage_item
  clock :: int
  Date_getTime :: "jsval \<Rightarrow> int option"
  hide_timers :: "(nat \<times> jsval) list"
  console_errors :: "js_error list"
  cookie :: string
  meta_csrf :: "string option option"

text \<open>
  \<open>saveToStorage\<close>: the tracked jobs and a time stamp, kept here as the clock value.
\<close>

definition saveToStorage :: "job_status_banner \<Rightarrow> job_status_banner" where
  "saveToStorage s =
     s\<lparr>localStorage :=
         Item (JObj [(''trackedJobs'', JArr (trackedJobs s)), (''lastUpdated'', JNum (clock s))])\<rparr>"

text \<open>
  \<open>loadFromStorage\<close>. The whole body is one \<open>try\<close> block whose handler empties the list:
  a stored string that does not parse, a stored \<open>null\<close>, and a \<open>null\<close> among the stored
  jobs all end there. A completed job is kept when it has no completion time or the time
  is within the last hour.
\<close>

definition recently_completed :: "job_status_banner \<Rightarrow> jsval \<Rightarrow> bool" where
  "recently_completed s job =
     (if field job ''status'' \<noteq> JStr ''completed'' then True
      else if \<not> truthy (field job ''completed_at'') then True
      else (case Date_getTime s (field job ''completed_at'') of
              None \<Rightarrow> False
            | Some completedAt \<Rightarrow> completedAt > clock s - 60 * 60 * 1000))"

definition loadFromStorage :: "job_status_banner \<Rightarrow> job_status_banner" where
  "loadFromStorage s =
     (case localStorage s of
        NoItem \<Rightarrow> s
      | Unparsable m \<Rightarrow> s\<lparr>trackedJobs := [], console_errors := console_errors s @ [SyntaxError m]\<rparr>
      | Item data \<Rightarrow>
          if nullish data then
            s\<lparr>trackedJobs := [],
              console_errors := console_errors s
                @ [TypeError ''Cannot read properties of null (reading 'trackedJobs')'']\<rparr>
          else (case field data ''trackedJobs'' of
                  JArr jobs \<Rightarrow>
                    if \<exists>job \<in> set jobs. nullish job then
                      s\<lparr>trackedJobs := [],
                        console_errors := console_errors s
                          @ [TypeError ''Cannot read properties of null (reading 'status')'']\<rparr>
                    else s\<lparr>trackedJobs := filter (recently_completed s) jobs\<rparr>
                | _ \<Rightarrow> s))"


definition spread :: "jsval \<Rightarrow> jsval \<Rightarrow> jsval" where
  "spread old new =
     (case (old, new) of
        (JObj a, JObj b) \<Rightarrow> JObj (b @ a)
      | (_, JObj b) \<Rightarrow> JObj b
      | (JObj a, _) \<Rightarrow> JObj a
      | _ \<Rightarrow> JObj [])"

fun findIndex :: "('a \<Rightarrow> bool) \<Rightarrow> 'a list \<Rightarrow> nat option" where
  "findIndex P [] = None"
| "findIndex P (x # xs) = (if P x then Some 0 else map_option Suc (findIndex P xs))"

definition trackJob :: "jsval \<Rightarrow> job_status_banner \<Rightarrow> job_status_banner" where
  "trackJob jobData s =
     (if \<not> truthy jobData \<or> \<not> truthy (field jobData ''id'') then s
      else
        let s1 = (case findIndex (\<lambda>job. field job ''id'' = field jobData ''id'') (trackedJobs s) of
                    Some existingIndex \<Rightarrow>
                      s\<lparr>trackedJobs :=
                          (trackedJobs s)[existingIndex :=
                             spread (trackedJobs s ! existingIndex) jobData]\<rparr>
                  | None \<Rightarrow>
                      let jobs = jobData # trackedJobs s
                      in s\<lparr>trackedJobs :=
                            (if length jobs > maxTrackedJobs s then take (maxTrackedJobs s) jobs
                             else jobs)\<rparr>)
        in if persistInStorage s1 then saveToStorage s1 else s1)"

text \<open>The three status tables of the banner; each lower-cases a status that is a string.\<close>

definition formatStatus :: "jsval \<Rightarrow> js_error + string" where
  "formatStatus status =
     (if \<not> truthy status then Inr ''Unknown''
      else (case status of
              JStr st \<Rightarrow>
                Inr (let l = toLowerCase st in
                     if l = ''running'' then ''Running''
                     else if l = ''waiting'' then ''Waiting''
                     else if l = ''processing'' then ''Processing''
                     else if l = ''completed'' then ''Completed''
                     else if l = ''error'' \<or> l = ''failed'' then ''Error''
                     else if l = ''cancelled'' then ''Cancelled''
                     else capitalize st)
            | _ \<Rightarrow> Inl (TypeError ''status.toLowerCase is not a function'')))"

definition getStatusClass :: "jsval \<Rightarrow> js_error + string" where
  "getStatusClass status =
     (if \<not> truthy status then Inr ''bg-secondary''
      else (case status of
              JStr st \<Rightarrow>
                Inr (let l = toLowerCase st in
                     if l = ''running'' \<or> l = ''processing'' then ''bg-primary''
                     else if l = ''waiting'' then ''bg-info''
                     else if l = ''completed'' then ''bg-success''
                     else if l = ''error'' \<or> l = ''failed'' then ''bg-danger''
                     else if l = ''cancelled'' then ''bg-secondary''
                     else if l = ''warning'' then ''bg-warning''
                     else ''bg-secondary'')
            | _ \<Rightarrow> Inl (TypeError ''status.toLowerCase is not a function'')))"

definition getStatusStateClass :: "jsval \<Rightarrow> js_error + string" where
  "getStatusStateClass status =
     (if \<not> truthy status then Inr ''status-running''
      else (case status of
              JStr st \<Rightarrow>
                Inr (let l = toLowerCase st in
                     if l = ''running'' \<or> l = ''processing'' \<or> l = ''waiting'' then ''status-running''
                     else if l = ''completed'' then ''status-completed''
                     else if l = ''error'' \<or> l = ''failed'' then ''status-error''
                     else if l = ''warning'' \<or> l = ''cancelled'' then ''status-warning''
                     else ''status-running'')
            | _ \<Rightarrow> Inl (TypeError ''status.toLowerCase is not a function'')))"

definition showBanner :: "job_status_banner \<Rightarrow> job_status_banner" where
  "showBanner s = s\<lparr>banner_classes := classList_add ''active'' (banner_classes s)\<rparr>"

definition hideBanner :: "job_status_banner \<Rightarrow> job_status_banner" where
  "hideBanner s =
     s\<lparr>banner_classes := classList_remove [''active''] (banner_classes s), activeBanner := None\<rparr>"

text \<open>
  \<open>updateBanner\<close>, in the order of its statements: the job is tracked; the banner's
  record is created or updated; a job first seen as completed gets its completion time
  and a one-shot timer that hides it; then the banner element is written and shown. The
  function returns the exception it ends with, if any, next to the state: the first
  statement that can throw is \<open>formatStatus\<close> on a status that is not a string, after the
  record and the timer. The title, the details, the link and the job time are left out of
  the model.
\<close>

definition banner_record :: "jsval \<Rightarrow> jsval \<Rightarrow> jsval \<Rightarrow> active_banner option \<Rightarrow> active_banner" where
  "banner_record jid status progress current =
     (case current of
        None \<Rightarrow> \<lparr>ab_jobId = jid, ab_status = status, ab_progress = progress, ab_completedTime = None\<rparr>
      | Some old \<Rightarrow>
          if ab_jobId old \<noteq> jid
          then \<lparr>ab_jobId = jid, ab_status = status, ab_progress = progress, ab_completedTime = None\<rparr>
          else old\<lparr>ab_status := status, ab_progress := progress\<rparr>)"

definition track_completion :: "jsval \<Rightarrow> active_banner \<Rightarrow> job_status_banner \<Rightarrow> job_status_banner" where
  "track_completion jid ab s =
     (if ab_status ab = JStr ''completed'' \<and> ab_completedTime ab = None then
        let (t, s1) = setTimeout (showCompletedDuration s)
                        (s\<lparr>activeBanner := Some (ab\<lparr>ab_completedTime := Some (clock s)\<rparr>)\<rparr>)
        in s1\<lparr>hide_timers := hide_timers s1 @ [(t, jid)]\<rparr>
      else s\<lparr>activeBanner := Some ab\<rparr>)"

definition write_banner :: "jsval \<Rightarrow> jsval \<Rightarrow> job_status_banner \<Rightarrow> js_error option \<times> job_status_banner" where
  "write_banner status progress s =
     (case (formatStatus status, getStatusClass status, getStatusStateClass status) of
        (Inr txt, Inr cls, Inr stateClass) \<Rightarrow>
          let cl = classList_add stateClass
                     (classList_remove
                        [''status-running'', ''status-completed'', ''status-error'', ''status-warning'']
                        (banner_classes s));
              s1 = showBanner
                     (s\<lparr>banner_badge := (txt, ''status-badge '' @ cls),
                        banner_classes := cl,
                        banner_progress :=
                          (set_width (js_string progress @ ''%'') (fst (banner_progress s)),
                           js_string progress @ ''%'')\<rparr>)
          in (None,
              s1\<lparr>banner_classes :=
                   (if status = JStr ''running'' \<or> status = JStr ''waiting''
                       \<or> status = JStr ''processing''
                    then classList_add ''pulse'' (banner_classes s1)
                    else classList_remove [''pulse''] (banner_classes s1))\<rparr>)
      | _ \<Rightarrow> (Some (TypeError ''status.toLowerCase is not a function''), s))"

definition updateBanner :: "jsval \<Rightarrow> job_status_banner \<Rightarrow> js_error option \<times> job_status_banner" where
  "updateBanner jobData s =
     (if \<not> truthy jobData \<or> \<not> truthy (field jobData ''id'') then (None, s)
      else
        let s1 = trackJob jobData s;
            status = js_or (field jobData ''status'') (JStr ''unknown'');
            progress = js_or (field jobData ''progress_percent'') (JNum 0);
            ab = banner_record (field jobData ''id'') status progress (activeBanner s1)
        in write_banner status progress (track_completion (field jobData ''id'') ab s1))"

text \<open>\<open>fetchJobStatus\<close> and its handlers.\<close>

definition jb_statusUrl :: "job_status_banner \<Rightarrow> jsval \<Rightarrow> string" where
  "jb_statusUrl s jid =
     (let baseUrl = (if checkEndpoint s \<noteq> [] \<and> last (checkEndpoint s) = CHR ''/''
                     then butlast (checkEndpoint s) else checkEndpoint s)
      in baseUrl @ ''/?job_id='' @ js_string jid)"

definition fetchJobStatus :: "jsval \<Rightarrow> job_status_banner \<Rightarrow> job_status_banner" where
  "fetchJobStatus jid s = (if \<not> truthy jid then s else fetch (JobStatus (jb_statusUrl s jid)) s)"

definition jb_error :: "js_error \<Rightarrow> job_status_banner \<Rightarrow> job_status_banner" where
  "jb_error e s = s\<lparr>console_errors := console_errors s @ [e]\<rparr>"

definition jobStatus_settle :: "response \<Rightarrow> job_status_banner \<Rightarrow> job_status_banner" where
  "jobStatus_settle r s =
     (case r of
        Rejected e \<Rightarrow> jb_error e s
      | Http st b \<Rightarrow>
          if \<not> ok st then jb_error (Error (''HTTP error '' @ digits st)) s
          else (case b of
                  BadJson m \<Rightarrow> jb_error (SyntaxError m) s
                | Json data \<Rightarrow>
                    if truthy data \<and> truthy (field data ''status'') then
                      (case updateBanner data s of
                         (None, s1) \<Rightarrow> s1
                       | (Some e, s1) \<Rightarrow> jb_error e s1)
                    else jb_error (Error ''No job data returned for ID:'') s))"

text \<open>
  \<open>fetchActiveJobs\<close> and its handlers. A response with status 302 or 401 is replaced by
  \<open>{active_jobs: []}\<close> before anything else looks at it.
\<close>

definition fetchActiveJobs :: "job_status_banner \<Rightarrow> job_status_banner" where
  "fetchActiveJobs s = fetch (ActiveJobs (checkEndpoint s)) s"

definition activeJobs_then :: "jsval \<Rightarrow> job_status_banner \<Rightarrow> job_status_banner" where
  "activeJobs_then data s =
     (case (if truthy data then field data ''active_jobs'' else Undefined) of
        JArr (mostRecentJob # others) \<Rightarrow>
          let s1 = foldl (\<lambda>s' job. if truthy job \<and> truthy (field job ''id'') then trackJob job s' else s')
                     s (mostRecentJob # others)
          in if truthy mostRecentJob \<and> truthy (field mostRecentJob ''id'')
             then fetchJobStatus (field mostRecentJob ''id'') s1 else s1
      | _ \<Rightarrow> (case activeBanner s of None \<Rightarrow> s | Some _ \<Rightarrow> hideBanner s))"

definition activeJobs_settle :: "response \<Rightarrow> job_status_banner \<Rightarrow> job_status_banner" where
  "activeJobs_settle r s =
     (case r of
        Rejected e \<Rightarrow> jb_error e s
      | Http st b \<Rightarrow>
          if st = 302 \<or> st = 401 then activeJobs_then (JObj [(''active_jobs'', JArr [])]) s
          else if \<not> ok st then jb_error (Error (''HTTP error '' @ digits st)) s
          else (case b of
                  BadJson m \<Rightarrow> jb_error (SyntaxError m) s
                | Json data \<Rightarrow> activeJobs_then data s))"

definition checkActiveJobs :: "job_status_banner \<Rightarrow> job_status_banner" where
  "checkActiveJobs s =
     (case trackedJobs s of
        mostRecentJob # _ \<Rightarrow>
          (case activeBanner s of
             None \<Rightarrow> fetchJobStatus (field mostRecentJob ''id'') s
           | Some ab \<Rightarrow>
               if ab_jobId ab \<noteq> field mostRecentJob ''id''
               then fetchJobStatus (field mostRecentJob ''id'') s
               else fetchJobStatus (ab_jobId ab) s)
      | [] \<Rightarrow> fetchActiveJobs s)"

definition jb_startPolling :: "job_status_banner \<Rightarrow> job_status_banner" where
  "jb_startPolling s =
     (let s1 = (case jb_pollTimer s of None \<Rightarrow> s | Some t \<Rightarrow> clearTimer t s);
          (t, s2) = setInterval (jb_pollInterval s1) s1
      in s2\<lparr>jb_pollTimer := Some t\<rparr>)"

definition jb_stopPolling :: "job_status_banner \<Rightarrow> job_status_banner" where
  "jb_stopPolling s =
     (case jb_pollTimer s of None \<Rightarrow> s | Some t \<Rightarrow> (clearTimer t s)\<lparr>jb_pollTimer := None\<rparr>)"

text \<open>\<open>init\<close>, on a page that does not disable the banner.\<close>

definition init :: "job_status_banner \<Rightarrow> job_status_banner" where
  "init s = (if initialized s then s else checkActiveJobs ((jb_startPolling s)\<lparr>initialized := True\<rparr>))"

text \<open>
  The constructor, called when the document is ready: the options (with their defaults
  where the caller gives none), the empty fields, the stored jobs, and \<open>init\<close> unless the
  page disables the banner.
\<close>

definition JobStatusBanner ::
  "nat \<Rightarrow> string \<Rightarrow> nat \<Rightarrow> bool \<Rightarrow> nat \<Rightarrow> bool \<Rightarrow> storage_item \<Rightarrow> int \<Rightarrow> (jsval \<Rightarrow> int option) \<Rightarrow>
   string \<Rightarrow> string option option \<Rightarrow> job_status_banner" where
  "JobStatusBanner ms endpoint duration persist maxJobs disabled stored now getTime ck meta =
     (let s = \<lparr>intervals = [], timeouts = [], next_timer = 1, in_flight = [], fetches = 0,
               jb_pollInterval = ms, checkEndpoint = endpoint, showCompletedDuration = duration,
               persistInStorage = persist, maxTrackedJobs = maxJobs, jb_pollTimer = None,
               initialized = False, activeBanner = None, trackedJobs = [],
               banner_classes = [''job-status-banner''],
               banner_badge = (''Initializing'', ''status-badge bg-info''),
               banner_progress = (''0%'', ''0%''),
               localStorage = stored, clock = now, Date_getTime = getTime, hide_timers = [],
               console_errors = [], cookie = ck, meta_csrf = meta\<rparr>;
          s1 = (if persist then loadFromStorage s else s)
      in if disabled then s1 else init s1)"

text \<open>
  \<open>getCsrfToken\<close>: the cookie first, then the meta tag, then the empty string. The page
  has no meta tag (\<open>None\<close>), one without a \<open>content\<close> attribute, for which \<open>getAttribute\<close>
  gives \<open>null\<close>, or one with its content.
\<close>

definition meta_content :: "string option option \<Rightarrow> jsval" where
  "meta_content meta =
     (case meta of None \<Rightarrow> JStr [] | Some None \<Rightarrow> Null | Some (Some content) \<Rightarrow> JStr content)"

definition getCsrfToken :: "string \<Rightarrow> string option option \<Rightarrow> jsval" where
  "getCsrfToken ck meta =
     (let cookieValue =
            (case find (\<lambda>row. startsWith row ''csrftoken='') (split ck ''; '') of
               None \<Rightarrow> None
             | Some row \<Rightarrow> (case split row ''='' of _ # v # _ \<Rightarrow> Some v | _ \<Rightarrow> None))
      in case cookieValue of
           Some v \<Rightarrow> if v \<noteq> [] then JStr v else meta_content meta
         | None \<Rightarrow> meta_content meta)"

text \<open>\<open>cancelJob\<close>, with the answer to its confirmation dialog.\<close>

definition cancelJob :: "jsval \<Rightarrow> bool \<Rightarrow> job_status_banner \<Rightarrow> job_status_banner" where
  "cancelJob jid confirmed s =
     (if \<not> truthy jid \<or> \<not> confirmed then s
      else fetch (Cancel (checkEndpoint s @ js_string jid @ ''/cancel/'')
                   [(''Content-Type'', JStr ''application/json''),
                    (''X-CSRFToken'', getCsrfToken (cookie s) (meta_csrf s))]) s)"

definition cancel_settle :: "response \<Rightarrow> job_status_banner \<Rightarrow> job_status_banner" where
  "cancel_settle r s =
     (case r of
        Rejected e \<Rightarrow> jb_error e s
      | Http st b \<Rightarrow>
          (case b of
             BadJson m \<Rightarrow> jb_error (SyntaxError m) s
           | Json data \<Rightarrow>
               if nullish data then
                 jb_error (TypeError ''Cannot read properties of null (reading 'success')'') s
               else if truthy (field data ''success'') then checkActiveJobs s
               else jb_error (Error ''Failed to cancel job:'') s))"

text \<open>
  One step of the event loop for the banner. The repeating timer runs \<open>checkActiveJobs\<close>;
  a one-shot timer hides the banner if it still shows the job the timer was armed for.
\<close>

datatype jb_call = CancelJob jsval bool | HideBanner

fun jb_step :: "job_status_banner \<Rightarrow> jb_call event \<Rightarrow> job_status_banner" where
  "jb_step s (Call (CancelJob jid confirmed)) = cancelJob jid confirmed s"
| "jb_step s (Call HideBanner) = hideBanner s"
| "jb_step s (TimerFires t) =
     (if t \<in> fst ` set (intervals s) then checkActiveJobs s
      else if t \<in> fst ` set (timeouts s) then
        (let s1 = s\<lparr>timeouts := filter (\<lambda>p. fst p \<noteq> t) (timeouts s)\<rparr>
         in case (map_of (hide_timers s1) t, activeBanner s1) of
              (Some jid, Some ab) \<Rightarrow> if ab_jobId ab = jid then hideBanner s1 else s1
            | _ \<Rightarrow> s1)
      else s)"
| "jb_step s (FetchSettles i r) =
     (if i < length (in_flight s) then
        (case in_flight s ! i of
           ActiveJobs _ \<Rightarrow> activeJobs_settle r (settled i s)
         | JobStatus _ \<Rightarrow> jobStatus_settle r (settled i s)
         | Cancel _ _ \<Rightarrow> cancel_settle r (settled i s))
      else s)"

definition jb_run :: "job_status_banner \<Rightarrow> jb_call event list \<Rightarrow> job_status_banner" where
  "jb_run s evs = foldl jb_step s evs"

text \<open>
  What no event changes, the options of the banner and its repeating timer; the bound on
  the tracked jobs; and the banner being shown only while it has a job.
\<close>

definition jb_fixed ::
  "job_status_banner \<Rightarrow> (nat \<times> nat) list \<times> nat option \<times> nat \<times> string \<times> nat \<times> bool \<times> nat" where
  "jb_fixed s =
     (intervals s, jb_pollTimer s, jb_pollInterval s, checkEndpoint s, showCompletedDuration s,
      persistInStorage s, maxTrackedJobs s)"

definition jb_bounded :: "job_status_banner \<Rightarrow> bool" where
  "jb_bounded s = (length (trackedJobs s) \<le> maxTrackedJobs s)"

definition jb_shown_has_job :: "job_status_banner \<Rightarrow> bool" where
  "jb_shown_has_job s = (''active'' \<in> set (banner_classes s) \<longrightarrow> activeBanner s \<noteq> None)"

section \<open>The column editor (column-definition.js)\<close>

text \<open>
  What the mutating functions read from the document: the cookie, the meta tag, and the
  hidden form input named \<open>csrfmiddlewaretoken\<close> (\<open>None\<close> when the page has none). A
  request is kept with its method, its address and its headers; \<open>window.apiUrls\<close>, which the
  template sets, is taken as absent, the column form and the prompt field are taken as
  present, and the body is left out.
\<close>

record page =
  pg_cookie :: string
  pg_meta_csrf :: "string option option"
  csrfmiddlewaretoken :: "string option"












section \<open>Examples\<close>

text \<open>The banner as box-theme.js constructs it, on a page with nothing stored.\<close>

definition jb_example :: job_status_banner where
  "jb_example =
     JobStatusBanner 5000 ''/check-job-status/'' 10000 True 5 False NoItem 0 (\<lambda>v. None)
       ''csrftoken=abc'' None"




text \<open>The clamp of the specification, for comparison with what the renderers write.\<close>

definition clamp :: "int \<Rightarrow> int \<Rightarrow> int \<Rightarrow> int" where
  "clamp x lo hi = max lo (min hi x)"

text \<open>Payloads whose progress is outside of 0..100.\<close>

definition over_payload :: jsval where
  "over_payload =
     JObj [(''id'', JNum 7), (''status'', JStr ''processing''), (''progress_percent'', JNum 150)]"

definition under_payload :: jsval where
  "under_payload =
     JObj [(''id'', JNum 7), (''status'', JStr ''processing''), (''progress_percent'', JNum (- 20))]"

text \<open>
  The lookup table of the specification, status to badge text and colour class, for
  comparison with the tables of the code.
\<close>

definition spec_badge :: "string \<Rightarrow> string \<times> string" where
  "spec_badge st =
     (if st = ''pending'' then (''Pending'', ''warning'')
      else if st = ''in_progress'' \<or> st = ''processing'' then (''Processing'', ''primary'')
      else if st = ''waiting'' then (''Waiting'', ''info'')
      else if st = ''extracting'' then (''Extracting'', ''info'')
      else if st = ''completed'' then (''Completed'', ''success'')
      else if st = ''error'' \<or> st = ''failed'' then (''Error'', ''danger'')
      else if st = ''cancelled'' then (''Cancelled'', ''secondary'')
      else (capitalize st, ''secondary''))"

section \<open>Verified properties\<close>

subsection \<open>JobProgress: one timer per instance\<close>

lemma jp_pollStatus_keeps [simp]:
  "intervals (jp_pollStatus s) = intervals s" "timeouts (jp_pollStatus s) = timeouts s"
  "timer (jp_pollStatus s) = timer s" "isActive (jp_pollStatus s) = isActive s"
  "pollInterval (jp_pollStatus s) = pollInterval s"
  by (simp_all add: jp_pollStatus_def fetch_def)

lemma jp_inv_pollStatus: "jp_inv s \<Longrightarrow> jp_inv (jp_pollStatus s)"
  by (simp add: jp_inv_def split: option.splits)

lemma jp_inv_start: "jp_inv s \<Longrightarrow> jp_inv (startTracking s)"
  by (auto simp: jp_inv_def startTracking_def setInterval_def Let_def split: option.splits)

lemma jp_inv_stop: "jp_inv s \<Longrightarrow> jp_inv (stopTracking s)"
  by (auto simp: jp_inv_def stopTracking_def clearTimer_def Let_def split: option.splits)

lemma jp_inv_upd [simp]:
  "jp_inv (s\<lparr>el_status := a\<rparr>) = jp_inv s"
  "jp_inv (s\<lparr>onError_calls := b\<rparr>) = jp_inv s"
  "jp_inv (s\<lparr>onUpdate_calls := c\<rparr>) = jp_inv s"
  "jp_inv (s\<lparr>onComplete_calls := d\<rparr>) = jp_inv s"
  "jp_inv (s\<lparr>lastStatus := e\<rparr>) = jp_inv s"
  "jp_inv (s\<lparr>lastUpdated := f\<rparr>) = jp_inv s"
  "jp_inv (s\<lparr>in_flight := g\<rparr>) = jp_inv s"
  by (simp_all add: jp_inv_def split: option.splits)

lemma jp_inv_catch: "jp_inv s \<Longrightarrow> jp_inv (jp_catch e s)"
  by (simp add: jp_catch_def Let_def jp_inv_stop)

lemma updateDisplay_keeps [simp]:
  "intervals (updateDisplay d s) = intervals s" "timeouts (updateDisplay d s) = timeouts s"
  "timer (updateDisplay d s) = timer s" "isActive (updateDisplay d s) = isActive s"
  "pollInterval (updateDisplay d s) = pollInterval s"
  by (simp_all add: updateDisplay_def updatePhaseDisplay_def Let_def split: option.splits sum.splits)

lemma jp_inv_updateDisplay [simp]: "jp_inv (updateDisplay d s) = jp_inv s"
  by (simp add: jp_inv_def split: option.splits)

lemma jp_inv_then: "jp_inv s \<Longrightarrow> jp_inv (jp_then d s)"
  by (simp add: jp_then_def Let_def jp_inv_stop jp_inv_catch)

lemma jp_inv_settle: "jp_inv s \<Longrightarrow> jp_inv (jp_settle r s)"
  by (simp add: jp_settle_def jp_inv_then jp_inv_catch split: response.splits body.splits)

lemma jp_inv_step: "jp_inv s \<Longrightarrow> jp_inv (jp_step s ev)"
proof (cases ev)
  case (Call c)
  then show "jp_inv s \<Longrightarrow> jp_inv (jp_step s ev)"
    by (cases c) (simp_all add: jp_inv_start jp_inv_stop)
next
  case (TimerFires t)
  then show "jp_inv s \<Longrightarrow> jp_inv (jp_step s ev)" by (simp add: jp_inv_pollStatus)
next
  case (FetchSettles i r)
  assume "jp_inv s"
  then have "jp_inv (settled i s)" by (simp add: settled_def)
  then show "jp_inv (jp_step s ev)" using FetchSettles \<open>jp_inv s\<close> by (simp add: jp_inv_settle)
qed

lemma jp_inv_run: "jp_inv s \<Longrightarrow> jp_inv (jp_run s evs)"
  unfolding jp_run_def by (induction evs arbitrary: s) (simp_all add: jp_inv_step)

lemma jp_inv_new: "JobProgress jid url ms bar st c ph = Inr s \<Longrightarrow> jp_inv s"
  by (auto simp: JobProgress_def jp_inv_def split: if_splits)

lemma jp_example_new:
  "JobProgress ''42'' ''/check-job-status/'' 3000
     (Some \<lparr>width = ''0%'', aria_valuenow = ''0'', classes = [''progress-bar'']\<rparr>)
     (Some []) True (\<lambda>n. Some []) = Inr jp_example"
  by (simp add: JobProgress_def jp_example_def)

text \<open>
  C10. For a JobProgress instance in any state it can reach from its construction (by
  calls of startTracking and stopTracking, timer firings and settling requests):
  stopTracking twice is stopTracking once, after stopTracking no timer is held or armed,
  startTracking on an active instance changes nothing (so it issues no fetch and arms no
  timer), and at most one timer is armed.
\<close>

theorem jp_tracking_idempotent:
  assumes "JobProgress jid url ms bar st c ph = Inr s0" and "s = jp_run s0 evs"
  shows "stopTracking (stopTracking s) = stopTracking s
     \<and> timer (stopTracking s) = None \<and> intervals (stopTracking s) = []
     \<and> timeouts (stopTracking s) = []
     \<and> (isActive s \<longrightarrow> startTracking s = s)
     \<and> length (intervals s) + length (timeouts s) \<le> 1"
proof -
  have inv: "jp_inv s" using assms by (simp add: jp_inv_new jp_inv_run)
  then have inv': "jp_inv (stopTracking s)" by (rule jp_inv_stop)
  have "stopTracking (stopTracking s) = stopTracking s"
    by (simp add: stopTracking_def Let_def)
  moreover have "\<not> isActive (stopTracking s)"
    by (simp add: stopTracking_def Let_def)
  with inv' have "timer (stopTracking s) = None \<and> intervals (stopTracking s) = []
     \<and> timeouts (stopTracking s) = []"
    by (auto simp: jp_inv_def)
  moreover have "isActive s \<longrightarrow> startTracking s = s"
    by (simp add: startTracking_def)
  moreover have "length (intervals s) + length (timeouts s) \<le> 1"
    using inv by (auto simp: jp_inv_def split: option.splits)
  ultimately show ?thesis by blast
qed
text \<open>The same on a page: tracking is started, the timer fires once, and the first request fails.\<close>

theorem jp_tracking_idempotent_witness:
  "isActive (jp_run jp_example [Call StartTracking, TimerFires 1, FetchSettles 0 (Http 500 (BadJson []))])
   \<and> startTracking (jp_run jp_example [Call StartTracking, TimerFires 1, FetchSettles 0 (Http 500 (BadJson []))])
       = jp_run jp_example [Call StartTracking, TimerFires 1, FetchSettles 0 (Http 500 (BadJson []))]
   \<and> timer (stopTracking (jp_run jp_example [Call StartTracking, TimerFires 1, FetchSettles 0 (Http 500 (BadJson []))])) = None
   \<and> length (intervals (jp_run jp_example [Call StartTracking, TimerFires 1, FetchSettles 0 (Http 500 (BadJson []))])) = 1"
proof -
  let ?s = "jp_run jp_example [Call StartTracking, TimerFires 1, FetchSettles 0 (Http 500 (BadJson []))]"
  have act: "isActive ?s"
    by (simp add: jp_run_def jp_example_def startTracking_def jp_pollStatus_def fetch_def
        setInterval_def settled_def jp_settle_def ok_def jp_catch_def Let_def)
  have len: "intervals ?s = [(1, 3000)]"
    by (simp add: jp_run_def jp_example_def startTracking_def jp_pollStatus_def fetch_def
        setInterval_def settled_def jp_settle_def ok_def jp_catch_def Let_def)
  from jp_tracking_idempotent [OF jp_example_new refl, of "[Call StartTracking, TimerFires 1, FetchSettles 0 (Http 500 (BadJson []))]"]
  show ?thesis using act len by simp
qed

subsection \<open>StatusUpdater: what the handlers change\<close>

lemma su_catch_keeps [simp]:
  "retryCount (su_catch e s) = Suc (retryCount s)"
  "su_pollInterval (su_catch e s) = su_pollInterval s"
  "su_maxRetries (su_catch e s) = su_maxRetries s"
  "currentJobId (su_catch e s) = currentJobId s"
  "su_statusEndpoint (su_catch e s) = su_statusEndpoint s"
  "in_flight (su_catch e s) = in_flight s"
  "fetches (su_catch e s) = fetches s"
  "intervals (su_catch e s) = intervals s"
  by (simp_all add: su_catch_def Let_def displayError_def setTimeout_def split: prod.splits)

lemma su_catch_timer:
  "timeouts (su_catch e s) =
     (if su_maxRetries s \<le> Suc (retryCount s) then timeouts s
      else timeouts s @ [(next_timer s, backoffTime (su_pollInterval s) (Suc (retryCount s)))])"
  "next_timer (su_catch e s) =
     (if su_maxRetries s \<le> Suc (retryCount s) then next_timer s else Suc (next_timer s))"
  "su_processingError (su_catch e s) =
     (if su_maxRetries s \<le> Suc (retryCount s)
      then map_option
             (\<lambda>_. (''Failed to connect to server. Please refresh the page to try again.'', ''block''))
             (su_processingError s)
      else su_processingError s)"
  by (simp_all add: su_catch_def Let_def displayError_def setTimeout_def split: prod.splits)

lemma updateStatus_keeps [simp]:
  "retryCount (snd (updateStatus d s)) = retryCount s"
  "su_pollInterval (snd (updateStatus d s)) = su_pollInterval s"
  "su_maxRetries (snd (updateStatus d s)) = su_maxRetries s"
  "currentJobId (snd (updateStatus d s)) = currentJobId s"
  "su_statusEndpoint (snd (updateStatus d s)) = su_statusEndpoint s"
  "in_flight (snd (updateStatus d s)) = in_flight s"
  "fetches (snd (updateStatus d s)) = fetches s"
  "intervals (snd (updateStatus d s)) = intervals s"
  "timeouts (snd (updateStatus d s)) = timeouts s"
  "next_timer (snd (updateStatus d s)) = next_timer s"
  "pollTimer (snd (updateStatus d s)) = pollTimer s"
  by (simp_all add: updateStatus_def Let_def updateStatusBadge_def updateProgressBar_def
      updateProcessingPhase_def checkForErrors_def split: sum.splits)

lemma su_pollStatus_keeps [simp]:
  "retryCount (su_pollStatus s) = retryCount s"
  "su_pollInterval (su_pollStatus s) = su_pollInterval s"
  "su_maxRetries (su_pollStatus s) = su_maxRetries s"
  "currentJobId (su_pollStatus s) = currentJobId s"
  "su_statusEndpoint (su_pollStatus s) = su_statusEndpoint s"
  "intervals (su_pollStatus s) = intervals s"
  "timeouts (su_pollStatus s) = timeouts s"
  "next_timer (su_pollStatus s) = next_timer s"
  "pollTimer (su_pollStatus s) = pollTimer s"
  "su_processingError (su_pollStatus s) = su_processingError s"
  by (simp_all add: su_pollStatus_def fetch_def split: option.splits)

lemma su_pollStatus_fetch:
  "currentJobId s = Some jid \<Longrightarrow> jid \<noteq> [] \<Longrightarrow>
   in_flight (su_pollStatus s) = in_flight s @ [su_statusEndpoint s @ ''?job_id='' @ jid]
   \<and> fetches (su_pollStatus s) = Suc (fetches s)"
  by (simp add: su_pollStatus_def fetch_def)

lemma stopPolling_keeps [simp]:
  "retryCount (stopPolling s) = retryCount s"
  "su_pollInterval (stopPolling s) = su_pollInterval s"
  "su_maxRetries (stopPolling s) = su_maxRetries s"
  "currentJobId (stopPolling s) = currentJobId s"
  "su_statusEndpoint (stopPolling s) = su_statusEndpoint s"
  "in_flight (stopPolling s) = in_flight s"
  "fetches (stopPolling s) = fetches s"
  "next_timer (stopPolling s) = next_timer s"
  by (simp_all add: stopPolling_def clearTimer_def split: option.splits)

lemma su_settle_failure:
  "fetch_failure r \<Longrightarrow> \<exists>e. su_settle r s = su_catch e s"
  by (cases r) (auto simp: su_settle_def)

lemma su_error_box_step:
  "(su_processingError (su_step s ev) = None) = (su_processingError s = None)"
proof -
  have upd: "(su_processingError (snd (updateStatus d s')) = None) = (su_processingError s' = None)"
    for d s'
    by (simp add: updateStatus_def Let_def updateStatusBadge_def updateProgressBar_def
        updateProcessingPhase_def checkForErrors_def split: sum.splits)
  have cat: "(su_processingError (su_catch e s') = None) = (su_processingError s' = None)" for e s'
    by (simp add: su_catch_timer)
  have stp: "su_processingError (stopPolling s') = su_processingError s'" for s'
    by (simp add: stopPolling_def clearTimer_def split: option.splits)
  have thn: "(su_processingError (su_then d s') = None) = (su_processingError s' = None)" for d s'
    using upd [of d "s'\<lparr>retryCount := 0\<rparr>"] cat
    by (auto simp: su_then_def schedulePoll_def setTimeout_def Let_def
        split: prod.splits option.splits sum.splits)
  have setl: "(su_processingError (su_settle r s') = None) = (su_processingError s' = None)" for r s'
    by (simp add: su_settle_def cat thn split: response.splits body.splits)
  show ?thesis
  proof (cases ev)
    case (Call c)
    then show ?thesis
      using upd [of initialStatus "(stopPolling s)\<lparr>currentJobId := Some (case c of StartPolling j \<Rightarrow> j), retryCount := 0\<rparr>"]
      by (cases c) (simp_all add: startPolling_def stp)
  next
    case (TimerFires t)
    then show ?thesis by simp
  next
    case (FetchSettles i r)
    then show ?thesis using setl [of r "settled i s"] by (simp add: settled_def)
  qed
qed

lemma su_error_box_run:
  "(su_processingError (su_run s evs) = None) = (su_processingError s = None)"
  unfolding su_run_def by (induction evs arbitrary: s) (simp_all add: su_error_box_step)

lemma su_start_awaiting:
  "jid \<noteq> [] \<Longrightarrow>
   su_awaiting ms maxr jid 0
     (su_run (StatusUpdater ms ep maxr bar counts badge err steps) (su_failures r jid 0))"
  by (simp add: su_awaiting_def su_run_def startPolling_def su_pollStatus_fetch)
     (simp add: StatusUpdater_def stopPolling_def)

lemma su_fail_step:
  assumes "su_awaiting ms maxr jid n s" and "Suc n < maxr" and "fetch_failure r"
  shows "su_backing_off ms maxr jid (Suc n) (su_step s (FetchSettles 0 r))"
proof -
  obtain e where "su_settle r (settled 0 s) = su_catch e (settled 0 s)"
    using su_settle_failure [OF assms(3)] by blast
  then show ?thesis using assms(1,2)
    by (simp add: su_awaiting_def su_backing_off_def su_catch_timer settled_def)
qed

lemma su_fail_stop:
  assumes "su_awaiting ms maxr jid n s" and "maxr \<le> Suc n" and "fetch_failure r"
  shows "retryCount (su_step s (FetchSettles 0 r)) = Suc n
     \<and> timeouts (su_step s (FetchSettles 0 r)) = []
     \<and> intervals (su_step s (FetchSettles 0 r)) = []
     \<and> in_flight (su_step s (FetchSettles 0 r)) = []
     \<and> fetches (su_step s (FetchSettles 0 r)) = Suc n
     \<and> su_processingError (su_step s (FetchSettles 0 r)) =
         map_option
           (\<lambda>_. (''Failed to connect to server. Please refresh the page to try again.'', ''block''))
           (su_processingError s)"
proof -
  obtain e where "su_settle r (settled 0 s) = su_catch e (settled 0 s)"
    using su_settle_failure [OF assms(3)] by blast
  then show ?thesis using assms(1,2)
    by (simp add: su_awaiting_def su_catch_timer settled_def)
qed

lemma su_timer_step:
  assumes "su_backing_off ms maxr jid n s"
  shows "su_awaiting ms maxr jid n (su_step s (TimerFires n))"
  using assms
  by (simp add: su_awaiting_def su_backing_off_def su_pollStatus_fetch)

lemma su_backing_off_failures:
  assumes "fetch_failure r" and "jid \<noteq> []"
  shows "0 < n \<Longrightarrow> n < maxr \<Longrightarrow>
   su_backing_off ms maxr jid n
     (su_run (StatusUpdater ms ep maxr bar counts badge err steps) (su_failures r jid n))"
proof (induction n)
  case 0
  then show ?case by simp
next
  case (Suc n)
  let ?s0 = "StatusUpdater ms ep maxr bar counts badge err steps"
  show ?case
  proof (cases "n = 0")
    case True
    have "su_awaiting ms maxr jid 0 (su_run ?s0 (su_failures r jid 0))"
      using assms(2) by (rule su_start_awaiting)
    from su_fail_step [OF this _ assms(1)] Suc.prems True show ?thesis
      by (simp add: su_run_def)
  next
    case False
    with Suc have "su_backing_off ms maxr jid n (su_run ?s0 (su_failures r jid n))" by simp
    then have "su_awaiting ms maxr jid n (su_step (su_run ?s0 (su_failures r jid n)) (TimerFires n))"
      by (rule su_timer_step)
    from su_fail_step [OF this _ assms(1)] Suc.prems False show ?thesis
      by (simp add: su_run_def)
  qed
qed

lemma su_awaiting_before:
  assumes "fetch_failure r" and "jid \<noteq> []" and "n < maxr"
  shows "su_awaiting ms maxr jid n
     (su_run (StatusUpdater ms ep maxr bar counts badge err steps)
        (su_failures r jid n @ (if n = 0 then [] else [TimerFires n])))"
proof (cases "n = 0")
  case True
  then show ?thesis
    using su_start_awaiting [OF assms(2), of ms maxr ep bar counts badge err steps r] by simp
next
  case False
  then have "su_backing_off ms maxr jid n
     (su_run (StatusUpdater ms ep maxr bar counts badge err steps) (su_failures r jid n))"
    using assms su_backing_off_failures by simp
  from su_timer_step [OF this] False show ?thesis by (simp add: su_run_def)
qed

lemma backoffTime_mono: "n \<le> m \<Longrightarrow> backoffTime ms n \<le> backoffTime ms m"
proof -
  assume "n \<le> m"
  then have "(2::nat) ^ n \<le> 2 ^ m" by (simp add: power_increasing)
  then have "ms * 2 ^ n \<le> ms * 2 ^ m" by (rule mult_le_mono2)
  then show ?thesis by (simp add: backoffTime_def min_le_iff_disj)
qed

subsection \<open>StatusUpdater started once: one request or one timer\<close>

lemma su_then_pending:
  "in_flight (su_then d s) = in_flight s \<and> intervals (su_then d s) = intervals s
   \<and> fetches (su_then d s) = fetches s
   \<and> (timeouts (su_then d s) = timeouts s
       \<or> (\<exists>ms. timeouts (su_then d s) = timeouts s @ [(next_timer s, ms)]))"
proof -
  obtain thrown s1 where u: "updateStatus d (s\<lparr>retryCount := 0\<rparr>) = (thrown, s1)"
    by (cases "updateStatus d (s\<lparr>retryCount := 0\<rparr>)") auto
  then have "s1 = snd (updateStatus d (s\<lparr>retryCount := 0\<rparr>))" by simp
  then have k: "in_flight s1 = in_flight s" "intervals s1 = intervals s" "timeouts s1 = timeouts s"
    "next_timer s1 = next_timer s" "fetches s1 = fetches s"
    by simp_all
  show ?thesis
    by (simp add: su_then_def u k su_catch_timer schedulePoll_def setTimeout_def
        split: option.splits sum.splits)
qed

lemma su_settle_pending:
  "in_flight (su_settle r s) = in_flight s \<and> intervals (su_settle r s) = intervals s
   \<and> fetches (su_settle r s) = fetches s
   \<and> (timeouts (su_settle r s) = timeouts s
       \<or> (\<exists>ms. timeouts (su_settle r s) = timeouts s @ [(next_timer s, ms)]))"
  using su_then_pending
  by (simp add: su_settle_def su_catch_timer split: response.splits body.splits)

lemma su_pollStatus_pending:
  "length (in_flight (su_pollStatus s)) \<le> Suc (length (in_flight s))"
  by (simp add: su_pollStatus_def fetch_def split: option.splits)

lemma su_serial_start:
  "su_serial (startPolling jid (StatusUpdater ms ep maxr bar counts badge err steps))"
proof -
  let ?s0 = "StatusUpdater ms ep maxr bar counts badge err steps"
  have 0: "in_flight ?s0 = []" "timeouts ?s0 = []" "intervals ?s0 = []" "pollTimer ?s0 = None"
    by (simp_all add: StatusUpdater_def)
  have st: "stopPolling ?s0 = ?s0" using 0 by (simp add: stopPolling_def)
  show ?thesis
    using su_pollStatus_pending
      [of "snd (updateStatus initialStatus (?s0\<lparr>currentJobId := Some jid, retryCount := 0\<rparr>))"]
    by (simp add: su_serial_def startPolling_def st 0)
qed

lemma su_serial_step:
  assumes "su_serial s" and "\<not> from_page ev"
  shows "su_serial (su_step s ev)"
proof (cases ev)
  case (Call c)
  then show ?thesis using assms(2) by simp
next
  case (TimerFires t)
  show ?thesis
  proof (cases "t \<in> fst ` set (timeouts s)")
    case True
    then obtain p ps where pp: "timeouts s = p # ps" by (cases "timeouts s") auto
    with assms(1) have one: "ps = []" "in_flight s = []"
      by (simp_all add: su_serial_def)
    with pp have p: "timeouts s = [p]" by simp
    with True have "fst p = t" by simp
    then have f: "filter (\<lambda>p. fst p \<noteq> t) (timeouts s) = []" using p by simp
    show ?thesis
      using TimerFires True assms(1) one f p
        su_pollStatus_pending [of "s\<lparr>timeouts := []\<rparr>"]
      by (simp add: su_serial_def)
  next
    case False
    then show ?thesis using TimerFires assms(1) by simp
  qed
next
  case (FetchSettles i r)
  show ?thesis
  proof (cases "i < length (in_flight s)")
    case True
    then obtain q qs where qq: "in_flight s = q # qs" by (cases "in_flight s") auto
    with assms(1) have one: "qs = []" "timeouts s = []" "intervals s = []"
      by (simp_all add: su_serial_def)
    with True qq have i: "i = 0" by simp
    have e: "in_flight (settled 0 s) = []" "timeouts (settled 0 s) = []"
      "intervals (settled 0 s) = []"
      using one qq by (simp_all add: settled_def)
    from su_settle_pending [of r "settled 0 s"] e
    have "in_flight (su_settle r (settled 0 s)) = []"
      "intervals (su_settle r (settled 0 s)) = []"
      "length (timeouts (su_settle r (settled 0 s))) \<le> 1"
      by auto
    then show ?thesis using FetchSettles True i by (simp add: su_serial_def)
  next
    case False
    then show ?thesis using FetchSettles assms(1) by simp
  qed
qed

lemma su_serial_run:
  "su_serial s \<Longrightarrow> \<not> list_ex from_page evs \<Longrightarrow> su_serial (su_run s evs)"
  unfolding su_run_def by (induction evs arbitrary: s) (simp_all add: su_serial_step)

lemma su_idle_step:
  "timeouts s = [] \<Longrightarrow> in_flight s = [] \<Longrightarrow> \<not> from_page ev \<Longrightarrow> su_step s ev = s"
  by (cases ev) simp_all

lemma su_idle_run:
  "timeouts s = [] \<Longrightarrow> in_flight s = [] \<Longrightarrow> \<not> list_ex from_page evs \<Longrightarrow> su_run s evs = s"
  unfolding su_run_def by (induction evs) (simp_all add: su_idle_step)

subsection \<open>JobProgress: failures leave the repeating timer as it is\<close>

lemma jp_catch_keeps:
  "pollCount s \<le> 10 \<Longrightarrow>
   isActive (jp_catch e s) = isActive s \<and> timer (jp_catch e s) = timer s
   \<and> intervals (jp_catch e s) = intervals s \<and> timeouts (jp_catch e s) = timeouts s
   \<and> pollCount (jp_catch e s) = pollCount s \<and> fetches (jp_catch e s) = fetches s
   \<and> in_flight (jp_catch e s) = in_flight s \<and> pollInterval (jp_catch e s) = pollInterval s
   \<and> onComplete_calls (jp_catch e s) = onComplete_calls s"
  by (simp add: jp_catch_def Let_def)

lemma jp_settle_failure: "fetch_failure r \<Longrightarrow> \<exists>e. jp_settle r s = jp_catch e s"
  by (cases r) (auto simp: jp_settle_def)

lemma jp_polling_fail:
  assumes "jp_polling ms n s" and "n \<le> 10" and "fetch_failure r"
  shows "jp_polling ms n (jp_step s (FetchSettles 0 r))"
proof (cases "0 < length (in_flight s)")
  case True
  obtain e where e: "jp_settle r (settled 0 s) = jp_catch e (settled 0 s)"
    using jp_settle_failure [OF assms(3)] by blast
  have "pollCount (settled 0 s) \<le> 10" using assms by (simp add: jp_polling_def settled_def)
  from jp_catch_keeps [OF this, of e] e assms(1) True show ?thesis
    by (simp add: jp_polling_def settled_def)
next
  case False
  then show ?thesis using assms(1) by simp
qed

lemma jp_polling_tick:
  assumes "jp_polling ms n s"
  shows "jp_polling ms (Suc n) (jp_step s (TimerFires 1))"
  using assms by (simp add: jp_polling_def jp_pollStatus_def fetch_def)

lemma jp_polling_start:
  "JobProgress jid url ms bar st c ph = Inr s0 \<Longrightarrow> jp_polling ms 1 (startTracking s0)"
  by (auto simp: JobProgress_def jp_polling_def startTracking_def jp_pollStatus_def fetch_def
      setInterval_def Let_def split: if_splits)

lemma jp_polling_failures:
  assumes "JobProgress jid url ms bar st c ph = Inr s0" and "fetch_failure r"
  shows "0 < n \<Longrightarrow> n \<le> 10 \<Longrightarrow> jp_polling ms n (jp_run s0 (jp_failures r n))"
proof (induction n)
  case 0
  then show ?case by simp
next
  case (Suc n)
  show ?case
  proof (cases "n = 0")
    case True
    from jp_polling_fail [OF jp_polling_start [OF assms(1)] _ assms(2)] True show ?thesis
      by (simp add: jp_run_def)
  next
    case False
    with Suc have "jp_polling ms n (jp_run s0 (jp_failures r n))" by simp
    then have "jp_polling ms (Suc n) (jp_step (jp_run s0 (jp_failures r n)) (TimerFires 1))"
      by (rule jp_polling_tick)
    from jp_polling_fail [OF this _ assms(2)] Suc.prems False show ?thesis
      by (simp add: jp_run_def)
  qed
qed

lemma jp_pollInterval_step: "pollInterval (jp_step s ev) = pollInterval s"
proof -
  have stop: "pollInterval (stopTracking s') = pollInterval s'" for s'
    by (simp add: stopTracking_def clearTimer_def Let_def split: option.splits)
  have start: "pollInterval (startTracking s') = pollInterval s'" for s'
    by (simp add: startTracking_def setInterval_def Let_def)
  have cat: "pollInterval (jp_catch e s') = pollInterval s'" for e s'
    by (simp add: jp_catch_def Let_def stop)
  have thn: "pollInterval (jp_then d s') = pollInterval s'" for d s'
    by (simp add: jp_then_def Let_def stop cat)
  have setl: "pollInterval (jp_settle r s') = pollInterval s'" for r s'
    by (simp add: jp_settle_def cat thn split: response.splits body.splits)
  show ?thesis
  proof (cases ev)
    case (Call c)
    then show ?thesis by (cases c) (simp_all add: start stop)
  next
    case (TimerFires t)
    then show ?thesis by simp
  next
    case (FetchSettles i r)
    then show ?thesis by (simp add: setl settled_def)
  qed
qed

lemma jp_pollInterval_run: "pollInterval (jp_run s evs) = pollInterval s"
  unfolding jp_run_def by (induction evs arbitrary: s) (simp_all add: jp_pollInterval_step)

lemma jp_failure_step:
  assumes "fetch_failure r" and "i < length (in_flight s)" and "pollCount s \<le> 10"
  shows "isActive (jp_step s (FetchSettles i r)) = isActive s
     \<and> timer (jp_step s (FetchSettles i r)) = timer s
     \<and> intervals (jp_step s (FetchSettles i r)) = intervals s
     \<and> timeouts (jp_step s (FetchSettles i r)) = timeouts s
     \<and> fetches (jp_step s (FetchSettles i r)) = fetches s"
proof -
  obtain e where e: "jp_settle r (settled i s) = jp_catch e (settled i s)"
    using jp_settle_failure [OF assms(1)] by blast
  have "pollCount (settled i s) \<le> 10" using assms(3) by (simp add: settled_def)
  from jp_catch_keeps [OF this, of e] e assms(2) show ?thesis
    by (simp add: settled_def)
qed

subsection \<open>JobProgress: the repeating timer\<close>

lemma jp_url_pollCount [simp]: "jp_url (s\<lparr>pollCount := n\<rparr>) = jp_url s"
  by (simp add: jp_url_def)

lemma jp_tick:
  "t \<in> fst ` set (intervals s) \<Longrightarrow>
   in_flight (jp_step s (TimerFires t)) = in_flight s @ [jp_url s]
   \<and> fetches (jp_step s (TimerFires t)) = Suc (fetches s)
   \<and> intervals (jp_step s (TimerFires t)) = intervals s
   \<and> jp_url (jp_step s (TimerFires t)) = jp_url s
   \<and> pollCount (jp_step s (TimerFires t)) = Suc (pollCount s)"
  by (simp add: jp_pollStatus_def fetch_def jp_url_def)

lemma jp_started:
  "JobProgress jid url ms bar st c ph = Inr s0 \<Longrightarrow>
   in_flight (startTracking s0) = [jp_url s0] \<and> intervals (startTracking s0) = [(1, ms)]
   \<and> jp_url (startTracking s0) = jp_url s0 \<and> pollCount (startTracking s0) = 1"
  by (auto simp: JobProgress_def startTracking_def jp_pollStatus_def fetch_def setInterval_def
      jp_url_def Let_def split: if_splits)

lemma jp_ticks:
  assumes "JobProgress jid url ms bar st c ph = Inr s0"
  shows "in_flight (jp_run s0 (Call StartTracking # replicate n (TimerFires 1)))
           = replicate (Suc n) (jp_url s0)
         \<and> intervals (jp_run s0 (Call StartTracking # replicate n (TimerFires 1))) = [(1, ms)]
         \<and> jp_url (jp_run s0 (Call StartTracking # replicate n (TimerFires 1))) = jp_url s0
         \<and> pollCount (jp_run s0 (Call StartTracking # replicate n (TimerFires 1))) = Suc n"
proof (induction n)
  case 0
  then show ?case using jp_started [OF assms] by (simp add: jp_run_def)
next
  case (Suc n)
  let ?s = "jp_run s0 (Call StartTracking # replicate n (TimerFires 1))"
  have r: "replicate (Suc n) (TimerFires 1 :: jp_call event) = replicate n (TimerFires 1) @ [TimerFires 1]"
    by (simp add: replicate_append_same)
  have e: "jp_run s0 (Call StartTracking # replicate (Suc n) (TimerFires 1)) = jp_step ?s (TimerFires 1)"
    by (simp only: r) (simp add: jp_run_def)
  have "1 \<in> fst ` set (intervals ?s)" using Suc by simp
  from jp_tick [OF this] Suc show ?case
    by (simp only: e) (simp add: replicate_append_same)
qed

subsection \<open>JobProgress: a failure after more than ten polls\<close>

lemma jp_catch_stops:
  "jp_inv s \<Longrightarrow> 10 < pollCount s \<Longrightarrow>
   \<not> isActive (jp_catch e s) \<and> timer (jp_catch e s) = None \<and> intervals (jp_catch e s) = []
   \<and> timeouts (jp_catch e s) = [] \<and> fetches (jp_catch e s) = fetches s"
  by (auto simp: jp_catch_def Let_def stopTracking_def clearTimer_def jp_inv_def
      split: option.splits)

lemma jp_failure_stop:
  assumes "fetch_failure r" and "i < length (in_flight s)" and "10 < pollCount s" and "jp_inv s"
  shows "\<not> isActive (jp_step s (FetchSettles i r))
     \<and> timer (jp_step s (FetchSettles i r)) = None
     \<and> intervals (jp_step s (FetchSettles i r)) = []
     \<and> timeouts (jp_step s (FetchSettles i r)) = []
     \<and> fetches (jp_step s (FetchSettles i r)) = fetches s"
proof -
  obtain e where e: "jp_settle r (settled i s) = jp_catch e (settled i s)"
    using jp_settle_failure [OF assms(1)] by blast
  have inv: "jp_inv (settled i s)"
    using assms(4) by (simp add: jp_inv_def settled_def split: option.splits)
  have pc: "10 < pollCount (settled i s)" using assms(3) by (simp add: settled_def)
  from jp_catch_stops [OF inv pc, of e] e assms(2) show ?thesis
    by (simp add: settled_def)
qed

subsection \<open>Retry and back-off\<close>

text \<open>
  C1, as the code has it.

  StatusUpdater. A request that settles with a fetch failure (a rejected request or a
  response that is not 2xx) increments the retry counter and issues no fetch itself. If
  the incremented counter is below \<open>maxRetries\<close>, one retry is armed with the delay
  \<open>min(30000, pollInterval * 2^retryCount)\<close>; otherwise no timer is armed and the error box
  shows the message. In every state that a new instance reaches after one call of
  \<open>startPolling\<close>, by timers and responses alone, at most one request or timer is pending;
  so after the failure that reaches \<open>maxRetries\<close> nothing is pending, and no timer or
  response changes the state again: no further fetch is issued. After \<open>n\<close> consecutive
  failures from the start, with \<open>0 < n < maxRetries\<close>, the one armed timer has the delay
  \<open>min(30000, pollInterval * 2^n)\<close>. The delay is non-decreasing in the retry count and at
  most 30000; for an interval of 2000 its values at the retry counts 1 to 5 are 4000,
  8000, 16000, 30000, 30000.

  JobProgress. In every state that an instance reaches from its construction no one-shot
  timer is armed and the only repeating timer has the poll interval the instance was
  constructed with: a failure schedules no retry and changes no delay. While the poll
  count is at most 10, a request that settles with a fetch failure leaves tracking active
  and the repeating timer armed; once the poll count is above 10, it stops tracking and
  clears the repeating timer. Neither issues a fetch.
\<close>

theorem su_retry_backoff:
  assumes "fetch_failure r"
  shows "(i < length (in_flight s) \<longrightarrow>
           retryCount (su_step s (FetchSettles i r)) = Suc (retryCount s)
           \<and> fetches (su_step s (FetchSettles i r)) = fetches s
           \<and> (Suc (retryCount s) < su_maxRetries s \<longrightarrow>
                timeouts (su_step s (FetchSettles i r)) =
                  timeouts s @ [(next_timer s, min 30000 (su_pollInterval s * 2 ^ Suc (retryCount s)))])
           \<and> (su_maxRetries s \<le> Suc (retryCount s) \<longrightarrow>
                timeouts (su_step s (FetchSettles i r)) = timeouts s
                \<and> su_processingError (su_step s (FetchSettles i r)) =
                    map_option
                      (\<lambda>_. (''Failed to connect to server. Please refresh the page to try again.'',
                             ''block''))
                      (su_processingError s)))
    \<and> (\<not> list_ex from_page evs \<longrightarrow>
         (let a = su_run (startPolling jid (StatusUpdater ms ep maxr bar counts badge err steps)) evs
          in length (in_flight a) + length (timeouts a) \<le> 1 \<and> intervals a = []
             \<and> (k < length (in_flight a) \<and> su_maxRetries a \<le> Suc (retryCount a) \<longrightarrow>
                  timeouts (su_step a (FetchSettles k r)) = []
                  \<and> in_flight (su_step a (FetchSettles k r)) = []
                  \<and> (\<forall>later. \<not> list_ex from_page later \<longrightarrow>
                        su_run (su_step a (FetchSettles k r)) later = su_step a (FetchSettles k r)))))
    \<and> (jid \<noteq> [] \<and> 0 < n \<and> n < maxr \<longrightarrow>
         (let b = su_run (StatusUpdater ms ep maxr bar counts badge err steps) (su_failures r jid n)
          in retryCount b = n \<and> timeouts b = [(n, min 30000 (ms * 2 ^ n))]
             \<and> intervals b = [] \<and> in_flight b = [] \<and> fetches b = n))
    \<and> (n \<le> m \<longrightarrow> backoffTime ms n \<le> backoffTime ms m)
    \<and> backoffTime ms n \<le> 30000
    \<and> map (backoffTime 2000) [1, 2, 3, 4, 5] = [4000, 8000, 16000, 30000, 30000]
    \<and> (JobProgress jjid url jms jbar st c ph = Inr jnew \<longrightarrow>
         (let j = jp_run jnew jevs
          in timeouts j = []
             \<and> intervals j = (case timer j of None \<Rightarrow> [] | Some t \<Rightarrow> [(t, jms)])
             \<and> (ji < length (in_flight j) \<and> pollCount j \<le> 10 \<longrightarrow>
                  isActive (jp_step j (FetchSettles ji r)) = isActive j
                  \<and> intervals (jp_step j (FetchSettles ji r)) = intervals j
                  \<and> timeouts (jp_step j (FetchSettles ji r)) = []
                  \<and> fetches (jp_step j (FetchSettles ji r)) = fetches j)
             \<and> (ji < length (in_flight j) \<and> 10 < pollCount j \<longrightarrow>
                  \<not> isActive (jp_step j (FetchSettles ji r))
                  \<and> intervals (jp_step j (FetchSettles ji r)) = []
                  \<and> timeouts (jp_step j (FetchSettles ji r)) = []
                  \<and> fetches (jp_step j (FetchSettles ji r)) = fetches j)))"
proof -
  let ?s0 = "StatusUpdater ms ep maxr bar counts badge err steps"
  have 1: "i < length (in_flight s) \<longrightarrow>
           retryCount (su_step s (FetchSettles i r)) = Suc (retryCount s)
           \<and> fetches (su_step s (FetchSettles i r)) = fetches s
           \<and> (Suc (retryCount s) < su_maxRetries s \<longrightarrow>
                timeouts (su_step s (FetchSettles i r)) =
                  timeouts s @ [(next_timer s, min 30000 (su_pollInterval s * 2 ^ Suc (retryCount s)))])
           \<and> (su_maxRetries s \<le> Suc (retryCount s) \<longrightarrow>
                timeouts (su_step s (FetchSettles i r)) = timeouts s
                \<and> su_processingError (su_step s (FetchSettles i r)) =
                    map_option
                      (\<lambda>_. (''Failed to connect to server. Please refresh the page to try again.'',
                             ''block''))
                      (su_processingError s))"
  proof -
    obtain e where e: "su_settle r (settled i s) = su_catch e (settled i s)"
      using su_settle_failure [OF assms] by blast
    have k: "retryCount (settled i s) = retryCount s" "fetches (settled i s) = fetches s"
      "su_maxRetries (settled i s) = su_maxRetries s" "timeouts (settled i s) = timeouts s"
      "next_timer (settled i s) = next_timer s" "su_pollInterval (settled i s) = su_pollInterval s"
      "su_processingError (settled i s) = su_processingError s"
      by (simp_all add: settled_def)
    show ?thesis
    proof
      assume "i < length (in_flight s)"
      then show "retryCount (su_step s (FetchSettles i r)) = Suc (retryCount s)
           \<and> fetches (su_step s (FetchSettles i r)) = fetches s
           \<and> (Suc (retryCount s) < su_maxRetries s \<longrightarrow>
                timeouts (su_step s (FetchSettles i r)) =
                  timeouts s @ [(next_timer s, min 30000 (su_pollInterval s * 2 ^ Suc (retryCount s)))])
           \<and> (su_maxRetries s \<le> Suc (retryCount s) \<longrightarrow>
                timeouts (su_step s (FetchSettles i r)) = timeouts s
                \<and> su_processingError (su_step s (FetchSettles i r)) =
                    map_option
                      (\<lambda>_. (''Failed to connect to server. Please refresh the page to try again.'',
                             ''block''))
                      (su_processingError s))"
        by (simp add: e su_catch_timer k backoffTime_def)
    qed
  qed
  have 2: "\<not> list_ex from_page evs \<longrightarrow>
         (let a = su_run (startPolling jid ?s0) evs
          in length (in_flight a) + length (timeouts a) \<le> 1 \<and> intervals a = []
             \<and> (k < length (in_flight a) \<and> su_maxRetries a \<le> Suc (retryCount a) \<longrightarrow>
                  timeouts (su_step a (FetchSettles k r)) = []
                  \<and> in_flight (su_step a (FetchSettles k r)) = []
                  \<and> (\<forall>later. \<not> list_ex from_page later \<longrightarrow>
                        su_run (su_step a (FetchSettles k r)) later = su_step a (FetchSettles k r))))"
  proof
    assume nc: "\<not> list_ex from_page evs"
    let ?a = "su_run (startPolling jid ?s0) evs"
    have ser: "su_serial ?a" using su_serial_start nc by (rule su_serial_run)
    have fin: "timeouts (su_step ?a (FetchSettles k r)) = []
                  \<and> in_flight (su_step ?a (FetchSettles k r)) = []
                  \<and> (\<forall>later. \<not> list_ex from_page later \<longrightarrow>
                        su_run (su_step ?a (FetchSettles k r)) later = su_step ?a (FetchSettles k r))"
      if k: "k < length (in_flight ?a)" and mx: "su_maxRetries ?a \<le> Suc (retryCount ?a)"
    proof -
      obtain q qs where qq: "in_flight ?a = q # qs" using k by (cases "in_flight ?a") auto
      with ser have one: "qs = []" "timeouts ?a = []" by (simp_all add: su_serial_def)
      with k qq have k0: "k = 0" by simp
      obtain e where e: "su_settle r (settled 0 ?a) = su_catch e (settled 0 ?a)"
        using su_settle_failure [OF assms] by blast
      have st: "su_step ?a (FetchSettles k r) = su_catch e (settled 0 ?a)"
        using k k0 e by simp
      have kk: "retryCount (settled 0 ?a) = retryCount ?a"
        "su_maxRetries (settled 0 ?a) = su_maxRetries ?a" "timeouts (settled 0 ?a) = []"
        "in_flight (settled 0 ?a) = []"
        using one qq by (simp_all add: settled_def)
      have t: "timeouts (su_step ?a (FetchSettles k r)) = []"
        unfolding st using mx by (simp add: su_catch_timer kk)
      have f: "in_flight (su_step ?a (FetchSettles k r)) = []"
        unfolding st by (simp add: kk)
      show ?thesis using t f su_idle_run [OF t f] by blast
    qed
    show "let a = ?a
          in length (in_flight a) + length (timeouts a) \<le> 1 \<and> intervals a = []
             \<and> (k < length (in_flight a) \<and> su_maxRetries a \<le> Suc (retryCount a) \<longrightarrow>
                  timeouts (su_step a (FetchSettles k r)) = []
                  \<and> in_flight (su_step a (FetchSettles k r)) = []
                  \<and> (\<forall>later. \<not> list_ex from_page later \<longrightarrow>
                        su_run (su_step a (FetchSettles k r)) later = su_step a (FetchSettles k r)))"
      unfolding Let_def using ser fin by (simp add: su_serial_def)
  qed
  have 3: "jid \<noteq> [] \<and> 0 < n \<and> n < maxr \<longrightarrow>
         (let b = su_run ?s0 (su_failures r jid n)
          in retryCount b = n \<and> timeouts b = [(n, min 30000 (ms * 2 ^ n))]
             \<and> intervals b = [] \<and> in_flight b = [] \<and> fetches b = n)"
    using su_backing_off_failures [OF assms, of jid n maxr ms ep bar counts badge err steps]
    by (simp add: su_backing_off_def backoffTime_def Let_def)
  have 4: "n \<le> m \<longrightarrow> backoffTime ms n \<le> backoffTime ms m"
    by (simp add: backoffTime_mono)
  have 5: "backoffTime ms n \<le> 30000" by (simp add: backoffTime_def)
  have 6: "map (backoffTime 2000) [1, 2, 3, 4, 5] = [4000, 8000, 16000, 30000, 30000]"
    by (simp add: backoffTime_def)
  have 7: "JobProgress jjid url jms jbar st c ph = Inr jnew \<longrightarrow>
         (let j = jp_run jnew jevs
          in timeouts j = []
             \<and> intervals j = (case timer j of None \<Rightarrow> [] | Some t \<Rightarrow> [(t, jms)])
             \<and> (ji < length (in_flight j) \<and> pollCount j \<le> 10 \<longrightarrow>
                  isActive (jp_step j (FetchSettles ji r)) = isActive j
                  \<and> intervals (jp_step j (FetchSettles ji r)) = intervals j
                  \<and> timeouts (jp_step j (FetchSettles ji r)) = []
                  \<and> fetches (jp_step j (FetchSettles ji r)) = fetches j)
             \<and> (ji < length (in_flight j) \<and> 10 < pollCount j \<longrightarrow>
                  \<not> isActive (jp_step j (FetchSettles ji r))
                  \<and> intervals (jp_step j (FetchSettles ji r)) = []
                  \<and> timeouts (jp_step j (FetchSettles ji r)) = []
                  \<and> fetches (jp_step j (FetchSettles ji r)) = fetches j))"
  proof
    assume new: "JobProgress jjid url jms jbar st c ph = Inr jnew"
    let ?j = "jp_run jnew jevs"
    have inv: "jp_inv ?j" using new by (simp add: jp_inv_new jp_inv_run)
    have ms: "pollInterval ?j = jms"
      using new by (auto simp: jp_pollInterval_run JobProgress_def split: if_splits)
    have a: "timeouts ?j = []"
      and b: "intervals ?j = (case timer ?j of None \<Rightarrow> [] | Some t \<Rightarrow> [(t, jms)])"
      using inv ms by (simp_all add: jp_inv_def split: option.splits)
    have c: "isActive (jp_step ?j (FetchSettles ji r)) = isActive ?j
                  \<and> intervals (jp_step ?j (FetchSettles ji r)) = intervals ?j
                  \<and> timeouts (jp_step ?j (FetchSettles ji r)) = []
                  \<and> fetches (jp_step ?j (FetchSettles ji r)) = fetches ?j"
      if "ji < length (in_flight ?j)" "pollCount ?j \<le> 10"
      using jp_failure_step [OF assms that] a by simp
    have d: "\<not> isActive (jp_step ?j (FetchSettles ji r))
                  \<and> intervals (jp_step ?j (FetchSettles ji r)) = []
                  \<and> timeouts (jp_step ?j (FetchSettles ji r)) = []
                  \<and> fetches (jp_step ?j (FetchSettles ji r)) = fetches ?j"
      if "ji < length (in_flight ?j)" "10 < pollCount ?j"
      using jp_failure_stop [OF assms that inv] by simp
    show "let j = ?j
          in timeouts j = []
             \<and> intervals j = (case timer j of None \<Rightarrow> [] | Some t \<Rightarrow> [(t, jms)])
             \<and> (ji < length (in_flight j) \<and> pollCount j \<le> 10 \<longrightarrow>
                  isActive (jp_step j (FetchSettles ji r)) = isActive j
                  \<and> intervals (jp_step j (FetchSettles ji r)) = intervals j
                  \<and> timeouts (jp_step j (FetchSettles ji r)) = []
                  \<and> fetches (jp_step j (FetchSettles ji r)) = fetches j)
             \<and> (ji < length (in_flight j) \<and> 10 < pollCount j \<longrightarrow>
                  \<not> isActive (jp_step j (FetchSettles ji r))
                  \<and> intervals (jp_step j (FetchSettles ji r)) = []
                  \<and> timeouts (jp_step j (FetchSettles ji r)) = []
                  \<and> fetches (jp_step j (FetchSettles ji r)) = fetches j)"
      unfolding Let_def using a b c d by blast
  qed
  from 1 2 3 4 5 6 7 show ?thesis by blast
qed

text \<open>
  With the default options (interval 2000, five retries) and rejected requests: the armed
  retry after four failures, the fifth failure of the instance started once, and a
  JobProgress instance whose first request is rejected: at once, and after ten ticks of
  its timer.
\<close>

theorem su_retry_backoff_witness:
  "fetch_failure (Rejected (TypeError ''Failed to fetch''))
   \<and> timeouts (su_run su_example (su_failures (Rejected (TypeError ''Failed to fetch'')) ''7'' 4))
       = [(4, 30000)]
   \<and> retryCount (su_run su_example (su_failures (Rejected (TypeError ''Failed to fetch'')) ''7'' 5)) = 5
   \<and> timeouts (su_run su_example (su_failures (Rejected (TypeError ''Failed to fetch'')) ''7'' 5)) = []
   \<and> in_flight (su_run su_example (su_failures (Rejected (TypeError ''Failed to fetch'')) ''7'' 5)) = []
   \<and> su_run (su_run su_example (su_failures (Rejected (TypeError ''Failed to fetch'')) ''7'' 5))
         [TimerFires 4, FetchSettles 0 (Http 200 (Json cancelled_job))]
       = su_run su_example (su_failures (Rejected (TypeError ''Failed to fetch'')) ''7'' 5)
   \<and> isActive (jp_run jp_example [Call StartTracking, FetchSettles 0 (Rejected (TypeError ''Failed to fetch''))])
   \<and> intervals (jp_run jp_example [Call StartTracking, FetchSettles 0 (Rejected (TypeError ''Failed to fetch''))])
       = [(1, 3000)]
   \<and> \<not> isActive (jp_step (jp_run jp_example (Call StartTracking # replicate 10 (TimerFires 1)))
            (FetchSettles 0 (Rejected (TypeError ''Failed to fetch''))))
   \<and> intervals (jp_step (jp_run jp_example (Call StartTracking # replicate 10 (TimerFires 1)))
            (FetchSettles 0 (Rejected (TypeError ''Failed to fetch'')))) = []"
proof -
  let ?r = "Rejected (TypeError ''Failed to fetch'')"
  let ?evs = "tl (su_failures ?r ''7'' 4) @ [TimerFires 4]"
  let ?a = "su_run (startPolling ''7'' su_example) ?evs"
  have f: "fetch_failure ?r" by simp
  note inst = su_retry_backoff [OF f, where i = 0 and s = "?a" and evs = "?evs" and jid = "''7''"
      and k = 0 and n = 4 and m = 5 and maxr = 5
      and ms = 2000 and ep = "''/check-job-status/''"
      and bar = "Some \<lparr>width = ''0%'', aria_valuenow = ''0'', classes = [''progress-bar'']\<rparr>"
      and counts = "Some (''0'', ''0'')" and badge = "Some (''Initializing'', ''badge bg-info'')"
      and err = "Some ([], ''none'')"
      and steps = "map (\<lambda>p. (p, if p = ''initializing'' then [''step-indicator'', ''active'']
                       else [''step-indicator''])) su_phases"
      and jjid = "''42''" and url = "''/check-job-status/''" and jms = 3000
      and jbar = "Some \<lparr>width = ''0%'', aria_valuenow = ''0'', classes = [''progress-bar'']\<rparr>"
      and st = "Some []" and c = True and ph = "\<lambda>n. Some []" and jnew = jp_example
      and jevs = "[Call StartTracking]" and ji = 0,
      folded su_example_def, unfolded Let_def]
  note late = su_retry_backoff [OF f, where i = 0 and s = "?a" and evs = "?evs" and jid = "''7''"
      and k = 0 and n = 4 and m = 5 and maxr = 5
      and ms = 2000 and ep = "''/check-job-status/''"
      and bar = "Some \<lparr>width = ''0%'', aria_valuenow = ''0'', classes = [''progress-bar'']\<rparr>"
      and counts = "Some (''0'', ''0'')" and badge = "Some (''Initializing'', ''badge bg-info'')"
      and err = "Some ([], ''none'')"
      and steps = "map (\<lambda>p. (p, if p = ''initializing'' then [''step-indicator'', ''active'']
                       else [''step-indicator''])) su_phases"
      and jjid = "''42''" and url = "''/check-job-status/''" and jms = 3000
      and jbar = "Some \<lparr>width = ''0%'', aria_valuenow = ''0'', classes = [''progress-bar'']\<rparr>"
      and st = "Some []" and c = True and ph = "\<lambda>n. Some []" and jnew = jp_example
      and jevs = "Call StartTracking # replicate 10 (TimerFires 1)" and ji = 0,
      folded su_example_def, unfolded Let_def]
  have nc: "\<not> list_ex from_page ?evs" by (simp add: numeral_eq_Suc)
  have aw: "su_awaiting 2000 5 ''7'' 4 (su_run su_example (su_failures ?r ''7'' 4 @ [TimerFires 4]))"
    using su_awaiting_before [OF f, of "''7''" 4 5 2000] by (simp add: su_example_def)
  have a_eq: "su_run su_example (su_failures ?r ''7'' 4 @ [TimerFires 4]) = ?a"
    by (simp add: su_run_def numeral_eq_Suc)
  have five: "su_run su_example (su_failures ?r ''7'' 5) = su_step ?a (FetchSettles 0 ?r)"
    by (simp add: su_run_def numeral_eq_Suc)
  have a1: "0 < length (in_flight ?a)" "su_maxRetries ?a \<le> Suc (retryCount ?a)"
    "retryCount ?a = 4"
    using aw unfolding a_eq by (simp_all add: su_awaiting_def)
  have later: "\<not> list_ex from_page [TimerFires 4, FetchSettles 0 (Http 200 (Json cancelled_job)) :: su_call event]"
    by simp
  have s1: "retryCount (su_step ?a (FetchSettles 0 ?r)) = 5"
    using inst [THEN conjunct1] a1 by simp
  have s2: "timeouts (su_step ?a (FetchSettles 0 ?r)) = []
      \<and> in_flight (su_step ?a (FetchSettles 0 ?r)) = []
      \<and> su_run (su_step ?a (FetchSettles 0 ?r)) [TimerFires 4, FetchSettles 0 (Http 200 (Json cancelled_job))]
          = su_step ?a (FetchSettles 0 ?r)"
    using inst [THEN conjunct2, THEN conjunct1] nc a1(1,2) later by blast
  have s3: "timeouts (su_run su_example (su_failures ?r ''7'' 4)) = [(4, 30000)]"
    using inst [THEN conjunct2, THEN conjunct2, THEN conjunct1] by simp
  have jst: "jp_polling 3000 1 (jp_run jp_example [Call StartTracking])"
    using jp_polling_start [OF jp_example_new] by (simp add: jp_run_def)
  have jfl: "in_flight (jp_run jp_example [Call StartTracking]) \<noteq> []"
    by (simp add: jp_run_def startTracking_def jp_pollStatus_def fetch_def setInterval_def
        Let_def jp_example_def)
  have s4: "isActive (jp_step (jp_run jp_example [Call StartTracking]) (FetchSettles 0 ?r))
      \<and> intervals (jp_step (jp_run jp_example [Call StartTracking]) (FetchSettles 0 ?r)) = [(1, 3000)]"
    using inst [THEN conjunct2, THEN conjunct2, THEN conjunct2, THEN conjunct2, THEN conjunct2,
        THEN conjunct2] jp_example_new jst jfl
    by (simp add: jp_polling_def)
  have jrun: "jp_run jp_example [Call StartTracking, FetchSettles 0 ?r]
      = jp_step (jp_run jp_example [Call StartTracking]) (FetchSettles 0 ?r)"
    by (simp add: jp_run_def)
  have eleven: "0 < length (in_flight (jp_run jp_example (Call StartTracking # replicate 10 (TimerFires 1))))"
    "10 < pollCount (jp_run jp_example (Call StartTracking # replicate 10 (TimerFires 1)))"
    using jp_ticks [OF jp_example_new, of 10] by simp_all
  have s5: "\<not> isActive (jp_step (jp_run jp_example (Call StartTracking # replicate 10 (TimerFires 1)))
            (FetchSettles 0 ?r))
      \<and> intervals (jp_step (jp_run jp_example (Call StartTracking # replicate 10 (TimerFires 1)))
            (FetchSettles 0 ?r)) = []"
    using late [THEN conjunct2, THEN conjunct2, THEN conjunct2, THEN conjunct2, THEN conjunct2,
        THEN conjunct2, rule_format, OF jp_example_new, THEN conjunct2, THEN conjunct2,
        THEN conjunct2, rule_format, OF conjI, OF eleven]
    by blast
  show ?thesis
    unfolding five jrun using f s1 s2 s3 s4 s5 by blast
qed

text \<open>
  The claim fails on JobProgress: with a poll interval of 2000, after five consecutive
  failed requests the instance still tracks, its repeating timer is armed with the fixed
  2000 and no retry is scheduled, and the next firing issues a sixth request. It also fails
  on StatusUpdater with the default options: the delays after the first four failures are
  4000, 8000, 16000 and 30000, and the fifth failure arms no timer at all.
\<close>

theorem retry_backoff_counterexample:
  "isActive (jp_run (jp_example\<lparr>pollInterval := 2000\<rparr>) (jp_failures (Http 500 (BadJson [])) 5))
   \<and> intervals (jp_run (jp_example\<lparr>pollInterval := 2000\<rparr>) (jp_failures (Http 500 (BadJson [])) 5))
       = [(1, 2000)]
   \<and> timeouts (jp_run (jp_example\<lparr>pollInterval := 2000\<rparr>) (jp_failures (Http 500 (BadJson [])) 5)) = []
   \<and> fetches (jp_step (jp_run (jp_example\<lparr>pollInterval := 2000\<rparr>) (jp_failures (Http 500 (BadJson [])) 5))
        (TimerFires 1)) = 6
   \<and> map (\<lambda>n. map snd (timeouts (su_run su_example (su_failures (Http 500 (BadJson [])) ''7'' n))))
        [1, 2, 3, 4, 5] = [[4000], [8000], [16000], [30000], []]"
proof -
  let ?r = "Http 500 (BadJson [])"
  have f: "fetch_failure ?r" by (simp add: ok_def)
  have j: "''7'' \<noteq> []" by simp
  have new: "JobProgress ''42'' ''/check-job-status/'' 2000
     (Some \<lparr>width = ''0%'', aria_valuenow = ''0'', classes = [''progress-bar'']\<rparr>)
     (Some []) True (\<lambda>n. Some []) = Inr (jp_example\<lparr>pollInterval := 2000\<rparr>)"
    by (simp add: JobProgress_def jp_example_def)
  have p: "jp_polling 2000 5 (jp_run (jp_example\<lparr>pollInterval := 2000\<rparr>) (jp_failures ?r 5))"
    using jp_polling_failures [OF new f, of 5] by simp
  have q: "jp_polling 2000 6
     (jp_step (jp_run (jp_example\<lparr>pollInterval := 2000\<rparr>) (jp_failures ?r 5)) (TimerFires 1))"
    using jp_polling_tick [OF p] by simp
  have j1: "isActive (jp_run (jp_example\<lparr>pollInterval := 2000\<rparr>) (jp_failures ?r 5))"
    using p unfolding jp_polling_def by blast
  have j2: "intervals (jp_run (jp_example\<lparr>pollInterval := 2000\<rparr>) (jp_failures ?r 5)) = [(1, 2000)]"
    using p unfolding jp_polling_def by blast
  have j3: "timeouts (jp_run (jp_example\<lparr>pollInterval := 2000\<rparr>) (jp_failures ?r 5)) = []"
    using p unfolding jp_polling_def by blast
  have j4: "fetches (jp_step (jp_run (jp_example\<lparr>pollInterval := 2000\<rparr>) (jp_failures ?r 5))
        (TimerFires 1)) = 6"
    using q unfolding jp_polling_def by blast
  have b: "map snd (timeouts (su_run su_example (su_failures ?r ''7'' n))) = [backoffTime 2000 n]"
    if "0 < n" "n < 5" for n
    using su_backing_off_failures [OF f j that, of 2000]
    unfolding su_example_def su_backing_off_def by simp
  have d1: "map snd (timeouts (su_run su_example (su_failures ?r ''7'' 1))) = [4000]"
    using b [of 1] by (simp add: backoffTime_def)
  have d2: "map snd (timeouts (su_run su_example (su_failures ?r ''7'' 2))) = [8000]"
    using b [of 2] by (simp add: backoffTime_def)
  have d3: "map snd (timeouts (su_run su_example (su_failures ?r ''7'' 3))) = [16000]"
    using b [of 3] by (simp add: backoffTime_def)
  have d4: "map snd (timeouts (su_run su_example (su_failures ?r ''7'' 4))) = [30000]"
    using b [of 4] by (simp add: backoffTime_def)
  have a: "su_awaiting 2000 5 ''7'' 4 (su_run su_example (su_failures ?r ''7'' 4 @ [TimerFires 4]))"
    using su_awaiting_before [OF f j, of 4 5 2000] by (simp add: su_example_def)
  have run: "su_run su_example (su_failures ?r ''7'' 5)
      = su_step (su_run su_example (su_failures ?r ''7'' 4 @ [TimerFires 4])) (FetchSettles 0 ?r)"
    by (simp add: su_run_def numeral_eq_Suc)
  have d5: "map snd (timeouts (su_run su_example (su_failures ?r ''7'' 5))) = []"
    using su_fail_stop [OF a _ f] run by simp
  show ?thesis
    by (simp only: list.map j1 j2 j3 j4 d1 d2 d3 d4 d5 simp_thms)
qed

subsection \<open>Terminal statuses\<close>

lemma jp_catch_status:
  "el_status (jp_catch e s) = map_option (\<lambda>_. ''Error checking status: '' @ message e) (el_status s)"
  by (simp add: jp_catch_def Let_def stopTracking_def clearTimer_def split: option.splits)

lemma updateDisplay_calls [simp]:
  "onComplete_calls (updateDisplay d s) = onComplete_calls s"
  "fetches (updateDisplay d s) = fetches s"
  "pollCount (updateDisplay d s) = pollCount s"
  by (simp_all add: updateDisplay_def updatePhaseDisplay_def Let_def split: option.splits sum.splits)

lemma jp_example_started:
  "jp_polling 3000 1 (startTracking jp_example)
   \<and> in_flight (startTracking jp_example) = [''/check-job-status/?job_id=42&_='']
   \<and> el_status (startTracking jp_example) = Some []
   \<and> onComplete_calls (startTracking jp_example) = []"
  by (simp add: jp_polling_def startTracking_def jp_pollStatus_def fetch_def setInterval_def
      Let_def jp_example_def jp_url_def)

lemma jp_then_error:
  "jp_then failed_with_error s = jp_catch (Error ''boom'') s"
  by (simp add: jp_then_def failed_with_error_def nullish_def)

lemma jp_then_terminal:
  "jp_polling ms n s \<Longrightarrow>
   \<not> isActive (jp_then failed_without_error s)
   \<and> intervals (jp_then failed_without_error s) = []
   \<and> onComplete_calls (jp_then failed_without_error s) = onComplete_calls s @ [failed_without_error]"
  by (simp add: jp_then_def failed_without_error_def nullish_def terminal_statuses_def Let_def
      stopTracking_def clearTimer_def jp_polling_def)

lemma su_example_started:
  "su_awaiting 2000 5 ''7'' 0 (startPolling ''7'' su_example)"
proof -
  have "''7'' \<noteq> []" by simp
  from su_start_awaiting [OF this, of 2000 5 "''/check-job-status/''" _ _ _ _ _ "Rejected (Error [])"]
  show ?thesis by (simp add: su_example_def su_run_def)
qed

lemma updateStatus_cancelled: "fst (updateStatus cancelled_job s) = None"
  by (simp add: updateStatus_def cancelled_job_def nullish_def Let_def js_or_def
      updateProcessingPhase_def su_currentPhase_def first_including_def js_includes_def)

lemma shouldContinue_cancelled: "shouldContinuePolling cancelled_job = Inr True"
  by (simp add: shouldContinuePolling_def cancelled_job_def toLowerCase_def toLowerChar_def Let_def)

lemma su_then_cancelled:
  "timeouts (su_then cancelled_job s) = timeouts s @ [(next_timer s, su_pollInterval s)]"
proof -
  obtain s1 where u: "updateStatus cancelled_job (s\<lparr>retryCount := 0\<rparr>) = (None, s1)"
    using updateStatus_cancelled [of "s\<lparr>retryCount := 0\<rparr>"]
    by (cases "updateStatus cancelled_job (s\<lparr>retryCount := 0\<rparr>)") simp
  then have "s1 = snd (updateStatus cancelled_job (s\<lparr>retryCount := 0\<rparr>))" by simp
  then have k: "timeouts s1 = timeouts s" "next_timer s1 = next_timer s"
    "su_pollInterval s1 = su_pollInterval s"
    by simp_all
  show ?thesis
    by (simp add: su_then_def u shouldContinue_cancelled schedulePoll_def setTimeout_def k)
qed

text \<open>
  C2 at the failing input. A JobProgress instance that tracks a job receives the payload
  \<open>{status: "failed", error: "boom"}\<close> from its first request: the handler throws on the
  error text before it reaches the terminal check, so the instance keeps tracking with its
  timer armed, the completion callback is not called, and the next firing of the timer
  issues a second request. The same status without the error text stops the instance and
  calls the callback. StatusUpdater does not count \<open>cancelled\<close> as terminal: it schedules
  the next poll.
\<close>

theorem terminal_status_keeps_polling:
  "isActive (jp_run jp_example [Call StartTracking, FetchSettles 0 (Http 200 (Json failed_with_error))])
   \<and> intervals (jp_run jp_example [Call StartTracking, FetchSettles 0 (Http 200 (Json failed_with_error))])
       = [(1, 3000)]
   \<and> onComplete_calls (jp_run jp_example [Call StartTracking, FetchSettles 0 (Http 200 (Json failed_with_error))])
       = []
   \<and> el_status (jp_run jp_example [Call StartTracking, FetchSettles 0 (Http 200 (Json failed_with_error))])
       = Some ''Error checking status: boom''
   \<and> fetches (jp_run jp_example
        [Call StartTracking, FetchSettles 0 (Http 200 (Json failed_with_error)), TimerFires 1]) = 2
   \<and> \<not> isActive (jp_run jp_example [Call StartTracking, FetchSettles 0 (Http 200 (Json failed_without_error))])
   \<and> intervals (jp_run jp_example [Call StartTracking, FetchSettles 0 (Http 200 (Json failed_without_error))])
       = []
   \<and> onComplete_calls (jp_run jp_example [Call StartTracking, FetchSettles 0 (Http 200 (Json failed_without_error))])
       = [failed_without_error]
   \<and> timeouts (su_run su_example [Call (StartPolling ''7''), FetchSettles 0 (Http 200 (Json cancelled_job))])
       = [(1, 2000)]"
proof -
  let ?s = "startTracking jp_example"
  note st = jp_example_started
  have p: "jp_polling 3000 1 (settled 0 ?s)" using st by (simp add: jp_polling_def settled_def)
  have le: "pollCount (settled 0 ?s) \<le> 10" using p by (simp add: jp_polling_def)
  have run1: "jp_run jp_example [Call StartTracking, FetchSettles 0 (Http 200 (Json failed_with_error))]
      = jp_catch (Error ''boom'') (settled 0 ?s)"
    using st by (simp add: jp_run_def jp_settle_def ok_def jp_then_error)
  have q: "jp_polling 3000 1 (jp_catch (Error ''boom'') (settled 0 ?s))"
    using jp_catch_keeps [OF le, of "Error ''boom''"] p by (simp add: jp_polling_def)
  have c1: "isActive (jp_catch (Error ''boom'') (settled 0 ?s))"
    and c2: "intervals (jp_catch (Error ''boom'') (settled 0 ?s)) = [(1, 3000)]"
    using q by (simp_all add: jp_polling_def)
  have c3: "onComplete_calls (jp_catch (Error ''boom'') (settled 0 ?s)) = []"
    using jp_catch_keeps [OF le, of "Error ''boom''"] st by (simp add: settled_def)
  have c4: "el_status (jp_catch (Error ''boom'') (settled 0 ?s)) = Some ''Error checking status: boom''"
    using st by (simp add: jp_catch_status settled_def)
  have c5: "fetches (jp_run jp_example
        [Call StartTracking, FetchSettles 0 (Http 200 (Json failed_with_error)), TimerFires 1]) = 2"
  proof -
    have "jp_run jp_example
        [Call StartTracking, FetchSettles 0 (Http 200 (Json failed_with_error)), TimerFires 1]
        = jp_step (jp_catch (Error ''boom'') (settled 0 ?s)) (TimerFires 1)"
      using run1 by (simp add: jp_run_def)
    then show ?thesis using jp_polling_tick [OF q] by (simp add: jp_polling_def)
  qed
  have run2: "jp_run jp_example [Call StartTracking, FetchSettles 0 (Http 200 (Json failed_without_error))]
      = jp_then failed_without_error (settled 0 ?s)"
    using st by (simp add: jp_run_def jp_settle_def ok_def)
  have oc: "onComplete_calls (settled 0 ?s) = []" using st by (simp add: settled_def)
  note t = jp_then_terminal [OF p]
  have a: "su_awaiting 2000 5 ''7'' 0 (startPolling ''7'' su_example)" by (rule su_example_started)
  have c9: "timeouts (su_run su_example [Call (StartPolling ''7''), FetchSettles 0 (Http 200 (Json cancelled_job))])
       = [(1, 2000)]"
    using a by (simp add: su_run_def su_awaiting_def su_settle_def ok_def su_then_cancelled settled_def)
  show ?thesis
    unfolding run1 run2 using c1 c2 c3 c4 c5 t oc c9 by simp
qed

subsection \<open>Decimal strings\<close>

lemma digits_nonempty: "digits n \<noteq> []"
  by (subst digits.simps) simp

lemma digits_small: "n < 10 \<Longrightarrow> digits n = [digit n]"
  by (subst digits.simps) simp

lemma digits_large: "\<not> n < 10 \<Longrightarrow> digits n = digits (n div 10) @ [digit (n mod 10)]"
  by (subst digits.simps) simp

lemma digits_length: "(length (digits n) = Suc 0) = (n < 10)"
proof (cases "n < 10")
  case True
  then show ?thesis by (simp add: digits_small)
next
  case False
  then have "length (digits n) = Suc (length (digits (n div 10)))"
    by (simp only: digits_large [OF False]) simp
  moreover have "length (digits (n div 10)) \<noteq> 0" using digits_nonempty [of "n div 10"] by simp
  ultimately show ?thesis using False by simp
qed

lemma digit_char_inj: "a < 10 \<Longrightarrow> b < 10 \<Longrightarrow> digit a = digit b \<Longrightarrow> a = b"
proof -
  assume a: "a < 10" and b: "b < 10" and eq: "digit a = digit b"
  have "distinct ''0123456789''" by simp
  moreover have "a < length ''0123456789''" "b < length ''0123456789''" using a b by simp_all
  ultimately show "a = b" using eq unfolding digit_def by (simp only: nth_eq_iff_index_eq)
qed

lemma digits_inj: "digits n = digits m \<Longrightarrow> n = m"
proof (induction n arbitrary: m rule: digits.induct)
  case (1 n)
  show ?case
  proof (cases "n < 10")
    case True
    then have "length (digits m) = Suc 0" using "1.prems" digits_length [of n] by simp
    then have m: "m < 10" by (simp add: digits_length)
    from "1.prems" have "digit n = digit m"
      by (simp only: digits_small [OF True] digits_small [OF m]) simp
    then show ?thesis using True m by (rule digit_char_inj [rotated 2])
  next
    case False
    then have "length (digits m) \<noteq> Suc 0" using "1.prems" digits_length [of n] by simp
    then have m: "\<not> m < 10" by (simp add: digits_length)
    from "1.prems"
    have "digits (n div 10) @ [digit (n mod 10)] = digits (m div 10) @ [digit (m mod 10)]"
      by (simp only: digits_large [OF False] digits_large [OF m])
    then have eq: "digits (n div 10) = digits (m div 10)"
      and ch: "digit (n mod 10) = digit (m mod 10)"
      by simp_all
    from "1.IH" [OF False eq] have d: "n div 10 = m div 10" .
    have "n mod 10 = m mod 10" using ch by (intro digit_char_inj) simp_all
    with d show ?thesis by (metis div_mult_mod_eq)
  qed
qed

lemma digits_no_minus: "CHR ''-'' \<notin> set (digits n)"
proof (induction n rule: digits.induct)
  case (1 n)
  have c: "digit k \<noteq> CHR ''-''" if "k < 10" for k :: nat
  proof -
    have "digit k \<in> set ''0123456789''" unfolding digit_def using that
      by (intro nth_mem) simp
    then show ?thesis by auto
  qed
  show ?case
  proof (cases "n < 10")
    case True
    then show ?thesis using c [of n] by (simp only: digits_small [OF True]) simp
  next
    case False
    have "CHR ''-'' \<notin> set (digits (n div 10))" using "1.IH" False by simp
    then show ?thesis using c [of "n mod 10"] by (simp only: digits_large [OF False]) simp
  qed
qed

lemma show_int_inj: "show_int a = show_int b \<Longrightarrow> a = b"
proof -
  assume eq: "show_int a = show_int b"
  have hd: "hd (digits k) \<noteq> CHR ''-''" for k
    using digits_no_minus [of k] digits_nonempty [of k] by (cases "digits k") auto
  show "a = b"
  proof (cases "a < 0"; cases "b < 0")
    assume "a < 0" "b < 0"
    with eq have "digits (nat (- a)) = digits (nat (- b))" by (simp add: show_int_def)
    then have "nat (- a) = nat (- b)" by (rule digits_inj)
    with \<open>a < 0\<close> \<open>b < 0\<close> show ?thesis by simp
  next
    assume "a < 0" "\<not> b < 0"
    with eq have "CHR ''-'' # digits (nat (- a)) = digits (nat b)" by (simp add: show_int_def)
    then have "hd (digits (nat b)) = CHR ''-''" by (metis list.sel(1))
    with hd show ?thesis by simp
  next
    assume "\<not> a < 0" "b < 0"
    with eq have "digits (nat a) = CHR ''-'' # digits (nat (- b))" by (simp add: show_int_def)
    then have "hd (digits (nat a)) = CHR ''-''" by simp
    with hd show ?thesis by simp
  next
    assume "\<not> a < 0" "\<not> b < 0"
    with eq have "digits (nat a) = digits (nat b)" by (simp add: show_int_def)
    then have "nat a = nat b" by (rule digits_inj)
    with \<open>\<not> a < 0\<close> \<open>\<not> b < 0\<close> show ?thesis by simp
  qed
qed

lemma show_int_examples: "show_int 150 = ''150''" "show_int (- 20) = ''-20''" "show_int 7 = ''7''"
  by (simp_all add: show_int_def digits.simps digit_def)

subsection \<open>Percentages that the width accepts\<close>

lemma digit_is_digit: "k < 10 \<Longrightarrow> is_digit (digit k)"
  unfolding is_digit_def digit_def by (intro nth_mem) simp

lemma digits_all_digit: "list_all is_digit (digits n)"
proof (induction n rule: digits.induct)
  case (1 n)
  show ?case
  proof (cases "n < 10")
    case True
    then show ?thesis by (simp only: digits_small [OF True]) (simp add: digit_is_digit)
  next
    case False
    have "list_all is_digit (digits (n div 10))" using "1.IH" False by simp
    then show ?thesis
      by (simp only: digits_large [OF False]) (simp add: digit_is_digit)
  qed
qed

lemma digit_zero: "k < 10 \<Longrightarrow> (digit k = CHR ''0'') = (k = 0)"
proof -
  assume k: "k < 10"
  have z: "digit 0 = CHR ''0''" by (simp add: digit_def)
  show ?thesis using digit_char_inj [OF k, of 0] z by auto
qed

lemma digits_hd_nonzero: "0 < n \<Longrightarrow> hd (digits n) \<noteq> CHR ''0''"
proof (induction n rule: digits.induct)
  case (1 n)
  show ?case
  proof (cases "n < 10")
    case True
    then show ?thesis using "1.prems" by (simp only: digits_small [OF True]) (simp add: digit_zero)
  next
    case False
    then have "0 < n div 10" by simp
    then have "hd (digits (n div 10)) \<noteq> CHR ''0''" using "1.IH" False by simp
    then show ?thesis using digits_nonempty [of "n div 10"]
      by (simp only: digits_large [OF False]) simp
  qed
qed

lemma is_digit_plain:
  "is_digit c \<Longrightarrow> \<not> css_whitespace c \<and> c \<noteq> CHR ''-'' \<and> c \<noteq> CHR ''+'' \<and> c \<noteq> CHR ''.''
     \<and> c \<noteq> CHR ''e'' \<and> c \<noteq> CHR ''E'' \<and> c \<noteq> CHR ''%''"
  by (auto simp: is_digit_def css_whitespace_def)

lemma css_trim_id:
  "v \<noteq> [] \<Longrightarrow> \<not> css_whitespace (hd v) \<Longrightarrow> \<not> css_whitespace (last v) \<Longrightarrow> css_trim v = v"
proof -
  assume v: "v \<noteq> []" and h: "\<not> css_whitespace (hd v)" and l: "\<not> css_whitespace (last v)"
  have 1: "dropWhile css_whitespace v = v" using v h by (cases v) simp_all
  obtain y ys where r: "rev v = y # ys" using v by (cases "rev v") auto
  have "hd (rev v) = last v" using v by (simp add: hd_rev)
  then have "y = last v" using r by simp
  then have 2: "dropWhile css_whitespace (rev v) = rev v" using l by (simp only: r) simp
  show ?thesis by (simp add: css_trim_def 1 2)
qed

lemma css_unsigned_digits: "css_unsigned (digits n)"
proof -
  have a: "\<forall>c \<in> set (digits n). is_digit c" using digits_all_digit by (simp add: list_all_iff)
  then have t: "takeWhile is_digit (digits n) = digits n" by (simp add: takeWhile_eq_all_conv)
  have d: "dropWhile is_digit (digits n) = []" using a by simp
  show ?thesis by (simp add: css_unsigned_def t d css_exponent_def digits_nonempty)
qed

lemma not_ws_percent: "\<not> css_whitespace CHR ''%''" "\<not> css_whitespace CHR ''-''"
  by (simp_all add: css_whitespace_def)

lemma accepts_digits: "accepts_width (digits n @ ''%'')"
proof -
  obtain sg u where ds: "digits n = sg # u" using digits_nonempty [of n] by (cases "digits n") auto
  have "is_digit sg" using digits_all_digit [of n] ds by simp
  then have sg: "\<not> css_whitespace sg" "sg \<noteq> CHR ''-''" "sg \<noteq> CHR ''+''"
    using is_digit_plain by blast+
  have tr: "css_trim (digits n @ ''%'') = digits n @ ''%''"
    by (rule css_trim_id) (simp_all add: ds sg not_ws_percent)
  have u: "css_unsigned (sg # u)" using css_unsigned_digits [of n] ds by simp
  show ?thesis
    by (simp add: accepts_width_def tr) (simp add: ds sg u)
qed

lemma rejects_minus: "0 < m \<Longrightarrow> \<not> accepts_width (CHR ''-'' # digits m @ ''%'')"
proof -
  assume m: "0 < m"
  obtain sg u where ds: "digits m = sg # u" using digits_nonempty [of m] by (cases "digits m") auto
  have dg: "is_digit sg" using digits_all_digit [of m] ds by simp
  have nz: "sg \<noteq> CHR ''0''" using digits_hd_nonzero [OF m] ds by simp
  have tr: "css_trim (CHR ''-'' # digits m @ ''%'') = CHR ''-'' # digits m @ ''%''"
    by (rule css_trim_id) (simp_all add: not_ws_percent)
  have "\<not> css_zero (sg # u)"
    using dg nz is_digit_plain [OF dg] by (simp add: css_zero_def)
  then show ?thesis
    by (simp add: accepts_width_def tr) (simp add: ds)
qed

lemma accepts_show_int: "accepts_width (show_int n @ ''%'') = (0 \<le> n)"
proof (cases "n < 0")
  case True
  then have "0 < nat (- n)" by simp
  from rejects_minus [OF this] True show ?thesis by (simp add: show_int_def)
next
  case False
  then show ?thesis using accepts_digits [of "nat n"] by (simp add: show_int_def)
qed

lemma set_width_show_int:
  "set_width (show_int n @ ''%'') old = (if 0 \<le> n then show_int n @ ''%'' else old)"
  by (simp add: set_width_def accepts_show_int)

subsection \<open>The example pages\<close>

lemma jb_example_state:
  "activeBanner jb_example = None \<and> trackedJobs jb_example = [] \<and> persistInStorage jb_example
   \<and> showCompletedDuration jb_example = 10000 \<and> maxTrackedJobs jb_example = 5
   \<and> banner_classes jb_example = [''job-status-banner'']
   \<and> intervals jb_example = [(1, 5000)] \<and> timeouts jb_example = []
   \<and> in_flight jb_example = [ActiveJobs ''/check-job-status/''] \<and> fetches jb_example = 1
   \<and> console_errors jb_example = [] \<and> jb_pollTimer jb_example = Some 1
   \<and> jb_pollInterval jb_example = 5000 \<and> banner_progress jb_example = (''0%'', ''0%'')"
  by (simp add: jb_example_def JobStatusBanner_def loadFromStorage_def init_def jb_startPolling_def
      setInterval_def checkActiveJobs_def fetchActiveJobs_def fetch_def Let_def)

lemma example_bars:
  "el_progressBar jp_example = Some \<lparr>width = ''0%'', aria_valuenow = ''0'', classes = [''progress-bar'']\<rparr>"
  "su_progressBar su_example = Some \<lparr>width = ''0%'', aria_valuenow = ''0'', classes = [''progress-bar'']\<rparr>"
  by (simp_all add: jp_example_def su_example_def StatusUpdater_def)

subsection \<open>The progress bar\<close>

lemma js_or_num: "js_string (js_or (JNum n) (JNum 0)) = show_int n"
  by (simp add: js_or_def)

lemma js_or_falsy: "\<not> truthy v \<Longrightarrow> js_string (js_or v (JNum 0)) = ''0''"
  by (simp add: js_or_def show_int_def digits_small digit_def)

lemma set_width_zero: "set_width ''0%'' old = ''0%''"
  using set_width_show_int [of 0 old] by (simp add: show_int_def digits_small digit_def)

lemma jp_progress_bar:
  "\<not> nullish d \<Longrightarrow>
   el_progressBar (updateDisplay d s) = map_option (jp_progress d) (el_progressBar s)"
  by (simp add: updateDisplay_def updatePhaseDisplay_def Let_def split: option.splits sum.splits)

lemma su_progress_bar:
  "\<not> nullish d \<Longrightarrow> \<not> truthy (field d ''job'') \<Longrightarrow>
   su_progressBar (snd (updateStatus d u)) = su_progressBar (updateProgressBar d u)"
  by (simp add: updateStatus_def Let_def js_or_def updateStatusBadge_def updateProgressBar_def
      updateProcessingPhase_def checkForErrors_def split: sum.splits)

lemma su_progress_written:
  "su_progressBar (updateProgressBar d u) =
     map_option
       (\<lambda>bar. bar\<lparr>width := set_width (js_string (js_or (field d ''progress_percent'') (JNum 0)) @ ''%'')
                             (width bar),
                   aria_valuenow := js_string (js_or (field d ''progress_percent'') (JNum 0))\<rparr>)
       (su_progressBar u)"
  by (simp add: updateProgressBar_def Let_def)

lemma trackJob_progress: "banner_progress (trackJob d s) = banner_progress s"
  by (simp add: trackJob_def saveToStorage_def Let_def split: option.splits)

lemma track_completion_progress: "banner_progress (track_completion j ab s) = banner_progress s"
  by (simp add: track_completion_def setTimeout_def Let_def split: prod.splits)

lemma write_banner_progress:
  "fst (write_banner status progress s) = None \<Longrightarrow>
   banner_progress (snd (write_banner status progress s)) =
     (set_width (js_string progress @ ''%'') (fst (banner_progress s)), js_string progress @ ''%'')"
  by (auto simp: write_banner_def Let_def showBanner_def split: sum.splits)

lemma jb_progress_text:
  "truthy (field d ''id'') \<Longrightarrow> fst (updateBanner d b) = None \<Longrightarrow>
   banner_progress (snd (updateBanner d b)) =
     (set_width (js_string (js_or (field d ''progress_percent'') (JNum 0)) @ ''%'')
        (fst (banner_progress b)),
      js_string (js_or (field d ''progress_percent'') (JNum 0)) @ ''%'')"
proof -
  assume id: "truthy (field d ''id'')" and ok: "fst (updateBanner d b) = None"
  have t: "truthy d" using id by (cases d) simp_all
  show ?thesis using ok t id
    by (simp add: updateBanner_def Let_def write_banner_progress track_completion_progress
        trackJob_progress)
qed

lemma clamp_same: "(show_int n = show_int (clamp n 0 100)) = (0 \<le> n \<and> n \<le> 100)"
proof
  assume "show_int n = show_int (clamp n 0 100)"
  then have "n = clamp n 0 100" by (rule show_int_inj)
  then show "0 \<le> n \<and> n \<le> 100" by (simp add: clamp_def max_def min_def split: if_splits)
next
  assume "0 \<le> n \<and> n \<le> 100"
  then show "show_int n = show_int (clamp n 0 100)" by (simp add: clamp_def)
qed

text \<open>
  C3, as the code has it. Take a payload whose \<open>progress_percent\<close> is an integer \<open>n\<close> of
  magnitude below a million, which JavaScript prints in plain decimal notation. None of the
  three renderers clamps it. JobProgress and StatusUpdater (on a payload without a \<open>job\<close>
  wrapper) set \<open>aria-valuenow\<close> to \<open>n\<close> and assign \<open>n%\<close> to the width of their progress bar;
  the banner sets its progress text to \<open>n%\<close> and assigns \<open>n%\<close> to the width of its bar. The
  browser keeps the assigned width when \<open>n\<close> is not negative and ignores it when \<open>n\<close> is
  negative, so that the bar keeps the width it had. What is written is the clamped value
  exactly when \<open>n\<close> already lies in 0..100. A payload whose \<open>progress_percent\<close> is missing or
  falsy is rendered as 0.
\<close>

theorem progress_written_unclamped:
  "(field d ''progress_percent'' = JNum n \<and> \<bar>n\<bar> < 1000000 \<longrightarrow>
      map_option (\<lambda>bar. (width bar, aria_valuenow bar)) (el_progressBar (updateDisplay d s))
        = map_option (\<lambda>bar. (if 0 \<le> n then show_int n @ ''%'' else width bar, show_int n))
            (el_progressBar s)
    \<and> (\<not> truthy (field d ''job'') \<longrightarrow>
         map_option (\<lambda>bar. (width bar, aria_valuenow bar)) (su_progressBar (snd (updateStatus d u)))
           = map_option (\<lambda>bar. (if 0 \<le> n then show_int n @ ''%'' else width bar, show_int n))
               (su_progressBar u))
    \<and> (truthy (field d ''id'') \<and> fst (updateBanner d b) = None \<longrightarrow>
         banner_progress (snd (updateBanner d b))
           = (if 0 \<le> n then show_int n @ ''%'' else fst (banner_progress b), show_int n @ ''%''))
    \<and> ((show_int n = show_int (clamp n 0 100)) = (0 \<le> n \<and> n \<le> 100)))
   \<and> (\<not> nullish d \<and> \<not> truthy (field d ''progress_percent'') \<longrightarrow>
      map_option (\<lambda>bar. (width bar, aria_valuenow bar)) (el_progressBar (updateDisplay d s))
        = map_option (\<lambda>bar. (''0%'', ''0'')) (el_progressBar s)
    \<and> (\<not> truthy (field d ''job'') \<longrightarrow>
         map_option (\<lambda>bar. (width bar, aria_valuenow bar)) (su_progressBar (snd (updateStatus d u)))
           = map_option (\<lambda>bar. (''0%'', ''0'')) (su_progressBar u))
    \<and> (truthy (field d ''id'') \<and> fst (updateBanner d b) = None \<longrightarrow>
         banner_progress (snd (updateBanner d b)) = (''0%'', ''0%'')))"
proof -
  have A: "map_option (\<lambda>bar. (width bar, aria_valuenow bar)) (el_progressBar (updateDisplay d s))
        = map_option (\<lambda>bar. (if 0 \<le> n then show_int n @ ''%'' else width bar, show_int n))
            (el_progressBar s)
    \<and> (\<not> truthy (field d ''job'') \<longrightarrow>
         map_option (\<lambda>bar. (width bar, aria_valuenow bar)) (su_progressBar (snd (updateStatus d u)))
           = map_option (\<lambda>bar. (if 0 \<le> n then show_int n @ ''%'' else width bar, show_int n))
               (su_progressBar u))
    \<and> (truthy (field d ''id'') \<and> fst (updateBanner d b) = None \<longrightarrow>
         banner_progress (snd (updateBanner d b))
           = (if 0 \<le> n then show_int n @ ''%'' else fst (banner_progress b), show_int n @ ''%''))
    \<and> ((show_int n = show_int (clamp n 0 100)) = (0 \<le> n \<and> n \<le> 100))"
    if f: "field d ''progress_percent'' = JNum n"
  proof -
    have obj: "\<not> nullish d" using f by (cases d) (simp_all add: nullish_def)
    have 1: "map_option (\<lambda>bar. (width bar, aria_valuenow bar)) (el_progressBar (updateDisplay d s))
        = map_option (\<lambda>bar. (if 0 \<le> n then show_int n @ ''%'' else width bar, show_int n))
            (el_progressBar s)"
      by (cases "el_progressBar s")
         (simp_all add: jp_progress_bar [OF obj] jp_progress_def Let_def f js_or_num set_width_show_int)
    have 2: "\<not> truthy (field d ''job'') \<longrightarrow>
         map_option (\<lambda>bar. (width bar, aria_valuenow bar)) (su_progressBar (snd (updateStatus d u)))
           = map_option (\<lambda>bar. (if 0 \<le> n then show_int n @ ''%'' else width bar, show_int n))
               (su_progressBar u)"
      by (cases "su_progressBar u")
         (simp_all add: su_progress_bar [OF obj] su_progress_written f js_or_num set_width_show_int)
    have 3: "truthy (field d ''id'') \<and> fst (updateBanner d b) = None \<longrightarrow>
         banner_progress (snd (updateBanner d b))
           = (if 0 \<le> n then show_int n @ ''%'' else fst (banner_progress b), show_int n @ ''%'')"
      by (simp add: jb_progress_text f js_or_num set_width_show_int)
    from 1 2 3 clamp_same [of n] show ?thesis by blast
  qed
  have B: "map_option (\<lambda>bar. (width bar, aria_valuenow bar)) (el_progressBar (updateDisplay d s))
        = map_option (\<lambda>bar. (''0%'', ''0'')) (el_progressBar s)
    \<and> (\<not> truthy (field d ''job'') \<longrightarrow>
         map_option (\<lambda>bar. (width bar, aria_valuenow bar)) (su_progressBar (snd (updateStatus d u)))
           = map_option (\<lambda>bar. (''0%'', ''0'')) (su_progressBar u))
    \<and> (truthy (field d ''id'') \<and> fst (updateBanner d b) = None \<longrightarrow>
         banner_progress (snd (updateBanner d b)) = (''0%'', ''0%''))"
    if obj: "\<not> nullish d" and f: "\<not> truthy (field d ''progress_percent'')"
  proof -
    have z: "js_string (js_or (field d ''progress_percent'') (JNum 0)) = ''0''"
      using f by (rule js_or_falsy)
    have 1: "map_option (\<lambda>bar. (width bar, aria_valuenow bar)) (el_progressBar (updateDisplay d s))
        = map_option (\<lambda>bar. (''0%'', ''0'')) (el_progressBar s)"
      by (cases "el_progressBar s")
         (simp_all add: jp_progress_bar [OF obj] jp_progress_def Let_def z set_width_zero)
    have 2: "\<not> truthy (field d ''job'') \<longrightarrow>
         map_option (\<lambda>bar. (width bar, aria_valuenow bar)) (su_progressBar (snd (updateStatus d u)))
           = map_option (\<lambda>bar. (''0%'', ''0'')) (su_progressBar u)"
      by (cases "su_progressBar u")
         (simp_all add: su_progress_bar [OF obj] su_progress_written z set_width_zero)
    have 3: "truthy (field d ''id'') \<and> fst (updateBanner d b) = None \<longrightarrow>
         banner_progress (snd (updateBanner d b)) = (''0%'', ''0%'')"
      by (simp add: jb_progress_text z set_width_zero)
    from 1 2 3 show ?thesis by blast
  qed
  from A B show ?thesis by blast
qed

lemma processing_banner:
  "field d ''id'' = JNum 7 \<Longrightarrow> field d ''status'' = JStr ''processing'' \<Longrightarrow>
   fst (updateBanner d jb_example) = None"
proof -
  assume i: "field d ''id'' = JNum 7" and st: "field d ''status'' = JStr ''processing''"
  have t: "truthy d" using i by (cases d) simp_all
  show ?thesis using i st t
    by (simp add: updateBanner_def write_banner_def Let_def js_or_def formatStatus_def
        getStatusClass_def getStatusStateClass_def toLowerCase_def toLowerChar_def)
qed

text \<open>
  Payloads that report 150 percent, -20 percent and no progress at all, on the three pages
  as they are loaded: bars at 0%.
\<close>

theorem progress_written_unclamped_witness:
  "field over_payload ''progress_percent'' = JNum 150
   \<and> map_option (\<lambda>bar. (width bar, aria_valuenow bar)) (el_progressBar (updateDisplay over_payload jp_example))
       = Some (''150%'', ''150'')
   \<and> map_option (\<lambda>bar. (width bar, aria_valuenow bar)) (su_progressBar (snd (updateStatus over_payload su_example)))
       = Some (''150%'', ''150'')
   \<and> banner_progress (snd (updateBanner over_payload jb_example)) = (''150%'', ''150%'')
   \<and> show_int 150 \<noteq> show_int (clamp 150 0 100)
   \<and> field under_payload ''progress_percent'' = JNum (- 20)
   \<and> map_option (\<lambda>bar. (width bar, aria_valuenow bar)) (el_progressBar (updateDisplay under_payload jp_example))
       = Some (''0%'', ''-20'')
   \<and> map_option (\<lambda>bar. (width bar, aria_valuenow bar)) (su_progressBar (snd (updateStatus under_payload su_example)))
       = Some (''0%'', ''-20'')
   \<and> banner_progress (snd (updateBanner under_payload jb_example)) = (''0%'', ''-20%'')
   \<and> field (JObj [(''id'', JNum 7), (''status'', JStr ''processing'')]) ''progress_percent'' = Undefined
   \<and> map_option (\<lambda>bar. (width bar, aria_valuenow bar))
       (el_progressBar (updateDisplay (JObj [(''id'', JNum 7), (''status'', JStr ''processing'')])
          (updateDisplay over_payload jp_example)))
       = Some (''0%'', ''0'')"
proof -
  let ?none = "JObj [(''id'', JNum 7), (''status'', JStr ''processing'')]"
  have f: "field over_payload ''progress_percent'' = JNum 150"
          "field under_payload ''progress_percent'' = JNum (- 20)"
          "field ?none ''progress_percent'' = Undefined"
    by (simp_all add: over_payload_def under_payload_def)
  have j: "\<not> truthy (field over_payload ''job'')" "truthy (field over_payload ''id'')"
          "\<not> truthy (field under_payload ''job'')" "truthy (field under_payload ''id'')"
          "\<not> nullish ?none" "\<not> truthy (field ?none ''progress_percent'')"
    by (simp_all add: over_payload_def under_payload_def nullish_def)
  have ok: "fst (updateBanner over_payload jb_example) = None"
           "fst (updateBanner under_payload jb_example) = None"
    by (rule processing_banner; simp add: over_payload_def under_payload_def)+
  have bp: "banner_progress jb_example = (''0%'', ''0%'')" using jb_example_state by simp
  have some: "el_progressBar (updateDisplay over_payload jp_example) \<noteq> None"
    using jp_progress_bar [of over_payload jp_example] example_bars
    by (simp add: over_payload_def nullish_def)
  note o = progress_written_unclamped [of over_payload 150 jp_example su_example jb_example]
  note u = progress_written_unclamped [of under_payload "- 20" jp_example su_example jb_example]
  note z = progress_written_unclamped [of ?none 0 "updateDisplay over_payload jp_example"
             su_example jb_example]
  have O: "map_option (\<lambda>bar. (width bar, aria_valuenow bar)) (el_progressBar (updateDisplay over_payload jp_example))
       = Some (''150%'', ''150'')
     \<and> map_option (\<lambda>bar. (width bar, aria_valuenow bar)) (su_progressBar (snd (updateStatus over_payload su_example)))
       = Some (''150%'', ''150'')
     \<and> banner_progress (snd (updateBanner over_payload jb_example)) = (''150%'', ''150%'')
     \<and> show_int 150 \<noteq> show_int (clamp 150 0 100)"
    using o f j ok example_bars by (simp add: show_int_examples)
  have U: "map_option (\<lambda>bar. (width bar, aria_valuenow bar)) (el_progressBar (updateDisplay under_payload jp_example))
       = Some (''0%'', ''-20'')
     \<and> map_option (\<lambda>bar. (width bar, aria_valuenow bar)) (su_progressBar (snd (updateStatus under_payload su_example)))
       = Some (''0%'', ''-20'')
     \<and> banner_progress (snd (updateBanner under_payload jb_example)) = (''0%'', ''-20%'')"
    using u f j ok example_bars bp by (simp add: show_int_examples)
  have Z: "map_option (\<lambda>bar. (width bar, aria_valuenow bar))
       (el_progressBar (updateDisplay ?none (updateDisplay over_payload jp_example)))
       = Some (''0%'', ''0'')"
    using z j some by auto
  from O U Z f show ?thesis by simp
qed

text \<open>
  The claim fails: for a payload with \<open>progress_percent = 150\<close> JobProgress sets the width
  to 150% and \<open>aria-valuenow\<close> to 150, where the clamp gives 100, and the banner writes 150%
  as well. For \<open>-20\<close> on the bar so left at 150%, JobProgress sets \<open>aria-valuenow\<close> to -20
  and the width stays at 150%, where the clamp gives 0.
\<close>

theorem progress_clamp_counterexample:
  "map_option (\<lambda>bar. (width bar, aria_valuenow bar)) (el_progressBar (updateDisplay over_payload jp_example))
     = Some (''150%'', ''150'')
   \<and> clamp 150 0 100 = 100
   \<and> map_option (\<lambda>bar. (width bar, aria_valuenow bar))
       (el_progressBar (updateDisplay under_payload (updateDisplay over_payload jp_example)))
     = Some (''150%'', ''-20'')
   \<and> clamp (- 20) 0 100 = 0
   \<and> banner_progress (snd (updateBanner over_payload jb_example)) = (''150%'', ''150%'')"
proof -
  have n: "\<not> nullish over_payload" "\<not> nullish under_payload"
    by (simp_all add: over_payload_def under_payload_def nullish_def)
  have w: "set_width ''150%'' ''0%'' = ''150%''" "set_width ''-20%'' ''150%'' = ''150%''"
    using set_width_show_int [of 150 "''0%''"] set_width_show_int [of "- 20" "''150%''"]
    by (simp_all add: show_int_examples)
  have a: "el_progressBar (updateDisplay over_payload jp_example)
     = Some \<lparr>width = ''150%'', aria_valuenow = ''150'', classes = [''progress-bar'']\<rparr>"
    by (simp add: jp_progress_bar [OF n(1)] example_bars)
       (simp add: jp_progress_def Let_def over_payload_def js_or_def show_int_examples w
          classList_remove_def)
  have b: "el_progressBar (updateDisplay under_payload (updateDisplay over_payload jp_example))
     = Some \<lparr>width = ''150%'', aria_valuenow = ''-20'', classes = [''progress-bar'']\<rparr>"
    by (simp add: jp_progress_bar [OF n(2)] a)
       (simp add: jp_progress_def Let_def under_payload_def js_or_def show_int_examples w
          classList_remove_def)
  have ok: "fst (updateBanner over_payload jb_example) = None"
    by (rule processing_banner; simp add: over_payload_def)
  have t: "truthy (field over_payload ''id'')" by (simp add: over_payload_def)
  have c: "banner_progress (snd (updateBanner over_payload jb_example)) = (''150%'', ''150%'')"
    using jb_progress_text [OF t ok] jb_example_state
    by (simp add: over_payload_def js_or_def show_int_examples w)
  show ?thesis using a b c by (simp add: clamp_def)
qed

subsection \<open>The banner: what the handlers change\<close>

lemma jb_fixed_upd [simp]:
  "jb_fixed (s\<lparr>timeouts := a1\<rparr>) = jb_fixed s"
  "jb_fixed (s\<lparr>next_timer := a2\<rparr>) = jb_fixed s"
  "jb_fixed (s\<lparr>in_flight := a3\<rparr>) = jb_fixed s"
  "jb_fixed (s\<lparr>fetches := a4\<rparr>) = jb_fixed s"
  "jb_fixed (s\<lparr>activeBanner := a5\<rparr>) = jb_fixed s"
  "jb_fixed (s\<lparr>trackedJobs := a6\<rparr>) = jb_fixed s"
  "jb_fixed (s\<lparr>banner_classes := a7\<rparr>) = jb_fixed s"
  "jb_fixed (s\<lparr>banner_badge := a8\<rparr>) = jb_fixed s"
  "jb_fixed (s\<lparr>banner_progress := a9\<rparr>) = jb_fixed s"
  "jb_fixed (s\<lparr>localStorage := b1\<rparr>) = jb_fixed s"
  "jb_fixed (s\<lparr>hide_timers := b2\<rparr>) = jb_fixed s"
  "jb_fixed (s\<lparr>console_errors := b3\<rparr>) = jb_fixed s"
  by (simp_all add: jb_fixed_def)

lemma jb_bounded_upd [simp]:
  "jb_bounded (s\<lparr>timeouts := a1\<rparr>) = jb_bounded s"
  "jb_bounded (s\<lparr>next_timer := a2\<rparr>) = jb_bounded s"
  "jb_bounded (s\<lparr>in_flight := a3\<rparr>) = jb_bounded s"
  "jb_bounded (s\<lparr>fetches := a4\<rparr>) = jb_bounded s"
  "jb_bounded (s\<lparr>activeBanner := a5\<rparr>) = jb_bounded s"
  "jb_bounded (s\<lparr>banner_classes := a7\<rparr>) = jb_bounded s"
  "jb_bounded (s\<lparr>banner_badge := a8\<rparr>) = jb_bounded s"
  "jb_bounded (s\<lparr>banner_progress := a9\<rparr>) = jb_bounded s"
  "jb_bounded (s\<lparr>localStorage := b1\<rparr>) = jb_bounded s"
  "jb_bounded (s\<lparr>hide_timers := b2\<rparr>) = jb_bounded s"
  "jb_bounded (s\<lparr>console_errors := b3\<rparr>) = jb_bounded s"
  by (simp_all add: jb_bounded_def)

lemma jb_shown_upd [simp]:
  "jb_shown_has_job (s\<lparr>timeouts := a1\<rparr>) = jb_shown_has_job s"
  "jb_shown_has_job (s\<lparr>next_timer := a2\<rparr>) = jb_shown_has_job s"
  "jb_shown_has_job (s\<lparr>in_flight := a3\<rparr>) = jb_shown_has_job s"
  "jb_shown_has_job (s\<lparr>fetches := a4\<rparr>) = jb_shown_has_job s"
  "jb_shown_has_job (s\<lparr>trackedJobs := a6\<rparr>) = jb_shown_has_job s"
  "jb_shown_has_job (s\<lparr>banner_badge := a8\<rparr>) = jb_shown_has_job s"
  "jb_shown_has_job (s\<lparr>banner_progress := a9\<rparr>) = jb_shown_has_job s"
  "jb_shown_has_job (s\<lparr>localStorage := b1\<rparr>) = jb_shown_has_job s"
  "jb_shown_has_job (s\<lparr>hide_timers := b2\<rparr>) = jb_shown_has_job s"
  "jb_shown_has_job (s\<lparr>console_errors := b3\<rparr>) = jb_shown_has_job s"
  by (simp_all add: jb_shown_has_job_def)

lemma jb_fetch [simp]:
  "jb_fixed (fetch rq s) = jb_fixed s" "jb_bounded (fetch rq s) = jb_bounded s"
  "jb_shown_has_job (fetch rq s) = jb_shown_has_job s"
  "console_errors (fetch rq s) = console_errors s" "trackedJobs (fetch rq s) = trackedJobs s"
  "activeBanner (fetch rq s) = activeBanner s" "banner_classes (fetch rq s) = banner_classes s"
  by (simp_all add: fetch_def)

lemma jb_settled [simp]:
  "jb_fixed (settled i s) = jb_fixed s" "jb_bounded (settled i s) = jb_bounded s"
  "jb_shown_has_job (settled i s) = jb_shown_has_job s"
  "console_errors (settled i s) = console_errors s" "trackedJobs (settled i s) = trackedJobs s"
  "activeBanner (settled i s) = activeBanner s" "banner_classes (settled i s) = banner_classes s"
  "fetches (settled i s) = fetches s"
  by (simp_all add: settled_def)

lemma jb_error_keeps [simp]:
  "jb_fixed (jb_error e s) = jb_fixed s" "jb_bounded (jb_error e s) = jb_bounded s"
  "jb_shown_has_job (jb_error e s) = jb_shown_has_job s"
  by (simp_all add: jb_error_def)

lemma fetchJobStatus_keeps [simp]:
  "jb_fixed (fetchJobStatus j s) = jb_fixed s" "jb_bounded (fetchJobStatus j s) = jb_bounded s"
  "jb_shown_has_job (fetchJobStatus j s) = jb_shown_has_job s"
  by (simp_all add: fetchJobStatus_def)

lemma hideBanner_keeps [simp]:
  "jb_fixed (hideBanner s) = jb_fixed s" "jb_bounded (hideBanner s) = jb_bounded s"
  "jb_shown_has_job (hideBanner s)" "activeBanner (hideBanner s) = None"
  "''active'' \<notin> set (banner_classes (hideBanner s))"
  by (simp_all add: hideBanner_def jb_shown_has_job_def classList_remove_def)

lemma trackJob_fixed [simp]:
  "jb_fixed (trackJob d s) = jb_fixed s" "jb_shown_has_job (trackJob d s) = jb_shown_has_job s"
  "activeBanner (trackJob d s) = activeBanner s"
  by (simp_all add: trackJob_def saveToStorage_def Let_def jb_fixed_def jb_shown_has_job_def
      split: option.splits)

lemma trackJob_bounded: "jb_bounded s \<Longrightarrow> jb_bounded (trackJob d s)"
  by (auto simp: trackJob_def saveToStorage_def Let_def jb_bounded_def split: option.splits)

lemma track_completion_keeps [simp]:
  "jb_fixed (track_completion j ab s) = jb_fixed s"
  "jb_bounded (track_completion j ab s) = jb_bounded s"
  "activeBanner (track_completion j ab s) \<noteq> None"
  by (simp_all add: track_completion_def setTimeout_def Let_def jb_fixed_def jb_bounded_def
      split: prod.splits)

lemma write_banner_keeps [simp]:
  "jb_fixed (snd (write_banner st p s)) = jb_fixed s"
  "jb_bounded (snd (write_banner st p s)) = jb_bounded s"
  "activeBanner (snd (write_banner st p s)) = activeBanner s"
  by (simp_all add: write_banner_def showBanner_def Let_def jb_fixed_def jb_bounded_def
      split: sum.splits)

lemma updateBanner_keeps:
  "jb_fixed (snd (updateBanner d s)) = jb_fixed s"
  "jb_bounded s \<Longrightarrow> jb_bounded (snd (updateBanner d s))"
  "jb_shown_has_job s \<Longrightarrow> jb_shown_has_job (snd (updateBanner d s))"
proof -
  show "jb_fixed (snd (updateBanner d s)) = jb_fixed s"
    by (simp add: updateBanner_def Let_def)
  show "jb_bounded s \<Longrightarrow> jb_bounded (snd (updateBanner d s))"
    by (simp add: updateBanner_def Let_def trackJob_bounded)
  show "jb_shown_has_job s \<Longrightarrow> jb_shown_has_job (snd (updateBanner d s))"
    by (simp add: updateBanner_def Let_def) (simp add: jb_shown_has_job_def)
qed

lemma jobStatus_settle_keeps:
  "jb_fixed (jobStatus_settle r s) = jb_fixed s"
  "jb_bounded s \<Longrightarrow> jb_bounded (jobStatus_settle r s)"
  "jb_shown_has_job s \<Longrightarrow> jb_shown_has_job (jobStatus_settle r s)"
proof -
  show "jb_fixed (jobStatus_settle r s) = jb_fixed s"
    using updateBanner_keeps(1)
    by (auto simp: jobStatus_settle_def split: response.splits body.splits prod.splits option.splits)
       (metis snd_conv)+
  show "jb_bounded s \<Longrightarrow> jb_bounded (jobStatus_settle r s)"
    using updateBanner_keeps(2)
    by (auto simp: jobStatus_settle_def split: response.splits body.splits prod.splits option.splits)
       (metis snd_conv)+
  show "jb_shown_has_job s \<Longrightarrow> jb_shown_has_job (jobStatus_settle r s)"
    using updateBanner_keeps(3)
    by (auto simp: jobStatus_settle_def split: response.splits body.splits prod.splits option.splits)
       (metis snd_conv)+
qed

lemma track_all_keeps:
  "jb_fixed (foldl (\<lambda>s' job. if truthy job \<and> truthy (field job ''id'') then trackJob job s' else s') s jobs)
     = jb_fixed s"
  "jb_bounded s \<Longrightarrow>
   jb_bounded (foldl (\<lambda>s' job. if truthy job \<and> truthy (field job ''id'') then trackJob job s' else s') s jobs)"
  "jb_shown_has_job (foldl (\<lambda>s' job. if truthy job \<and> truthy (field job ''id'') then trackJob job s' else s') s jobs)
     = jb_shown_has_job s"
  by (induction jobs arbitrary: s) (simp_all add: trackJob_bounded)

lemma activeJobs_then_keeps:
  "jb_fixed (activeJobs_then d s) = jb_fixed s"
  "jb_bounded s \<Longrightarrow> jb_bounded (activeJobs_then d s)"
  "jb_shown_has_job s \<Longrightarrow> jb_shown_has_job (activeJobs_then d s)"
  by (simp_all add: activeJobs_then_def Let_def track_all_keeps del: foldl_Cons
      split: jsval.splits list.splits option.splits)

lemma activeJobs_settle_keeps:
  "jb_fixed (activeJobs_settle r s) = jb_fixed s"
  "jb_bounded s \<Longrightarrow> jb_bounded (activeJobs_settle r s)"
  "jb_shown_has_job s \<Longrightarrow> jb_shown_has_job (activeJobs_settle r s)"
  by (simp_all add: activeJobs_settle_def activeJobs_then_keeps split: response.splits body.splits)

lemma checkActiveJobs_keeps [simp]:
  "jb_fixed (checkActiveJobs s) = jb_fixed s" "jb_bounded (checkActiveJobs s) = jb_bounded s"
  "jb_shown_has_job (checkActiveJobs s) = jb_shown_has_job s"
  by (simp_all add: checkActiveJobs_def fetchActiveJobs_def split: list.splits option.splits)

lemma cancelJob_keeps [simp]:
  "jb_fixed (cancelJob j c s) = jb_fixed s" "jb_bounded (cancelJob j c s) = jb_bounded s"
  "jb_shown_has_job (cancelJob j c s) = jb_shown_has_job s"
  by (simp_all add: cancelJob_def)

lemma cancel_settle_keeps [simp]:
  "jb_fixed (cancel_settle r s) = jb_fixed s" "jb_bounded (cancel_settle r s) = jb_bounded s"
  "jb_shown_has_job (cancel_settle r s) = jb_shown_has_job s"
  by (simp_all add: cancel_settle_def split: response.splits body.splits)

lemma jb_step_keeps:
  "jb_fixed (jb_step s ev) = jb_fixed s"
  "jb_bounded s \<Longrightarrow> jb_bounded (jb_step s ev)"
  "jb_shown_has_job s \<Longrightarrow> jb_shown_has_job (jb_step s ev)"
proof -
  show "jb_fixed (jb_step s ev) = jb_fixed s"
  proof (cases ev)
    case (Call c)
    then show ?thesis by (cases c) simp_all
  next
    case (TimerFires t)
    then show ?thesis by (simp add: Let_def split: option.splits)
  next
    case (FetchSettles i r)
    then show ?thesis
      by (simp add: jobStatus_settle_keeps activeJobs_settle_keeps split: jb_request.splits)
  qed
  show "jb_bounded s \<Longrightarrow> jb_bounded (jb_step s ev)"
  proof (cases ev)
    case (Call c)
    assume "jb_bounded s"
    then show ?thesis using Call by (cases c) simp_all
  next
    case (TimerFires t)
    assume "jb_bounded s"
    then show ?thesis using TimerFires by (simp add: Let_def split: option.splits)
  next
    case (FetchSettles i r)
    assume "jb_bounded s"
    then show ?thesis using FetchSettles
      by (simp add: jobStatus_settle_keeps activeJobs_settle_keeps split: jb_request.splits)
  qed
  show "jb_shown_has_job s \<Longrightarrow> jb_shown_has_job (jb_step s ev)"
  proof (cases ev)
    case (Call c)
    assume "jb_shown_has_job s"
    then show ?thesis using Call by (cases c) simp_all
  next
    case (TimerFires t)
    assume "jb_shown_has_job s"
    then show ?thesis using TimerFires by (simp add: Let_def split: option.splits)
  next
    case (FetchSettles i r)
    assume "jb_shown_has_job s"
    then show ?thesis using FetchSettles
      by (simp add: jobStatus_settle_keeps activeJobs_settle_keeps split: jb_request.splits)
  qed
qed

lemma jb_run_keeps:
  "jb_fixed (jb_run s evs) = jb_fixed s"
  "jb_bounded s \<Longrightarrow> jb_bounded (jb_run s evs)"
  "jb_shown_has_job s \<Longrightarrow> jb_shown_has_job (jb_run s evs)"
  unfolding jb_run_def by (induction evs arbitrary: s) (simp_all add: jb_step_keeps)

subsection \<open>The banner as constructed\<close>

lemma loadFromStorage_keeps [simp]:
  "intervals (loadFromStorage s) = intervals s" "timeouts (loadFromStorage s) = timeouts s"
  "next_timer (loadFromStorage s) = next_timer s" "in_flight (loadFromStorage s) = in_flight s"
  "fetches (loadFromStorage s) = fetches s"
  "jb_pollInterval (loadFromStorage s) = jb_pollInterval s"
  "checkEndpoint (loadFromStorage s) = checkEndpoint s"
  "showCompletedDuration (loadFromStorage s) = showCompletedDuration s"
  "persistInStorage (loadFromStorage s) = persistInStorage s"
  "maxTrackedJobs (loadFromStorage s) = maxTrackedJobs s"
  "jb_pollTimer (loadFromStorage s) = jb_pollTimer s"
  "initialized (loadFromStorage s) = initialized s"
  "activeBanner (loadFromStorage s) = activeBanner s"
  "banner_classes (loadFromStorage s) = banner_classes s"
  "cookie (loadFromStorage s) = cookie s" "meta_csrf (loadFromStorage s) = meta_csrf s"
  by (simp_all add: loadFromStorage_def split: storage_item.splits jsval.splits)

lemma checkActiveJobs_fields [simp]:
  "intervals (checkActiveJobs s) = intervals s" "timeouts (checkActiveJobs s) = timeouts s"
  "jb_pollInterval (checkActiveJobs s) = jb_pollInterval s"
  "checkEndpoint (checkActiveJobs s) = checkEndpoint s"
  "showCompletedDuration (checkActiveJobs s) = showCompletedDuration s"
  "persistInStorage (checkActiveJobs s) = persistInStorage s"
  "maxTrackedJobs (checkActiveJobs s) = maxTrackedJobs s"
  "jb_pollTimer (checkActiveJobs s) = jb_pollTimer s"
  "activeBanner (checkActiveJobs s) = activeBanner s"
  "banner_classes (checkActiveJobs s) = banner_classes s"
  "trackedJobs (checkActiveJobs s) = trackedJobs s"
  "console_errors (checkActiveJobs s) = console_errors s"
  "cookie (checkActiveJobs s) = cookie s" "meta_csrf (checkActiveJobs s) = meta_csrf s"
  by (simp_all add: checkActiveJobs_def fetchActiveJobs_def fetchJobStatus_def fetch_def
      split: list.splits option.splits)

lemma init_fresh:
  assumes "\<not> initialized s" and "jb_pollTimer s = None" and "intervals s = []"
      and "next_timer s = 1"
  shows "intervals (init s) = [(1, jb_pollInterval s)]" "jb_pollTimer (init s) = Some 1"
    "jb_pollInterval (init s) = jb_pollInterval s" "checkEndpoint (init s) = checkEndpoint s"
    "showCompletedDuration (init s) = showCompletedDuration s"
    "persistInStorage (init s) = persistInStorage s" "maxTrackedJobs (init s) = maxTrackedJobs s"
    "activeBanner (init s) = activeBanner s" "banner_classes (init s) = banner_classes s"
    "trackedJobs (init s) = trackedJobs s" "console_errors (init s) = console_errors s"
    "cookie (init s) = cookie s" "meta_csrf (init s) = meta_csrf s"
  using assms by (simp_all add: init_def jb_startPolling_def setInterval_def Let_def)

lemma constructed:
  "\<not> disabled \<Longrightarrow>
   jb_fixed (JobStatusBanner ms ep dur persist maxJobs disabled stored now getTime ck meta)
     = ([(1, ms)], Some 1, ms, ep, dur, persist, maxJobs)"
  "\<not> disabled \<Longrightarrow>
   jb_shown_has_job (JobStatusBanner ms ep dur persist maxJobs disabled stored now getTime ck meta)"
  "\<not> disabled \<Longrightarrow>
   cookie (JobStatusBanner ms ep dur persist maxJobs disabled stored now getTime ck meta) = ck
   \<and> meta_csrf (JobStatusBanner ms ep dur persist maxJobs disabled stored now getTime ck meta) = meta"
  by (simp_all add: JobStatusBanner_def Let_def init_fresh jb_fixed_def jb_shown_has_job_def)

subsection \<open>The status badge\<close>

lemma capitalize_examples:
  "capitalize ''pending'' = ''Pending''" "capitalize ''in_progress'' = ''In_progress''"
  "capitalize ''extracting'' = ''Extracting''" "capitalize ''queued'' = ''Queued''"
  by (simp_all add: toUpperChar_def)

lemma toLowerCase_examples:
  "toLowerCase ''pending'' = ''pending''" "toLowerCase ''in_progress'' = ''in_progress''"
  "toLowerCase ''extracting'' = ''extracting''" "toLowerCase ''queued'' = ''queued''"
  "toLowerCase ''Completed'' = ''completed''" "toLowerCase ''RUNNING'' = ''running''"
  by (simp_all add: toLowerCase_def toLowerChar_def)

lemma banner_badge_written:
  "formatStatus v = Inr label \<Longrightarrow> getStatusClass v = Inr cls \<Longrightarrow>
   banner_badge (snd (write_banner v p b)) = (label, ''status-badge '' @ cls)"
proof -
  assume f: "formatStatus v = Inr label" and g: "getStatusClass v = Inr cls"
  have "\<exists>c. getStatusStateClass v = Inr c"
    using f by (auto simp: formatStatus_def getStatusStateClass_def split: if_splits jsval.splits)
  then obtain c where h: "getStatusStateClass v = Inr c" by blast
  show ?thesis by (simp add: write_banner_def f g h Let_def showBanner_def)
qed

lemma jp_status_written:
  "\<not> nullish d \<Longrightarrow> jp_statusText d = Inr t \<Longrightarrow>
   el_status (updateDisplay d s) = map_option (\<lambda>_. t) (el_status s)"
  by (simp add: updateDisplay_def updatePhaseDisplay_def Let_def split: option.splits sum.splits)

text \<open>
  C6, as the code has it. StatusUpdater's badge follows the table of the specification on
  pending, in_progress, processing, waiting, extracting, completed, error and failed, and
  shows Unknown with bg-secondary for every other status, cancelled included. The banner
  matches the status in lower case: it follows the table on processing, waiting,
  completed, error, failed and cancelled, shows running as Running with bg-primary, and
  shows every other status (pending, in_progress and extracting included) with its first
  letter in upper case and bg-secondary, or bg-warning for the status warning.
  JobProgress has no badge class; its status text is Cancelled for cancelled and the
  capitalized status for every string status that is not in_progress, processing,
  completed, error, failed or cancelled. Each of the three writes what its table gives
  into its element.
\<close>

theorem badge_tables:
  "(st \<in> set [''pending'', ''in_progress'', ''processing'', ''waiting'', ''extracting'',
               ''completed'', ''error'', ''failed'']
      \<longrightarrow> su_badge (JStr st) = (fst (spec_badge st), ''bg-'' @ snd (spec_badge st)))
   \<and> (v \<notin> JStr ` set [''pending'', ''in_progress'', ''processing'', ''waiting'', ''extracting'',
               ''completed'', ''error'', ''failed'']
      \<longrightarrow> su_badge v = (''Unknown'', ''bg-secondary''))
   \<and> su_statusBadge (updateStatusBadge d u) =
       map_option (\<lambda>_. (fst (su_badge (field d ''status'')), snd (su_badge (field d ''status'')) @ '' badge''))
         (su_statusBadge u)
   \<and> (toLowerCase st \<in> set [''processing'', ''waiting'', ''completed'', ''error'', ''failed'', ''cancelled'']
      \<longrightarrow> formatStatus (JStr st) = Inr (fst (spec_badge (toLowerCase st)))
          \<and> getStatusClass (JStr st) = Inr (''bg-'' @ snd (spec_badge (toLowerCase st))))
   \<and> (toLowerCase st = ''running''
      \<longrightarrow> formatStatus (JStr st) = Inr ''Running'' \<and> getStatusClass (JStr st) = Inr ''bg-primary'')
   \<and> (is_ascii st \<and> st \<noteq> []
        \<and> toLowerCase st \<notin> set [''running'', ''processing'', ''waiting'', ''completed'', ''error'',
               ''failed'', ''cancelled'']
      \<longrightarrow> formatStatus (JStr st) = Inr (capitalize st)
          \<and> getStatusClass (JStr st)
              = Inr (if toLowerCase st = ''warning'' then ''bg-warning'' else ''bg-secondary''))
   \<and> (formatStatus v = Inr label \<and> getStatusClass v = Inr cls
      \<longrightarrow> banner_badge (snd (write_banner v p b)) = (label, ''status-badge '' @ cls))
   \<and> (field d ''status'' = JStr ''cancelled'' \<longrightarrow> jp_statusText d = Inr ''Cancelled'')
   \<and> (is_ascii st \<and> field d ''status'' = JStr st
        \<and> st \<notin> set [''in_progress'', ''processing'', ''completed'', ''error'', ''failed'', ''cancelled'']
      \<longrightarrow> jp_statusText d = Inr (capitalize st))
   \<and> (\<not> nullish d \<and> jp_statusText d = Inr label
      \<longrightarrow> el_status (updateDisplay d s) = map_option (\<lambda>_. label) (el_status s))"
proof -
  have 1: "st \<in> set [''pending'', ''in_progress'', ''processing'', ''waiting'', ''extracting'',
               ''completed'', ''error'', ''failed'']
      \<longrightarrow> su_badge (JStr st) = (fst (spec_badge st), ''bg-'' @ snd (spec_badge st))"
    by (auto simp: su_badge_def spec_badge_def)
  have 2: "v \<notin> JStr ` set [''pending'', ''in_progress'', ''processing'', ''waiting'', ''extracting'',
               ''completed'', ''error'', ''failed'']
      \<longrightarrow> su_badge v = (''Unknown'', ''bg-secondary'')"
    by (auto simp: su_badge_def)
  have 3: "su_statusBadge (updateStatusBadge d u) =
       map_option (\<lambda>_. (fst (su_badge (field d ''status'')), snd (su_badge (field d ''status'')) @ '' badge''))
         (su_statusBadge u)"
    by (simp add: updateStatusBadge_def split_beta)
  have 4: "toLowerCase st \<in> set [''processing'', ''waiting'', ''completed'', ''error'', ''failed'', ''cancelled'']
      \<longrightarrow> formatStatus (JStr st) = Inr (fst (spec_badge (toLowerCase st)))
          \<and> getStatusClass (JStr st) = Inr (''bg-'' @ snd (spec_badge (toLowerCase st)))"
  proof
    assume a: "toLowerCase st \<in> set [''processing'', ''waiting'', ''completed'', ''error'', ''failed'', ''cancelled'']"
    then have ne: "st \<noteq> []" by (auto simp: toLowerCase_def)
    from a show "formatStatus (JStr st) = Inr (fst (spec_badge (toLowerCase st)))
          \<and> getStatusClass (JStr st) = Inr (''bg-'' @ snd (spec_badge (toLowerCase st)))"
      using ne by (auto simp: formatStatus_def getStatusClass_def spec_badge_def Let_def)
  qed
  have 5: "toLowerCase st = ''running''
      \<longrightarrow> formatStatus (JStr st) = Inr ''Running'' \<and> getStatusClass (JStr st) = Inr ''bg-primary''"
    by (auto simp: formatStatus_def getStatusClass_def Let_def toLowerCase_def)
  have 6: "is_ascii st \<and> st \<noteq> []
        \<and> toLowerCase st \<notin> set [''running'', ''processing'', ''waiting'', ''completed'', ''error'',
               ''failed'', ''cancelled'']
      \<longrightarrow> formatStatus (JStr st) = Inr (capitalize st)
          \<and> getStatusClass (JStr st)
              = Inr (if toLowerCase st = ''warning'' then ''bg-warning'' else ''bg-secondary'')"
    by (simp add: formatStatus_def getStatusClass_def Let_def)
  have 7: "formatStatus v = Inr label \<and> getStatusClass v = Inr cls
      \<longrightarrow> banner_badge (snd (write_banner v p b)) = (label, ''status-badge '' @ cls)"
    using banner_badge_written by blast
  have 8: "field d ''status'' = JStr ''cancelled'' \<longrightarrow> jp_statusText d = Inr ''Cancelled''"
    by (simp add: jp_statusText_def)
  have 9: "is_ascii st \<and> field d ''status'' = JStr st
        \<and> st \<notin> set [''in_progress'', ''processing'', ''completed'', ''error'', ''failed'', ''cancelled'']
      \<longrightarrow> jp_statusText d = Inr (capitalize st)"
    by (simp add: jp_statusText_def)
  have 10: "\<not> nullish d \<and> jp_statusText d = Inr label
      \<longrightarrow> el_status (updateDisplay d s) = map_option (\<lambda>_. label) (el_status s)"
    using jp_status_written by blast
  from 1 2 3 4 5 6 7 8 9 10 show ?thesis by blast
qed

text \<open>
  The statuses completed, Completed, RUNNING and queued and the value \<open>null\<close>; a cancelled
  and a queued job on the JobProgress page.
\<close>

theorem badge_tables_witness:
  "su_badge (JStr ''completed'') = (''Completed'', ''bg-success'')
   \<and> su_badge Null = (''Unknown'', ''bg-secondary'')
   \<and> formatStatus (JStr ''Completed'') = Inr ''Completed''
   \<and> getStatusClass (JStr ''Completed'') = Inr ''bg-success''
   \<and> formatStatus (JStr ''RUNNING'') = Inr ''Running''
   \<and> getStatusClass (JStr ''RUNNING'') = Inr ''bg-primary''
   \<and> formatStatus (JStr ''queued'') = Inr ''Queued''
   \<and> getStatusClass (JStr ''queued'') = Inr ''bg-secondary''
   \<and> banner_badge (snd (write_banner (JStr ''queued'') (JNum 0) jb_example))
       = (''Queued'', ''status-badge bg-secondary'')
   \<and> jp_statusText (JObj [(''status'', JStr ''cancelled'')]) = Inr ''Cancelled''
   \<and> jp_statusText (JObj [(''status'', JStr ''queued'')]) = Inr ''Queued''
   \<and> el_status (updateDisplay (JObj [(''status'', JStr ''queued'')]) jp_example) = Some ''Queued''"
proof -
  let ?q = "JObj [(''status'', JStr ''queued'')]"
  let ?c = "JObj [(''status'', JStr ''cancelled'')]"
  note t = badge_tables [where st = "''completed''" and v = Null and d = "?c" and u = su_example
      and label = "''Cancelled''" and cls = "''bg-secondary''" and p = "JNum 0" and b = jb_example
      and s = jp_example]
  note m = badge_tables [where st = "''Completed''" and v = Null and d = "?c" and u = su_example
      and label = "''Cancelled''" and cls = "''bg-secondary''" and p = "JNum 0" and b = jb_example
      and s = jp_example]
  note r = badge_tables [where st = "''RUNNING''" and v = Null and d = "?c" and u = su_example
      and label = "''Cancelled''" and cls = "''bg-secondary''" and p = "JNum 0" and b = jb_example
      and s = jp_example]
  note q = badge_tables [where st = "''queued''" and v = "JStr ''queued''" and d = "?q" and u = su_example
      and label = "''Queued''" and cls = "''bg-secondary''" and p = "JNum 0" and b = jb_example
      and s = jp_example]
  have asc: "is_ascii ''queued''" by (simp add: is_ascii_def)
  have a: "su_badge (JStr ''completed'') = (''Completed'', ''bg-success'')"
    using t [THEN conjunct1] by (simp add: spec_badge_def)
  have b: "su_badge Null = (''Unknown'', ''bg-secondary'')"
    using t [THEN conjunct2, THEN conjunct1] by auto
  have c: "formatStatus (JStr ''Completed'') = Inr ''Completed''
      \<and> getStatusClass (JStr ''Completed'') = Inr ''bg-success''"
    using m [THEN conjunct2, THEN conjunct2, THEN conjunct2, THEN conjunct1]
    by (simp add: toLowerCase_examples spec_badge_def)
  have d: "formatStatus (JStr ''RUNNING'') = Inr ''Running''
      \<and> getStatusClass (JStr ''RUNNING'') = Inr ''bg-primary''"
    using r [THEN conjunct2, THEN conjunct2, THEN conjunct2, THEN conjunct2, THEN conjunct1]
    by (simp add: toLowerCase_examples)
  have e: "formatStatus (JStr ''queued'') = Inr ''Queued''
      \<and> getStatusClass (JStr ''queued'') = Inr ''bg-secondary''"
    using q [THEN conjunct2, THEN conjunct2, THEN conjunct2, THEN conjunct2, THEN conjunct2,
        THEN conjunct1] asc
    by (simp add: toLowerCase_examples toUpperChar_def)
  have f: "banner_badge (snd (write_banner (JStr ''queued'') (JNum 0) jb_example))
       = (''Queued'', ''status-badge bg-secondary'')"
    using q [THEN conjunct2, THEN conjunct2, THEN conjunct2, THEN conjunct2, THEN conjunct2,
        THEN conjunct2, THEN conjunct1] e by simp
  have g: "jp_statusText ?c = Inr ''Cancelled''"
    using t [THEN conjunct2, THEN conjunct2, THEN conjunct2, THEN conjunct2, THEN conjunct2,
        THEN conjunct2, THEN conjunct2, THEN conjunct1] by simp
  have h: "jp_statusText ?q = Inr ''Queued''"
    using q [THEN conjunct2, THEN conjunct2, THEN conjunct2, THEN conjunct2, THEN conjunct2,
        THEN conjunct2, THEN conjunct2, THEN conjunct2, THEN conjunct1] asc
    by (simp add: toUpperChar_def)
  have i: "el_status (updateDisplay ?q jp_example) = Some ''Queued''"
    using q [THEN conjunct2, THEN conjunct2, THEN conjunct2, THEN conjunct2, THEN conjunct2,
        THEN conjunct2, THEN conjunct2, THEN conjunct2, THEN conjunct2] h
    by (simp add: nullish_def jp_example_def)
  from a b c d e f g h i show ?thesis by blast
qed

text \<open>
  The claim fails: StatusUpdater shows a cancelled job as Unknown, where the table says
  Cancelled; the banner shows a pending job with bg-secondary, where the table says
  warning, shows in_progress as In_progress, where the table says Processing, and shows
  extracting with bg-secondary, where the table says info.
\<close>

theorem badge_table_counterexample:
  "su_badge (JStr ''cancelled'') = (''Unknown'', ''bg-secondary'')
   \<and> spec_badge ''cancelled'' = (''Cancelled'', ''secondary'')
   \<and> getStatusClass (JStr ''pending'') = Inr ''bg-secondary''
   \<and> spec_badge ''pending'' = (''Pending'', ''warning'')
   \<and> formatStatus (JStr ''in_progress'') = Inr ''In_progress''
   \<and> spec_badge ''in_progress'' = (''Processing'', ''primary'')
   \<and> getStatusClass (JStr ''extracting'') = Inr ''bg-secondary''
   \<and> spec_badge ''extracting'' = (''Extracting'', ''info'')"
  by (simp add: su_badge_def spec_badge_def getStatusClass_def formatStatus_def Let_def
      toLowerCase_examples toUpperChar_def)

subsection \<open>The anti-forgery token\<close>











subsection \<open>The tracked jobs\<close>











subsection \<open>The list of active jobs behind a login\<close>

lemma unauthorized_settle:
  "st = 302 \<or> st = 401 \<Longrightarrow>
   activeJobs_settle (Http st b) s = (case activeBanner s of None \<Rightarrow> s | Some ab \<Rightarrow> hideBanner s)"
  by (auto simp: activeJobs_settle_def activeJobs_then_def)

lemma empty_list_settle:
  "activeJobs_settle (Http 200 (Json (JObj [(''active_jobs'', JArr [])]))) s
     = (case activeBanner s of None \<Rightarrow> s | Some ab \<Rightarrow> hideBanner s)"
  by (simp add: activeJobs_settle_def activeJobs_then_def ok_def)

lemma hideBanner_fields:
  "console_errors (hideBanner s) = console_errors s" "fetches (hideBanner s) = fetches s"
  "timeouts (hideBanner s) = timeouts s" "in_flight (hideBanner s) = in_flight s"
  "trackedJobs (hideBanner s) = trackedJobs s"
  by (simp_all add: hideBanner_def)

lemma settled_fields:
  "timeouts (settled i s) = timeouts s" "intervals (settled i s) = intervals s"
  by (simp_all add: settled_def)

text \<open>
  C7. When the request for the list of active jobs settles with status 302 or 401,
  whatever its body, the banner does exactly what it does on the answer
  \<open>{active_jobs: []}\<close>: the request leaves the pending ones, the banner is hidden if it
  shows a job, and nothing else changes. No error is logged, no request is issued, no timer
  is armed or cleared. On a banner that its constructor initialized, after any events, the
  banner is then not shown, the repeating timer is still the one armed at the start, and
  its next tick runs \<open>checkActiveJobs\<close> as ever: with no tracked job it asks for the list of
  active jobs again.
\<close>

theorem unauthorized_is_no_jobs:
  "((st = 302 \<or> st = 401) \<and> i < length (in_flight s) \<and> in_flight s ! i = ActiveJobs url \<longrightarrow>
      jb_step s (FetchSettles i (Http st b))
        = jb_step s (FetchSettles i (Http 200 (Json (JObj [(''active_jobs'', JArr [])]))))
    \<and> jb_step s (FetchSettles i (Http st b))
        = (case activeBanner s of None \<Rightarrow> settled i s | Some ab \<Rightarrow> hideBanner (settled i s))
    \<and> console_errors (jb_step s (FetchSettles i (Http st b))) = console_errors s
    \<and> activeBanner (jb_step s (FetchSettles i (Http st b))) = None
    \<and> fetches (jb_step s (FetchSettles i (Http st b))) = fetches s
    \<and> timeouts (jb_step s (FetchSettles i (Http st b))) = timeouts s
    \<and> trackedJobs (jb_step s (FetchSettles i (Http st b))) = trackedJobs s
    \<and> length (in_flight (jb_step s (FetchSettles i (Http st b)))) = length (in_flight s) - 1
    \<and> jb_fixed (jb_step s (FetchSettles i (Http st b))) = jb_fixed s)
   \<and> (let a = jb_run (JobStatusBanner ms ep dur persist maxJobs False stored now getTime ck meta) evs;
           z = jb_step a (FetchSettles k (Http st b))
       in (st = 302 \<or> st = 401) \<and> k < length (in_flight a) \<and> in_flight a ! k = ActiveJobs url \<longrightarrow>
            ''active'' \<notin> set (banner_classes z)
          \<and> intervals z = [(1, ms)] \<and> jb_pollTimer z = Some 1
          \<and> jb_step z (TimerFires 1) = checkActiveJobs z
          \<and> (trackedJobs z = [] \<longrightarrow>
               in_flight (jb_step z (TimerFires 1)) = in_flight z @ [ActiveJobs ep]
             \<and> fetches (jb_step z (TimerFires 1)) = Suc (fetches z)))"
proof -
  have A: "jb_step s (FetchSettles i (Http st b))
        = jb_step s (FetchSettles i (Http 200 (Json (JObj [(''active_jobs'', JArr [])]))))
    \<and> jb_step s (FetchSettles i (Http st b))
        = (case activeBanner s of None \<Rightarrow> settled i s | Some ab \<Rightarrow> hideBanner (settled i s))
    \<and> console_errors (jb_step s (FetchSettles i (Http st b))) = console_errors s
    \<and> activeBanner (jb_step s (FetchSettles i (Http st b))) = None
    \<and> fetches (jb_step s (FetchSettles i (Http st b))) = fetches s
    \<and> timeouts (jb_step s (FetchSettles i (Http st b))) = timeouts s
    \<and> trackedJobs (jb_step s (FetchSettles i (Http st b))) = trackedJobs s
    \<and> length (in_flight (jb_step s (FetchSettles i (Http st b)))) = length (in_flight s) - 1
    \<and> jb_fixed (jb_step s (FetchSettles i (Http st b))) = jb_fixed s"
    if h: "st = 302 \<or> st = 401" "i < length (in_flight s)" "in_flight s ! i = ActiveJobs url"
    for s i
  proof -
    have e: "jb_step s (FetchSettles i (Http st b))
        = (case activeBanner s of None \<Rightarrow> settled i s | Some ab \<Rightarrow> hideBanner (settled i s))"
      using h by (simp add: unauthorized_settle)
    have f: "jb_step s (FetchSettles i (Http 200 (Json (JObj [(''active_jobs'', JArr [])]))))
        = (case activeBanner s of None \<Rightarrow> settled i s | Some ab \<Rightarrow> hideBanner (settled i s))"
      using h by (simp add: empty_list_settle)
    have l: "length (in_flight (settled i s)) = length (in_flight s) - 1"
      using h(2) by (simp add: settled_def)
    show ?thesis
      unfolding e f using l
      by (cases "activeBanner s") (simp_all add: hideBanner_fields settled_fields)
  qed
  have B: "''active'' \<notin> set (banner_classes z)
          \<and> intervals z = [(1, ms)] \<and> jb_pollTimer z = Some 1
          \<and> jb_step z (TimerFires 1) = checkActiveJobs z
          \<and> (trackedJobs z = [] \<longrightarrow>
               in_flight (jb_step z (TimerFires 1)) = in_flight z @ [ActiveJobs ep]
             \<and> fetches (jb_step z (TimerFires 1)) = Suc (fetches z))"
    if a: "a = jb_run (JobStatusBanner ms ep dur persist maxJobs False stored now getTime ck meta) evs"
      and z: "z = jb_step a (FetchSettles k (Http st b))"
      and h: "st = 302 \<or> st = 401" "k < length (in_flight a)" "in_flight a ! k = ActiveJobs url"
    for a z
  proof -
    have fa: "jb_fixed a = ([(1, ms)], Some 1, ms, ep, dur, persist, maxJobs)"
      unfolding a by (simp add: jb_run_keeps(1) constructed(1))
    have sa: "jb_shown_has_job a"
      unfolding a by (rule jb_run_keeps(3)) (simp add: constructed(2))
    have fz: "jb_fixed z = ([(1, ms)], Some 1, ms, ep, dur, persist, maxJobs)"
      unfolding z using fa by (simp only: jb_step_keeps(1))
    have sz: "jb_shown_has_job z" unfolding z using sa by (rule jb_step_keeps(3))
    have nz: "activeBanner z = None" unfolding z using A [OF h] by blast
    have hid: "''active'' \<notin> set (banner_classes z)" using sz nz by (auto simp: jb_shown_has_job_def)
    have iv: "intervals z = [(1, ms)]" "jb_pollTimer z = Some 1" "checkEndpoint z = ep"
      using fz by (simp_all add: jb_fixed_def)
    have tick: "jb_step z (TimerFires 1) = checkActiveJobs z" using iv by simp
    have nxt: "trackedJobs z = [] \<longrightarrow>
               in_flight (jb_step z (TimerFires 1)) = in_flight z @ [ActiveJobs ep]
             \<and> fetches (jb_step z (TimerFires 1)) = Suc (fetches z)"
      unfolding tick using iv(3) by (simp add: checkActiveJobs_def fetchActiveJobs_def fetch_def)
    from hid iv tick nxt show ?thesis by blast
  qed
  have C: "(st = 302 \<or> st = 401) \<and> i < length (in_flight s) \<and> in_flight s ! i = ActiveJobs url \<longrightarrow>
      jb_step s (FetchSettles i (Http st b))
        = jb_step s (FetchSettles i (Http 200 (Json (JObj [(''active_jobs'', JArr [])]))))
    \<and> jb_step s (FetchSettles i (Http st b))
        = (case activeBanner s of None \<Rightarrow> settled i s | Some ab \<Rightarrow> hideBanner (settled i s))
    \<and> console_errors (jb_step s (FetchSettles i (Http st b))) = console_errors s
    \<and> activeBanner (jb_step s (FetchSettles i (Http st b))) = None
    \<and> fetches (jb_step s (FetchSettles i (Http st b))) = fetches s
    \<and> timeouts (jb_step s (FetchSettles i (Http st b))) = timeouts s
    \<and> trackedJobs (jb_step s (FetchSettles i (Http st b))) = trackedJobs s
    \<and> length (in_flight (jb_step s (FetchSettles i (Http st b)))) = length (in_flight s) - 1
    \<and> jb_fixed (jb_step s (FetchSettles i (Http st b))) = jb_fixed s"
  proof
    assume h: "(st = 302 \<or> st = 401) \<and> i < length (in_flight s) \<and> in_flight s ! i = ActiveJobs url"
    show "jb_step s (FetchSettles i (Http st b))
        = jb_step s (FetchSettles i (Http 200 (Json (JObj [(''active_jobs'', JArr [])]))))
    \<and> jb_step s (FetchSettles i (Http st b))
        = (case activeBanner s of None \<Rightarrow> settled i s | Some ab \<Rightarrow> hideBanner (settled i s))
    \<and> console_errors (jb_step s (FetchSettles i (Http st b))) = console_errors s
    \<and> activeBanner (jb_step s (FetchSettles i (Http st b))) = None
    \<and> fetches (jb_step s (FetchSettles i (Http st b))) = fetches s
    \<and> timeouts (jb_step s (FetchSettles i (Http st b))) = timeouts s
    \<and> trackedJobs (jb_step s (FetchSettles i (Http st b))) = trackedJobs s
    \<and> length (in_flight (jb_step s (FetchSettles i (Http st b)))) = length (in_flight s) - 1
    \<and> jb_fixed (jb_step s (FetchSettles i (Http st b))) = jb_fixed s"
      by (rule A) (use h in simp_all)
  qed
  have D: "let a = jb_run (JobStatusBanner ms ep dur persist maxJobs False stored now getTime ck meta) evs;
           z = jb_step a (FetchSettles k (Http st b))
       in (st = 302 \<or> st = 401) \<and> k < length (in_flight a) \<and> in_flight a ! k = ActiveJobs url \<longrightarrow>
            ''active'' \<notin> set (banner_classes z)
          \<and> intervals z = [(1, ms)] \<and> jb_pollTimer z = Some 1
          \<and> jb_step z (TimerFires 1) = checkActiveJobs z
          \<and> (trackedJobs z = [] \<longrightarrow>
               in_flight (jb_step z (TimerFires 1)) = in_flight z @ [ActiveJobs ep]
             \<and> fetches (jb_step z (TimerFires 1)) = Suc (fetches z))"
    unfolding Let_def
  proof
    let ?a = "jb_run (JobStatusBanner ms ep dur persist maxJobs False stored now getTime ck meta) evs"
    let ?z = "jb_step ?a (FetchSettles k (Http st b))"
    assume h: "(st = 302 \<or> st = 401) \<and> k < length (in_flight ?a) \<and> in_flight ?a ! k = ActiveJobs url"
    show "''active'' \<notin> set (banner_classes ?z)
          \<and> intervals ?z = [(1, ms)] \<and> jb_pollTimer ?z = Some 1
          \<and> jb_step ?z (TimerFires 1) = checkActiveJobs ?z
          \<and> (trackedJobs ?z = [] \<longrightarrow>
               in_flight (jb_step ?z (TimerFires 1)) = in_flight ?z @ [ActiveJobs ep]
             \<and> fetches (jb_step ?z (TimerFires 1)) = Suc (fetches ?z))"
      by (rule B [OF refl refl]) (use h in simp_all)
  qed
  show ?thesis by (rule conjI [OF C D])
qed

text \<open>The banner of a page with nothing stored, whose first request is answered 401.\<close>

theorem unauthorized_is_no_jobs_witness:
  "in_flight jb_example = [ActiveJobs ''/check-job-status/'']
   \<and> jb_step jb_example (FetchSettles 0 (Http 401 (BadJson ''Unexpected token <'')))
       = jb_step jb_example (FetchSettles 0 (Http 200 (Json (JObj [(''active_jobs'', JArr [])]))))
   \<and> jb_step jb_example (FetchSettles 0 (Http 401 (BadJson ''Unexpected token <'')))
       = settled 0 jb_example
   \<and> console_errors (jb_step jb_example (FetchSettles 0 (Http 401 (BadJson ''Unexpected token <'')))) = []
   \<and> ''active'' \<notin> set (banner_classes
         (jb_step jb_example (FetchSettles 0 (Http 401 (BadJson ''Unexpected token <'')))))
   \<and> intervals (jb_step jb_example (FetchSettles 0 (Http 401 (BadJson ''Unexpected token <''))))
       = [(1, 5000)]
   \<and> in_flight (jb_step (jb_step jb_example (FetchSettles 0 (Http 401 (BadJson ''Unexpected token <''))))
        (TimerFires 1)) = [ActiveJobs ''/check-job-status/'']
   \<and> fetches (jb_step (jb_step jb_example (FetchSettles 0 (Http 401 (BadJson ''Unexpected token <''))))
        (TimerFires 1)) = 2"
proof -
  let ?r = "Http 401 (BadJson ''Unexpected token <'')"
  note t = unauthorized_is_no_jobs [where st = 401 and i = 0 and s = jb_example
      and url = "''/check-job-status/''" and b = "BadJson ''Unexpected token <''" and ms = 5000
      and ep = "''/check-job-status/''" and dur = 10000 and persist = True and maxJobs = 5
      and stored = NoItem and now = 0 and getTime = "\<lambda>v. None" and ck = "''csrftoken=abc''"
      and meta = None and evs = "[]" and k = 0]
  have e: "jb_run jb_example [] = jb_example" by (simp add: jb_run_def)
  have x: "in_flight jb_example = [ActiveJobs ''/check-job-status/'']"
          "activeBanner jb_example = None" "console_errors jb_example = []"
          "trackedJobs jb_example = []" "fetches jb_example = 1"
    using jb_example_state by simp_all
  have h: "(401 = (302::nat) \<or> 401 = (401::nat)) \<and> 0 < length (in_flight jb_example)
           \<and> in_flight jb_example ! 0 = ActiveJobs ''/check-job-status/''"
    by (simp add: x)
  note p = t [THEN conjunct1, rule_format, OF h]
  note q = t [THEN conjunct2, unfolded Let_def, folded jb_example_def, unfolded e, rule_format, OF h]
  let ?z = "jb_step jb_example (FetchSettles 0 ?r)"
  have z: "?z = settled 0 jb_example"
    using p [THEN conjunct2, THEN conjunct1] by (simp only: x(2) option.case)
  have zi: "in_flight ?z = []" "trackedJobs ?z = []" "fetches ?z = 1"
    unfolding z using x by (simp_all add: settled_def)
  have c1: "?z = jb_step jb_example (FetchSettles 0 (Http 200 (Json (JObj [(''active_jobs'', JArr [])]))))"
    by (rule p [THEN conjunct1])
  have c3: "console_errors ?z = []"
    using p [THEN conjunct2, THEN conjunct2, THEN conjunct1] by (simp only: x(3))
  have c4: "''active'' \<notin> set (banner_classes ?z)" "intervals ?z = [(1, 5000)]"
    using q [THEN conjunct1] q [THEN conjunct2, THEN conjunct1] by this+
  have "in_flight (jb_step ?z (TimerFires 1)) = in_flight ?z @ [ActiveJobs ''/check-job-status/'']
            \<and> fetches (jb_step ?z (TimerFires 1)) = Suc (fetches ?z)"
    using q [THEN conjunct2, THEN conjunct2, THEN conjunct2, THEN conjunct2] zi(2) by blast
  then have c5: "in_flight (jb_step ?z (TimerFires 1)) = [ActiveJobs ''/check-job-status/'']
            \<and> fetches (jb_step ?z (TimerFires 1)) = 2"
    by (simp only: zi) simp
  from x(1) c1 z c3 c4 c5 show ?thesis by blast
qed

subsection \<open>Requests in flight\<close>

lemma jb_tick:
  "t \<in> fst ` set (intervals s) \<Longrightarrow> trackedJobs s = [] \<Longrightarrow>
   in_flight (jb_step s (TimerFires t)) = in_flight s @ [ActiveJobs (checkEndpoint s)]
   \<and> fetches (jb_step s (TimerFires t)) = Suc (fetches s)
   \<and> intervals (jb_step s (TimerFires t)) = intervals s
   \<and> trackedJobs (jb_step s (TimerFires t)) = []
   \<and> checkEndpoint (jb_step s (TimerFires t)) = checkEndpoint s"
  by (simp add: checkActiveJobs_def fetchActiveJobs_def fetch_def)

lemma jb_constructed_idle:
  "in_flight (JobStatusBanner ms ep dur persist maxJobs False NoItem now getTime ck meta)
     = [ActiveJobs ep]
   \<and> intervals (JobStatusBanner ms ep dur persist maxJobs False NoItem now getTime ck meta) = [(1, ms)]
   \<and> trackedJobs (JobStatusBanner ms ep dur persist maxJobs False NoItem now getTime ck meta) = []
   \<and> checkEndpoint (JobStatusBanner ms ep dur persist maxJobs False NoItem now getTime ck meta) = ep"
  by (simp add: JobStatusBanner_def loadFromStorage_def init_def jb_startPolling_def
      setInterval_def checkActiveJobs_def fetchActiveJobs_def fetch_def Let_def)

lemma jb_ticks:
  "in_flight (jb_run (JobStatusBanner ms ep dur persist maxJobs False NoItem now getTime ck meta)
      (replicate n (TimerFires 1))) = replicate (Suc n) (ActiveJobs ep)
   \<and> intervals (jb_run (JobStatusBanner ms ep dur persist maxJobs False NoItem now getTime ck meta)
      (replicate n (TimerFires 1))) = [(1, ms)]
   \<and> trackedJobs (jb_run (JobStatusBanner ms ep dur persist maxJobs False NoItem now getTime ck meta)
      (replicate n (TimerFires 1))) = []
   \<and> checkEndpoint (jb_run (JobStatusBanner ms ep dur persist maxJobs False NoItem now getTime ck meta)
      (replicate n (TimerFires 1))) = ep"
proof (induction n)
  case 0
  then show ?case using jb_constructed_idle [of ms ep dur persist maxJobs now getTime ck meta]
    by (simp add: jb_run_def)
next
  case (Suc n)
  let ?s = "jb_run (JobStatusBanner ms ep dur persist maxJobs False NoItem now getTime ck meta)
      (replicate n (TimerFires 1))"
  have r: "replicate (Suc n) (TimerFires 1 :: jb_call event) = replicate n (TimerFires 1) @ [TimerFires 1]"
    by (simp add: replicate_append_same)
  have e: "jb_run (JobStatusBanner ms ep dur persist maxJobs False NoItem now getTime ck meta)
      (replicate (Suc n) (TimerFires 1)) = jb_step ?s (TimerFires 1)"
    by (simp only: r) (simp add: jb_run_def)
  have "1 \<in> fst ` set (intervals ?s)" "trackedJobs ?s = []" using Suc by simp_all
  from jb_tick [OF this] Suc show ?case
    by (simp only: e) (simp add: replicate_append_same)
qed

text \<open>
  C4, as the code has it. JobProgress and the banner poll on a repeating timer: each tick
  issues a request whatever is still pending, so after the start and \<open>n\<close> ticks without an
  answer \<open>n + 1\<close> requests are in flight (for the banner: while no job is tracked).
  StatusUpdater alone waits: started once and driven by its timers and responses only, it
  has no repeating timer and at most one request or one-shot timer pending at any time, so
  a request is issued only after the one before it has settled.
\<close>

theorem polling_schedules:
  "(JobProgress jjid url jms jbar st c ph = Inr jnew \<longrightarrow>
      in_flight (jp_run jnew (Call StartTracking # replicate n (TimerFires 1)))
        = replicate (Suc n) (jp_url jnew)
    \<and> intervals (jp_run jnew (Call StartTracking # replicate n (TimerFires 1))) = [(1, jms)])
   \<and> (t \<in> fst ` set (intervals j) \<longrightarrow>
        in_flight (jp_step j (TimerFires t)) = in_flight j @ [jp_url j]
      \<and> intervals (jp_step j (TimerFires t)) = intervals j)
   \<and> in_flight (jb_run (JobStatusBanner ms ep dur persist maxJobs False NoItem now getTime ck meta)
        (replicate n (TimerFires 1))) = replicate (Suc n) (ActiveJobs ep)
   \<and> intervals (jb_run (JobStatusBanner ms ep dur persist maxJobs False NoItem now getTime ck meta)
        (replicate n (TimerFires 1))) = [(1, ms)]
   \<and> (t \<in> fst ` set (intervals b) \<and> trackedJobs b = [] \<longrightarrow>
        in_flight (jb_step b (TimerFires t)) = in_flight b @ [ActiveJobs (checkEndpoint b)]
      \<and> intervals (jb_step b (TimerFires t)) = intervals b)
   \<and> (\<not> list_ex from_page evs \<longrightarrow>
        (let a = su_run (startPolling jid (StatusUpdater sms sep maxr bar counts badge err steps)) evs
         in intervals a = [] \<and> length (in_flight a) + length (timeouts a) \<le> 1))"
proof -
  have 1: "JobProgress jjid url jms jbar st c ph = Inr jnew \<longrightarrow>
      in_flight (jp_run jnew (Call StartTracking # replicate n (TimerFires 1)))
        = replicate (Suc n) (jp_url jnew)
    \<and> intervals (jp_run jnew (Call StartTracking # replicate n (TimerFires 1))) = [(1, jms)]"
    using jp_ticks by blast
  have 2: "t \<in> fst ` set (intervals j) \<longrightarrow>
        in_flight (jp_step j (TimerFires t)) = in_flight j @ [jp_url j]
      \<and> intervals (jp_step j (TimerFires t)) = intervals j"
    using jp_tick by blast
  have 3: "in_flight (jb_run (JobStatusBanner ms ep dur persist maxJobs False NoItem now getTime ck meta)
        (replicate n (TimerFires 1))) = replicate (Suc n) (ActiveJobs ep)"
    and 4: "intervals (jb_run (JobStatusBanner ms ep dur persist maxJobs False NoItem now getTime ck meta)
        (replicate n (TimerFires 1))) = [(1, ms)]"
    using jb_ticks [of ms ep dur persist maxJobs now getTime ck meta n] by blast+
  have 5: "t \<in> fst ` set (intervals b) \<and> trackedJobs b = [] \<longrightarrow>
        in_flight (jb_step b (TimerFires t)) = in_flight b @ [ActiveJobs (checkEndpoint b)]
      \<and> intervals (jb_step b (TimerFires t)) = intervals b"
    using jb_tick by blast
  have 6: "\<not> list_ex from_page evs \<longrightarrow>
        (let a = su_run (startPolling jid (StatusUpdater sms sep maxr bar counts badge err steps)) evs
         in intervals a = [] \<and> length (in_flight a) + length (timeouts a) \<le> 1)"
    using su_serial_run [OF su_serial_start, of evs jid sms sep maxr bar counts badge err steps]
    by (simp add: su_serial_def Let_def)
  show ?thesis by (intro conjI 1 2 3 4 5 6)
qed

text \<open>
  The JobProgress page after its start and two ticks, the banner after two ticks, and
  StatusUpdater after a response, the timer it armed, and a second response.
\<close>

theorem polling_schedules_witness:
  "length (in_flight (jp_run jp_example [Call StartTracking, TimerFires 1, TimerFires 1])) = 3
   \<and> intervals (jp_run jp_example [Call StartTracking, TimerFires 1, TimerFires 1]) = [(1, 3000)]
   \<and> in_flight (jb_run jb_example [TimerFires 1, TimerFires 1])
       = [ActiveJobs ''/check-job-status/'', ActiveJobs ''/check-job-status/'',
          ActiveJobs ''/check-job-status/'']
   \<and> length (in_flight (jb_step jb_example (TimerFires 1))) = 2
   \<and> length (in_flight (jp_step (startTracking jp_example) (TimerFires 1))) = 2
   \<and> length (in_flight (su_run (startPolling ''7'' su_example)
        [FetchSettles 0 (Http 200 (Json over_payload)), TimerFires 1,
         FetchSettles 0 (Http 200 (Json over_payload))]))
      + length (timeouts (su_run (startPolling ''7'' su_example)
        [FetchSettles 0 (Http 200 (Json over_payload)), TimerFires 1,
         FetchSettles 0 (Http 200 (Json over_payload))])) \<le> 1"
proof -
  let ?evs = "[FetchSettles 0 (Http 200 (Json over_payload)), TimerFires 1,
         FetchSettles 0 (Http 200 (Json over_payload))] :: su_call event list"
  have c: "JobProgress ''42'' ''/check-job-status/'' 3000
             (Some \<lparr>width = ''0%'', aria_valuenow = ''0'', classes = [''progress-bar'']\<rparr>)
             (Some []) True (\<lambda>n. Some []) = Inr jp_example"
    by (simp add: JobProgress_def jp_example_def)
  note t = polling_schedules [where jjid = "''42''" and url = "''/check-job-status/''" and jms = 3000
      and jbar = "Some \<lparr>width = ''0%'', aria_valuenow = ''0'', classes = [''progress-bar'']\<rparr>"
      and st = "Some []" and c = True and ph = "\<lambda>n. Some []" and jnew = jp_example and n = 2
      and t = 1 and j = "startTracking jp_example" and ms = 5000 and ep = "''/check-job-status/''"
      and dur = 10000 and persist = True and maxJobs = 5 and now = 0 and getTime = "\<lambda>v. None"
      and ck = "''csrftoken=abc''" and meta = None and b = jb_example and evs = "?evs"
      and jid = "''7''" and sms = 2000 and sep = "''/check-job-status/''" and maxr = 5
      and bar = "Some \<lparr>width = ''0%'', aria_valuenow = ''0'', classes = [''progress-bar'']\<rparr>"
      and counts = "Some (''0'', ''0'')" and badge = "Some (''Initializing'', ''badge bg-info'')"
      and err = "Some ([], ''none'')"
      and steps = "map (\<lambda>p. (p, if p = ''initializing'' then [''step-indicator'', ''active'']
                       else [''step-indicator''])) su_phases", folded jb_example_def su_example_def]
  have r2: "replicate 2 x = [x, x]" for x :: "'a"
    by (simp add: numeral_2_eq_2)
  have a: "in_flight (jp_run jp_example [Call StartTracking, TimerFires 1, TimerFires 1])
             = replicate 3 (jp_url jp_example)
           \<and> intervals (jp_run jp_example [Call StartTracking, TimerFires 1, TimerFires 1]) = [(1, 3000)]"
    using t [THEN conjunct1] c by (simp add: r2)
  have b: "in_flight (jb_run jb_example [TimerFires 1, TimerFires 1])
             = replicate 3 (ActiveJobs ''/check-job-status/'')"
    using t [THEN conjunct2, THEN conjunct2, THEN conjunct1] by (simp add: r2)
  have x: "intervals jb_example = [(1, 5000)]" "trackedJobs jb_example = []"
          "in_flight jb_example = [ActiveJobs ''/check-job-status/'']"
          "checkEndpoint jb_example = ''/check-job-status/''"
    using jb_example_state jb_constructed_idle [of 5000 "''/check-job-status/''" 10000 True 5 0
        "\<lambda>v. None" "''csrftoken=abc''" None]
    by (simp_all add: jb_example_def)
  have d: "length (in_flight (jb_step jb_example (TimerFires 1))) = 2"
    using t [THEN conjunct2, THEN conjunct2, THEN conjunct2, THEN conjunct2, THEN conjunct1] x
    by simp
  have e: "length (in_flight (su_run (startPolling ''7'' su_example) ?evs))
      + length (timeouts (su_run (startPolling ''7'' su_example) ?evs)) \<le> 1"
    using t [THEN conjunct2, THEN conjunct2, THEN conjunct2, THEN conjunct2, THEN conjunct2]
    by (simp add: Let_def)
  have f: "length (in_flight (jp_step (startTracking jp_example) (TimerFires 1))) = 2"
    using t [THEN conjunct2, THEN conjunct1] jp_started [OF c] by simp
  from a b d e f show ?thesis by (simp add: numeral_3_eq_3)
qed

text \<open>
  The claim fails for JobProgress and for the banner: one tick of the repeating timer
  before the first answer, and two requests are in flight.
\<close>

theorem single_flight_counterexample:
  "in_flight (jp_run jp_example [Call StartTracking, TimerFires 1])
     = [''/check-job-status/?job_id=42&_='', ''/check-job-status/?job_id=42&_='']
   \<and> in_flight (jb_run jb_example [TimerFires 1])
     = [ActiveJobs ''/check-job-status/'', ActiveJobs ''/check-job-status/'']"
proof -
  have c: "JobProgress ''42'' ''/check-job-status/'' 3000
             (Some \<lparr>width = ''0%'', aria_valuenow = ''0'', classes = [''progress-bar'']\<rparr>)
             (Some []) True (\<lambda>n. Some []) = Inr jp_example"
    by (simp add: JobProgress_def jp_example_def)
  have u: "jp_url jp_example = ''/check-job-status/?job_id=42&_=''"
    by (simp add: jp_url_def jp_example_def)
  have a: "in_flight (jp_run jp_example [Call StartTracking, TimerFires 1])
     = [''/check-job-status/?job_id=42&_='', ''/check-job-status/?job_id=42&_='']"
    using jp_ticks [OF c, of 1] u by simp
  have b: "in_flight (jb_run jb_example [TimerFires 1])
     = [ActiveJobs ''/check-job-status/'', ActiveJobs ''/check-job-status/'']"
    using jb_ticks [of 5000 "''/check-job-status/''" 10000 True 5 0 "\<lambda>v. None" "''csrftoken=abc''" None 1]
    by (simp add: jb_example_def)
  from a b show ?thesis by simp
qed

subsection \<open>The phase indicators\<close>

lemma phase_class_cases:
  "phase_class ph n \<in> set [''phase-active'', ''phase-complete'', ''phase-pending'']"
  by (simp add: phase_class_def)

lemma phase_element:
  "classList_add (phase_class ph n)
     (classList_remove [''phase-active'', ''phase-complete'', ''phase-pending''] cl)
   = filter (\<lambda>c. c \<notin> set [''phase-active'', ''phase-complete'', ''phase-pending'']) cl
       @ [phase_class ph n]"
  using phase_class_cases [of ph n] by (auto simp: classList_add_def classList_remove_def)

lemma updatePhaseDisplay_elements:
  "el_phases (updatePhaseDisplay ph s) =
     map (\<lambda>(n, el). (n, map_option
            (\<lambda>cl. filter (\<lambda>c. c \<notin> set [''phase-active'', ''phase-complete'', ''phase-pending'']) cl
                     @ [phase_class ph n]) el))
       (el_phases s)"
  by (simp add: updatePhaseDisplay_def phase_element)

lemma phase_classes_known:
  "p \<in> set jp_phase_names \<Longrightarrow>
   map (phase_class (JStr p)) jp_phase_names =
     map (\<lambda>n. ''phase-complete'') (takeWhile (\<lambda>n. n \<noteq> p) jp_phase_names)
       @ ''phase-active'' # map (\<lambda>n. ''phase-pending'') (tl (dropWhile (\<lambda>n. n \<noteq> p) jp_phase_names))"
  by (auto simp: jp_phase_names_def phase_class_def phaseOrder_or0_def phaseOrder_def)

lemma phase_classes_unknown:
  "js_string ph \<notin> set jp_phase_names \<Longrightarrow>
   map (phase_class ph) jp_phase_names = map (\<lambda>n. ''phase-pending'') jp_phase_names"
proof -
  assume a: "js_string ph \<notin> set jp_phase_names"
  then have o: "phaseOrder_or0 ph = 0"
    by (auto simp: phaseOrder_or0_def phaseOrder_def jp_phase_names_def split: option.splits if_splits)
  have "JStr n \<noteq> ph" if "n \<in> set jp_phase_names" for n using a that by auto
  then show ?thesis by (simp add: phase_class_def o)
qed

lemma phases_dispatch:
  "\<not> nullish d \<Longrightarrow> \<not> truthy (field d ''current_phase'') \<Longrightarrow>
   el_phases (updateDisplay d s) = el_phases s"
  "\<not> nullish d \<Longrightarrow> el_phases_container s \<Longrightarrow> truthy (field d ''current_phase'') \<Longrightarrow>
   \<not> isl (jp_statusText d) \<Longrightarrow>
   el_phases (updateDisplay d s) = el_phases (updatePhaseDisplay (field d ''current_phase'') s)"
  by (auto simp: updateDisplay_def updatePhaseDisplay_def Let_def split: option.splits sum.splits)

lemma su_currentPhase_string:
  "field d ''status'' \<noteq> JStr ''completed'' \<Longrightarrow>
   js_or (field d ''processing_details'') (JStr []) = JStr det \<Longrightarrow>
   su_currentPhase d =
     Inr (if str_includes det ''extracting'' \<or> str_includes det ''extraction'' then ''extracting''
          else if str_includes det ''processing'' then ''processing''
          else if str_includes det ''sending'' then ''sending''
          else if str_includes det ''preparing'' then ''preparing''
          else ''initializing'')"
  by (auto simp: su_currentPhase_def first_including_def js_includes_def Let_def
      split: bool.splits)

lemma su_currentPhase_ignores:
  "su_currentPhase (JObj ((''current_phase'', v) # kvs)) = su_currentPhase (JObj kvs)"
  by (simp add: su_currentPhase_def)

lemma activate_flags_after:
  "cur \<notin> set (map fst inds) \<Longrightarrow>
   map (\<lambda>(p, cl). (p, ''active'' \<in> set cl))
     (activate cur True (map (\<lambda>(p, cl). (p, classList_remove [''active''] cl)) inds))
   = map (\<lambda>p. (p, False)) (map fst inds)"
  by (induction inds) (auto simp: classList_remove_def)

lemma activate_flags:
  "distinct (map fst inds) \<Longrightarrow>
   map (\<lambda>(p, cl). (p, ''active'' \<in> set cl))
     (activate cur False (map (\<lambda>(p, cl). (p, classList_remove [''active''] cl)) inds))
   = map (\<lambda>p. (p, True)) (takeWhile (\<lambda>p. p \<noteq> cur) (map fst inds))
     @ (case dropWhile (\<lambda>p. p \<noteq> cur) (map fst inds) of
          [] \<Rightarrow> []
        | c # rest \<Rightarrow> (c, True) # map (\<lambda>p. (p, False)) rest)"
proof (induction inds)
  case Nil
  then show ?case by simp
next
  case (Cons x inds)
  obtain p cl where x: "x = (p, cl)" by (cases x)
  show ?case
  proof (cases "p = cur")
    case True
    then have "cur \<notin> set (map fst inds)" using Cons.prems x by simp
    from activate_flags_after [OF this] True show ?thesis
      by (simp add: x classList_add_def)
  next
    case False
    then show ?thesis using Cons x by (simp add: classList_add_def)
  qed
qed

text \<open>
  C5, as the code has it. JobProgress orders the phases initializing, preparing,
  extracting, processing, sending, completed. Given one of these as the current phase, it
  marks the phases before it in that order complete, the phase itself active and the
  phases after it pending; given any other value, it marks every phase pending. Each phase
  element ends with exactly one of the three marks. JobProgress takes the phase from
  \<open>current_phase\<close> only: without it the marks stay as they are. StatusUpdater never reads
  \<open>current_phase\<close>: the phase is completed when the status is completed, and otherwise the
  first of extracting (for the words extracting or extraction), processing, sending,
  preparing that the details contain, or initializing. It puts the one class \<open>active\<close> on
  the indicators of the page up to and including the one of that phase, and on all of them
  when none has that phase.
\<close>

theorem phase_display:
  "(p \<in> set jp_phase_names \<longrightarrow>
      map (phase_class (JStr p)) jp_phase_names =
        map (\<lambda>n. ''phase-complete'') (takeWhile (\<lambda>n. n \<noteq> p) jp_phase_names)
          @ ''phase-active'' # map (\<lambda>n. ''phase-pending'') (tl (dropWhile (\<lambda>n. n \<noteq> p) jp_phase_names)))
   \<and> (js_string ph \<notin> set jp_phase_names \<longrightarrow>
      map (phase_class ph) jp_phase_names = map (\<lambda>n. ''phase-pending'') jp_phase_names)
   \<and> el_phases (updatePhaseDisplay ph s) =
       map (\<lambda>(n, el). (n, map_option
              (\<lambda>cl. filter (\<lambda>c. c \<notin> set [''phase-active'', ''phase-complete'', ''phase-pending'']) cl
                       @ [phase_class ph n]) el))
         (el_phases s)
   \<and> (\<not> nullish d \<and> \<not> truthy (field d ''current_phase'') \<longrightarrow>
      el_phases (updateDisplay d s) = el_phases s)
   \<and> (\<not> nullish d \<and> el_phases_container s \<and> truthy (field d ''current_phase'')
        \<and> \<not> isl (jp_statusText d) \<longrightarrow>
      el_phases (updateDisplay d s) = el_phases (updatePhaseDisplay (field d ''current_phase'') s))
   \<and> (field d ''status'' = JStr ''completed'' \<longrightarrow> su_currentPhase d = Inr ''completed'')
   \<and> (field d ''status'' \<noteq> JStr ''completed''
        \<and> js_or (field d ''processing_details'') (JStr []) = JStr det \<longrightarrow>
      su_currentPhase d =
        Inr (if str_includes det ''extracting'' \<or> str_includes det ''extraction'' then ''extracting''
             else if str_includes det ''processing'' then ''processing''
             else if str_includes det ''sending'' then ''sending''
             else if str_includes det ''preparing'' then ''preparing''
             else ''initializing''))
   \<and> su_currentPhase (JObj ((''current_phase'', v) # kvs)) = su_currentPhase (JObj kvs)
   \<and> (su_currentPhase d = Inr cur \<and> distinct (map fst (su_stepIndicators u)) \<longrightarrow>
      map_sum (\<lambda>e. ())
        (\<lambda>w. map (\<lambda>(n, cl). (n, ''active'' \<in> set cl)) (su_stepIndicators w))
        (updateProcessingPhase d u)
      = Inr (map (\<lambda>n. (n, True)) (takeWhile (\<lambda>n. n \<noteq> cur) (map fst (su_stepIndicators u)))
             @ (case dropWhile (\<lambda>n. n \<noteq> cur) (map fst (su_stepIndicators u)) of
                  [] \<Rightarrow> []
                | c # rest \<Rightarrow> (c, True) # map (\<lambda>n. (n, False)) rest)))"
proof -
  have 1: "p \<in> set jp_phase_names \<longrightarrow>
      map (phase_class (JStr p)) jp_phase_names =
        map (\<lambda>n. ''phase-complete'') (takeWhile (\<lambda>n. n \<noteq> p) jp_phase_names)
          @ ''phase-active'' # map (\<lambda>n. ''phase-pending'') (tl (dropWhile (\<lambda>n. n \<noteq> p) jp_phase_names))"
    using phase_classes_known by blast
  have 2: "js_string ph \<notin> set jp_phase_names \<longrightarrow>
      map (phase_class ph) jp_phase_names = map (\<lambda>n. ''phase-pending'') jp_phase_names"
    using phase_classes_unknown by blast
  have 4: "\<not> nullish d \<and> \<not> truthy (field d ''current_phase'') \<longrightarrow>
      el_phases (updateDisplay d s) = el_phases s"
    using phases_dispatch(1) by blast
  have 5: "\<not> nullish d \<and> el_phases_container s \<and> truthy (field d ''current_phase'')
        \<and> \<not> isl (jp_statusText d) \<longrightarrow>
      el_phases (updateDisplay d s) = el_phases (updatePhaseDisplay (field d ''current_phase'') s)"
    using phases_dispatch(2) by blast
  have 6: "field d ''status'' = JStr ''completed'' \<longrightarrow> su_currentPhase d = Inr ''completed''"
    by (simp add: su_currentPhase_def)
  have 7: "field d ''status'' \<noteq> JStr ''completed''
        \<and> js_or (field d ''processing_details'') (JStr []) = JStr det \<longrightarrow>
      su_currentPhase d =
        Inr (if str_includes det ''extracting'' \<or> str_includes det ''extraction'' then ''extracting''
             else if str_includes det ''processing'' then ''processing''
             else if str_includes det ''sending'' then ''sending''
             else if str_includes det ''preparing'' then ''preparing''
             else ''initializing'')"
    using su_currentPhase_string by blast
  have 9: "su_currentPhase d = Inr cur \<and> distinct (map fst (su_stepIndicators u)) \<longrightarrow>
      map_sum (\<lambda>e. ())
        (\<lambda>w. map (\<lambda>(n, cl). (n, ''active'' \<in> set cl)) (su_stepIndicators w))
        (updateProcessingPhase d u)
      = Inr (map (\<lambda>n. (n, True)) (takeWhile (\<lambda>n. n \<noteq> cur) (map fst (su_stepIndicators u)))
             @ (case dropWhile (\<lambda>n. n \<noteq> cur) (map fst (su_stepIndicators u)) of
                  [] \<Rightarrow> []
                | c # rest \<Rightarrow> (c, True) # map (\<lambda>n. (n, False)) rest))"
    by (simp add: updateProcessingPhase_def activate_flags)
  show ?thesis
    by (intro conjI 1 2 updatePhaseDisplay_elements 4 5 6 7 su_currentPhase_ignores 9)
qed

text \<open>
  The phases sending and extracting and the value 5 on the JobProgress page; a payload
  without \<open>current_phase\<close>; and StatusUpdater on details that mention two phases.
\<close>

theorem phase_display_witness:
  "map (phase_class (JStr ''sending'')) jp_phase_names
     = [''phase-complete'', ''phase-complete'', ''phase-complete'', ''phase-complete'',
        ''phase-active'', ''phase-pending'']
   \<and> map (phase_class (JNum 5)) jp_phase_names
     = [''phase-pending'', ''phase-pending'', ''phase-pending'', ''phase-pending'',
        ''phase-pending'', ''phase-pending'']
   \<and> el_phases (updateDisplay (JObj [(''status'', JStr ''queued'')]) jp_example) = el_phases jp_example
   \<and> el_phases (updateDisplay (JObj [(''status'', JStr ''queued''), (''current_phase'', JStr ''sending'')])
        jp_example)
     = [(''initializing'', Some [''phase-complete'']), (''preparing'', Some [''phase-complete'']),
        (''extracting'', Some [''phase-complete'']), (''processing'', Some [''phase-complete'']),
        (''sending'', Some [''phase-active'']), (''completed'', Some [''phase-pending''])]
   \<and> su_currentPhase (JObj [(''status'', JStr ''completed'')]) = Inr ''completed''
   \<and> su_currentPhase (JObj [(''status'', JStr ''processing''), (''processing_details'', JStr ''preparing'')])
     = Inr ''preparing''
   \<and> map_sum (\<lambda>e. ())
        (\<lambda>w. map (\<lambda>(n, cl). (n, ''active'' \<in> set cl)) (su_stepIndicators w))
        (updateProcessingPhase
           (JObj [(''status'', JStr ''processing''), (''processing_details'', JStr ''preparing'')])
           su_example)
     = Inr [(''initializing'', True), (''preparing'', True), (''sending'', False),
            (''extracting'', False), (''processing'', False), (''completed'', False)]"
proof -
  let ?q = "JObj [(''status'', JStr ''queued'')]"
  let ?s = "JObj [(''status'', JStr ''queued''), (''current_phase'', JStr ''sending'')]"
  let ?c = "JObj [(''status'', JStr ''completed'')]"
  let ?p = "JObj [(''status'', JStr ''processing''), (''processing_details'', JStr ''preparing'')]"
  note a = phase_display [where p = "''sending''" and ph = "JNum 5" and d = "?q" and s = jp_example
      and det = "[]" and v = Null and kvs = "[]" and cur = "''initializing''" and u = su_example]
  note b = phase_display [where p = "''sending''" and ph = "JStr ''sending''" and d = "?s"
      and s = jp_example and det = "[]" and v = Null and kvs = "[]" and cur = "''initializing''"
      and u = su_example]
  note c = phase_display [where p = "''sending''" and ph = "JNum 5" and d = "?c" and s = jp_example
      and det = "[]" and v = Null and kvs = "[]" and cur = "''completed''" and u = su_example]
  note e = phase_display [where p = "''sending''" and ph = "JNum 5" and d = "?p" and s = jp_example
      and det = "''preparing''" and v = Null and kvs = "[]" and cur = "''preparing''"
      and u = su_example]
  have ind: "su_stepIndicators su_example =
      [(''initializing'', [''step-indicator'', ''active'']), (''preparing'', [''step-indicator'']),
       (''sending'', [''step-indicator'']), (''extracting'', [''step-indicator'']),
       (''processing'', [''step-indicator'']), (''completed'', [''step-indicator''])]"
    by (simp add: su_example_def StatusUpdater_def su_phases_def)
  have jp: "el_phases jp_example =
      [(''initializing'', Some []), (''preparing'', Some []), (''extracting'', Some []),
       (''processing'', Some []), (''sending'', Some []), (''completed'', Some [])]"
     "el_phases_container jp_example"
    by (simp_all add: jp_example_def jp_phase_names_def)
  have 1: "map (phase_class (JStr ''sending'')) jp_phase_names
     = [''phase-complete'', ''phase-complete'', ''phase-complete'', ''phase-complete'',
        ''phase-active'', ''phase-pending'']"
    using a [THEN conjunct1] by (simp add: jp_phase_names_def)
  have 2: "map (phase_class (JNum 5)) jp_phase_names
     = [''phase-pending'', ''phase-pending'', ''phase-pending'', ''phase-pending'',
        ''phase-pending'', ''phase-pending'']"
    using a [THEN conjunct2, THEN conjunct1]
    by (simp add: jp_phase_names_def show_int_def digits_small digit_def)
  have 3: "el_phases (updateDisplay ?q jp_example) = el_phases jp_example"
    using a [THEN conjunct2, THEN conjunct2, THEN conjunct2, THEN conjunct1]
    by (simp add: nullish_def)
  have st: "\<not> isl (jp_statusText ?s)" by (simp add: jp_statusText_def)
  have "el_phases (updateDisplay ?s jp_example) = el_phases (updatePhaseDisplay (JStr ''sending'') jp_example)"
    using b [THEN conjunct2, THEN conjunct2, THEN conjunct2, THEN conjunct2, THEN conjunct1] st jp(2)
    by (simp add: nullish_def)
  also have "\<dots> = map (\<lambda>(n, el). (n, map_option
              (\<lambda>cl. filter (\<lambda>c. c \<notin> set [''phase-active'', ''phase-complete'', ''phase-pending'']) cl
                       @ [phase_class (JStr ''sending'') n]) el)) (el_phases jp_example)"
    by (rule b [THEN conjunct2, THEN conjunct2, THEN conjunct1])
  also have "\<dots> = [(''initializing'', Some [''phase-complete'']), (''preparing'', Some [''phase-complete'']),
        (''extracting'', Some [''phase-complete'']), (''processing'', Some [''phase-complete'']),
        (''sending'', Some [''phase-active'']), (''completed'', Some [''phase-pending''])]"
    using 1 by (simp add: jp jp_phase_names_def)
  finally have 4: "el_phases (updateDisplay ?s jp_example)
     = [(''initializing'', Some [''phase-complete'']), (''preparing'', Some [''phase-complete'']),
        (''extracting'', Some [''phase-complete'']), (''processing'', Some [''phase-complete'']),
        (''sending'', Some [''phase-active'']), (''completed'', Some [''phase-pending''])]" .
  have 5: "su_currentPhase ?c = Inr ''completed''"
    using c [THEN conjunct2, THEN conjunct2, THEN conjunct2, THEN conjunct2, THEN conjunct2,
        THEN conjunct1] by simp
  have 6: "su_currentPhase ?p = Inr ''preparing''"
    using e [THEN conjunct2, THEN conjunct2, THEN conjunct2, THEN conjunct2, THEN conjunct2,
        THEN conjunct2, THEN conjunct1] by (simp add: js_or_def)
  have 7: "map_sum (\<lambda>e. ())
        (\<lambda>w. map (\<lambda>(n, cl). (n, ''active'' \<in> set cl)) (su_stepIndicators w))
        (updateProcessingPhase ?p su_example)
     = Inr [(''initializing'', True), (''preparing'', True), (''sending'', False),
            (''extracting'', False), (''processing'', False), (''completed'', False)]"
    using e [THEN conjunct2, THEN conjunct2, THEN conjunct2, THEN conjunct2, THEN conjunct2,
        THEN conjunct2, THEN conjunct2, THEN conjunct2] 6
    by (simp add: ind)
  from 1 2 3 4 5 6 7 show ?thesis by blast
qed

text \<open>
  The claim fails. The order of the specification is initializing, preparing, sending,
  extracting, processing, completed (the \<open>phases\<close> field of StatusUpdater, which no method
  reads). With the current phase extracting, JobProgress marks sending, which that order
  puts before extracting, as pending; on details that mention sending and processing
  StatusUpdater takes processing, where that order has sending first; and without
  \<open>current_phase\<close> JobProgress derives nothing from the details.
\<close>

theorem phase_order_counterexample:
  "su_phases = [''initializing'', ''preparing'', ''sending'', ''extracting'', ''processing'', ''completed'']
   \<and> map (phase_class (JStr ''extracting'')) su_phases
     = [''phase-complete'', ''phase-complete'', ''phase-pending'', ''phase-active'',
        ''phase-pending'', ''phase-pending'']
   \<and> su_currentPhase
        (JObj [(''status'', JStr ''processing''),
               (''processing_details'', JStr ''sending documents for processing'')])
     = Inr ''processing''
   \<and> el_phases
        (updateDisplay
           (JObj [(''status'', JStr ''queued''), (''processing_details'', JStr ''extracting text'')])
           jp_example)
     = el_phases jp_example"
proof -
  have 1: "map (phase_class (JStr ''extracting'')) su_phases
     = [''phase-complete'', ''phase-complete'', ''phase-pending'', ''phase-active'',
        ''phase-pending'', ''phase-pending'']"
    by (simp add: su_phases_def phase_class_def phaseOrder_or0_def phaseOrder_def)
  have 2: "su_currentPhase
        (JObj [(''status'', JStr ''processing''),
               (''processing_details'', JStr ''sending documents for processing'')])
     = Inr ''processing''"
    by (simp add: su_currentPhase_def first_including_def js_includes_def js_or_def Let_def)
  have 3: "el_phases
        (updateDisplay
           (JObj [(''status'', JStr ''queued''), (''processing_details'', JStr ''extracting text'')])
           jp_example)
     = el_phases jp_example"
    by (rule phases_dispatch(1)) (simp_all add: nullish_def)
  from 1 2 3 show ?thesis by (simp add: su_phases_def)
qed

end
